theory Spec2Isabelle
  imports Complex_Main "HOL-Library.Word"
begin

unbundle bit_operations_syntax

section \<open>Formats (lib/etc2/etc2.go)\<close>

text \<open>
  \<^verbatim>\<open>type Format uint8\<close>. The constants carry their meaning in their bits: the two
  top bits give the ETC generation, the low bits the alpha model, the colour space and
  the 11-bit depth variants.
\<close>

type_synonym byte = "8 word"
type_synonym Format = "8 word"

definition FormatInvalid :: Format where "FormatInvalid = 0x00"
definition FormatETC1S :: Format where "FormatETC1S = 0x40"
definition FormatETC1 :: Format where "FormatETC1 = 0x80"
definition FormatETC2RGB :: Format where "FormatETC2RGB = 0xC0"
definition FormatETC2RGBA1 :: Format where "FormatETC2RGBA1 = 0xC1"
definition FormatETC2RGBA8 :: Format where "FormatETC2RGBA8 = 0xC2"
definition FormatETC2SRGB :: Format where "FormatETC2SRGB = 0xC4"
definition FormatETC2SRGBA1 :: Format where "FormatETC2SRGBA1 = 0xC5"
definition FormatETC2SRGBA8 :: Format where "FormatETC2SRGBA8 = 0xC6"
definition FormatETC2R11Unsigned :: Format where "FormatETC2R11Unsigned = 0xC8"
definition FormatETC2R11Signed :: Format where "FormatETC2R11Signed = 0xD8"
definition FormatETC2RG11Unsigned :: Format where "FormatETC2RG11Unsigned = 0xE8"
definition FormatETC2RG11Signed :: Format where "FormatETC2RG11Signed = 0xF8"

definition formatBit1BitAlpha :: Format where "formatBit1BitAlpha = 0x01"
definition formatBit8BitAlpha :: Format where "formatBit8BitAlpha = 0x02"
definition formatBitSRGBColorSpace :: Format where "formatBitSRGBColorSpace = 0x04"
definition formatBitDepth11 :: Format where "formatBitDepth11 = 0x08"
definition formatBitDepth11Signed :: Format where "formatBitDepth11Signed = 0x10"
definition formatBitDepth11TwoChannel :: Format where "formatBitDepth11TwoChannel = 0x20"
definition formatBitsETC1S :: Format where "formatBitsETC1S = 0x40"
definition formatBitsETC1 :: Format where "formatBitsETC1 = 0x80"
definition formatBitsETC2 :: Format where "formatBitsETC2 = 0xC0"

lemmas Format_defs =
  FormatInvalid_def FormatETC1S_def FormatETC1_def FormatETC2RGB_def FormatETC2RGBA1_def
  FormatETC2RGBA8_def FormatETC2SRGB_def FormatETC2SRGBA1_def FormatETC2SRGBA8_def
  FormatETC2R11Unsigned_def FormatETC2R11Signed_def FormatETC2RG11Unsigned_def
  FormatETC2RG11Signed_def

lemmas formatBit_defs =
  formatBit1BitAlpha_def formatBit8BitAlpha_def formatBitSRGBColorSpace_def
  formatBitDepth11_def formatBitDepth11Signed_def formatBitDepth11TwoChannel_def
  formatBitsETC1S_def formatBitsETC1_def formatBitsETC2_def

definition ETCVersion :: "Format \<Rightarrow> int" where
  "ETCVersion f =
     (if f < formatBitsETC1S then 0
      else if f < formatBitsETC2 then 1
      else 2)"

definition BytesPerBlock :: "Format \<Rightarrow> nat" where
  "BytesPerBlock f =
     (if f = FormatInvalid then 0
      else if 0 \<noteq> (f AND (formatBit8BitAlpha OR formatBitDepth11TwoChannel)) then 16
      else 8)"

datatype ColorModel = NoColorModel | NRGBAModel | RGBAModel | RGBA64Model | Gray16Model

definition ColorModel :: "Format \<Rightarrow> ColorModel" where
  "ColorModel f =
     (if f = FormatInvalid then NoColorModel
      else if 0 \<noteq> (f AND formatBit8BitAlpha) then NRGBAModel
      else if 0 = (f AND formatBitDepth11) then RGBAModel
      else if 0 \<noteq> (f AND formatBitDepth11TwoChannel) then RGBA64Model
      else Gray16Model)"

section \<open>Errors\<close>

text \<open>
  The error values of the two packages, and the errors that come from outside: the two
  results of \<^verbatim>\<open>io.ReadFull\<close> on a short stream, and whatever a sink's
  \<^verbatim>\<open>Write\<close> reports (numbered, since the code only passes it on).
\<close>

datatype error =
    ErrBadArgument
  | ErrBadImageType
  | ErrImageIsTooLarge
  | PkmErrBadArgument
  | ErrNotAPKMFile
  | PkmErrImageIsTooLarge
  | EOF
  | ErrUnexpectedEOF
  | SinkError nat

section \<open>The PKM container header (package pkm)\<close>

definition Magic :: "byte list" where
  "Magic = [0x50, 0x4B, 0x4D, 0x20]"

definition pkmToETC2Formats :: "Format list" where
  "pkmToETC2Formats =
     [FormatETC1, FormatETC2RGB, FormatInvalid, FormatETC2RGBA8, FormatETC2RGBA1,
      FormatETC2R11Unsigned, FormatETC2RG11Unsigned, FormatETC2R11Signed,
      FormatETC2RG11Signed, FormatETC2SRGB, FormatETC2SRGBA8, FormatETC2SRGBA1]"

record Config =
  cfgColorModel :: ColorModel
  cfgWidth :: int
  cfgHeight :: int

text \<open>
  \<^verbatim>\<open>io.ReadFull(r, buf[:])\<close> on a reader that delivers the bytes \<open>bs\<close> and then
  ends: sixteen bytes and the rest of the stream, or \<^verbatim>\<open>io.EOF\<close> when there is no
  byte at all, or \<^verbatim>\<open>io.ErrUnexpectedEOF\<close> when there are fewer than sixteen.
\<close>

definition ReadFull16 :: "byte list \<Rightarrow> error + (byte list \<times> byte list)" where
  "ReadFull16 bs =
     (if length bs = 0 then Inl EOF
      else if length bs < 16 then Inl ErrUnexpectedEOF
      else Inr (take 16 bs, drop 16 bs))"

definition u16be :: "byte \<Rightarrow> byte \<Rightarrow> 32 word" where
  "u16be hi lo = (push_bit 8 (ucast hi)) OR (ucast lo)"

definition decodeConfig :: "byte list \<Rightarrow> error + (Format \<times> Config \<times> byte list)" where
  "decodeConfig r =
     (case ReadFull16 r of
        Inl err \<Rightarrow> Inl err
      | Inr (buf, rest) \<Rightarrow>
          if buf ! 0 \<noteq> Magic ! 0 \<or> buf ! 1 \<noteq> Magic ! 1 \<or>
             buf ! 2 \<noteq> Magic ! 2 \<or> buf ! 3 \<noteq> Magic ! 3 \<or>
             buf ! 5 \<noteq> 0x30 \<or> buf ! 6 \<noteq> 0x00
          then Inl ErrNotAPKMFile
          else if buf ! 4 \<noteq> 0x31 \<and> buf ! 4 \<noteq> 0x32 then Inl ErrNotAPKMFile
          else
            let etcVersion = uint (buf ! 4 AND 0x03);
                f = unat (buf ! 7);
                retFormat = (if f < length pkmToETC2Formats then pkmToETC2Formats ! f else 0)
            in if ETCVersion retFormat \<noteq> etcVersion then Inl ErrNotAPKMFile
               else
                 let roundedUpWidth = u16be (buf ! 8) (buf ! 9);
                     roundedUpHeight = u16be (buf ! 10) (buf ! 11);
                     width = u16be (buf ! 12) (buf ! 13);
                     height = u16be (buf ! 14) (buf ! 15)
                 in if ((width + 3) AND NOT 3) \<noteq> roundedUpWidth \<or>
                       ((height + 3) AND NOT 3) \<noteq> roundedUpHeight
                    then Inl ErrNotAPKMFile
                    else Inr (retFormat,
                              \<lparr>cfgColorModel = ColorModel retFormat,
                               cfgWidth = uint width, cfgHeight = uint height\<rparr>,
                              rest))"

definition DecodeConfig :: "byte list \<Rightarrow> error + Config" where
  "DecodeConfig r =
     (case decodeConfig r of Inl err \<Rightarrow> Inl err | Inr (_, config, _) \<Rightarrow> Inr config)"

text \<open>
  \<^verbatim>\<open>pkm.Decode\<close>. The block decoder \<^verbatim>\<open>Format.Decode\<close> and the image
  constructor \<^verbatim>\<open>Format.NewImage\<close> are taken together as the parameter
  \<open>decodeBlocks\<close>: from the format, the configuration and the rest of the stream to
  an image or an error. Nothing is assumed about it here.
\<close>

definition Decode ::
  "(Format \<Rightarrow> Config \<Rightarrow> byte list \<Rightarrow> error + 'img) \<Rightarrow> byte list \<Rightarrow> error + 'img" where
  "Decode decodeBlocks r =
     (case decodeConfig r of
        Inl err \<Rightarrow> Inl err
      | Inr (format, config, rest) \<Rightarrow> decodeBlocks format config rest)"

section \<open>Source images (the standard library's \<^verbatim>\<open>image.Image\<close>)\<close>

text \<open>
  An \<^verbatim>\<open>image.Rectangle\<close> holds the points with \<open>Min \<le> p < Max\<close> on both axes.
  The four kinds of source are the four branches of the extractor's type switch, in its
  order: \<^verbatim>\<open>*image.NRGBA\<close>, \<^verbatim>\<open>*image.NRGBA64\<close>, any other
  \<^verbatim>\<open>image.RGBA64Image\<close>, and any other \<^verbatim>\<open>image.Image\<close> (read through
  \<^verbatim>\<open>At(x, y).RGBA()\<close>, four \<^verbatim>\<open>uint32\<close>). The last two deliver
  alpha-premultiplied channels. Coordinates are Go's \<^verbatim>\<open>int\<close>, far from its limits
  here, hence \<open>int\<close>.
\<close>

record Rectangle =
  MinX :: int
  MinY :: int
  MaxX :: int
  MaxY :: int

definition Dx :: "Rectangle \<Rightarrow> int" where
  "Dx r = MaxX r - MinX r"

definition Dy :: "Rectangle \<Rightarrow> int" where
  "Dy r = MaxY r - MinY r"

definition In :: "int \<times> int \<Rightarrow> Rectangle \<Rightarrow> bool" where
  "In p r = (MinX r \<le> fst p \<and> fst p < MaxX r \<and> MinY r \<le> snd p \<and> snd p < MaxY r)"

datatype Image =
    ImageNRGBA Rectangle "int \<Rightarrow> int \<Rightarrow> byte \<times> byte \<times> byte \<times> byte"
  | ImageNRGBA64 Rectangle "int \<Rightarrow> int \<Rightarrow> 16 word \<times> 16 word \<times> 16 word \<times> 16 word"
  | ImageRGBA64 Rectangle "int \<Rightarrow> int \<Rightarrow> 16 word \<times> 16 word \<times> 16 word \<times> 16 word"
  | ImageOther Rectangle "int \<Rightarrow> int \<Rightarrow> 32 word \<times> 32 word \<times> 32 word \<times> 32 word"

fun Bounds :: "Image \<Rightarrow> Rectangle" where
  "Bounds (ImageNRGBA r _) = r"
| "Bounds (ImageNRGBA64 r _) = r"
| "Bounds (ImageRGBA64 r _) = r"
| "Bounds (ImageOther r _) = r"

text \<open>
  \<^verbatim>\<open>(*image.NRGBA).NRGBAAt\<close> and \<^verbatim>\<open>(*image.NRGBA64).NRGBA64At\<close> answer the zero
  colour for a point outside the image's rectangle.
\<close>

definition NRGBAAt ::
  "Rectangle \<Rightarrow> (int \<Rightarrow> int \<Rightarrow> byte \<times> byte \<times> byte \<times> byte) \<Rightarrow> int \<Rightarrow> int
     \<Rightarrow> byte \<times> byte \<times> byte \<times> byte" where
  "NRGBAAt r pix x y = (if In (x, y) r then pix x y else (0, 0, 0, 0))"

definition NRGBA64At ::
  "Rectangle \<Rightarrow> (int \<Rightarrow> int \<Rightarrow> 16 word \<times> 16 word \<times> 16 word \<times> 16 word) \<Rightarrow> int \<Rightarrow> int
     \<Rightarrow> 16 word \<times> 16 word \<times> 16 word \<times> 16 word" where
  "NRGBA64At r pix x y = (if In (x, y) r then pix x y else (0, 0, 0, 0))"

text \<open>
  A pixel is opaque when its alpha is the largest value of its type: \<^verbatim>\<open>0xFF\<close> in an
  \<^verbatim>\<open>*image.NRGBA\<close>, \<^verbatim>\<open>0xFFFF\<close> in the three 16-bit kinds (an
  \<^verbatim>\<open>*image.RGBA\<close> is of the third kind, and its \<^verbatim>\<open>RGBA64At\<close> answers alpha
  \<^verbatim>\<open>0xFFFF\<close> for a stored alpha of \<^verbatim>\<open>0xFF\<close>).
\<close>

fun opaqueAt :: "Image \<Rightarrow> int \<Rightarrow> int \<Rightarrow> bool" where
  "opaqueAt (ImageNRGBA rect pix) X Y = (case pix X Y of (cR, cG, cB, cA) \<Rightarrow> cA = 0xFF)"
| "opaqueAt (ImageNRGBA64 rect pix) X Y = (case pix X Y of (cR, cG, cB, cA) \<Rightarrow> cA = 0xFFFF)"
| "opaqueAt (ImageRGBA64 rect pix) X Y = (case pix X Y of (cR, cG, cB, cA) \<Rightarrow> cA = 0xFFFF)"
| "opaqueAt (ImageOther rect pix) X Y = (case pix X Y of (r, g, b, a) \<Rightarrow> a = 0xFFFF)"

section \<open>The pixel extractor (lib/etc2/extract.go)\<close>

definition grayR :: "64 word" where "grayR = 212656"
definition grayG :: "64 word" where "grayG = 715158"
definition grayB :: "64 word" where "grayB = 72186"
definition graySum :: "64 word" where "graySum = 1000000"

definition gray16 :: "64 word \<Rightarrow> 64 word \<Rightarrow> 64 word \<Rightarrow> 64 word" where
  "gray16 r g b = ((graySum div 2) + (r * grayR) + (g * grayG) + (b * grayB)) div graySum"

text \<open>
  The body of the two inner loops, for one pixel of the window. \<open>X\<close> and \<open>Y\<close> are
  the coordinates the source is read at; the result lists the bytes stored, as offsets
  from the pixel's index \<open>i\<close>. First the 11-bit formats, then the colour formats.
\<close>

fun stores11 :: "Image \<Rightarrow> bool \<Rightarrow> int \<Rightarrow> int \<Rightarrow> (nat \<times> byte) list" where
  "stores11 (ImageNRGBA rect pix) twoChannel X Y =
     (case NRGBAAt rect pix X Y of (cR, cG, cB, cA) \<Rightarrow>
        if twoChannel then [(0x00, cR), (0x01, cR), (0x20, cG), (0x21, cG)]
        else
          let gray = gray16 (ucast cR * 0x101) (ucast cG * 0x101) (ucast cB * 0x101)
          in [(0x00, ucast (drop_bit 8 gray)), (0x01, ucast gray)])"
| "stores11 (ImageNRGBA64 rect pix) twoChannel X Y =
     (case NRGBA64At rect pix X Y of (cR, cG, cB, cA) \<Rightarrow>
        if twoChannel
        then [(0x00, ucast (drop_bit 8 cR)), (0x01, ucast cR),
              (0x20, ucast (drop_bit 8 cG)), (0x21, ucast cG)]
        else
          let gray = gray16 (ucast cR) (ucast cG) (ucast cB)
          in [(0x00, ucast (drop_bit 8 gray)), (0x01, ucast gray)])"
| "stores11 (ImageRGBA64 rect pix) twoChannel X Y =
     (case pix X Y of (cR0, cG0, cB0, cA) \<Rightarrow>
        let unmul = (cA \<noteq> 0x0000 \<and> cA \<noteq> 0xFFFF);
            cR = (if unmul then ucast (((ucast cR0 :: 32 word) * 0xFFFF) div ucast cA) else cR0);
            cG = (if unmul then ucast (((ucast cG0 :: 32 word) * 0xFFFF) div ucast cA) else cG0);
            cB = (if unmul then ucast (((ucast cB0 :: 32 word) * 0xFFFF) div ucast cA) else cB0)
        in
        if twoChannel
        then [(0x00, ucast (drop_bit 8 cR)), (0x01, ucast cR),
              (0x20, ucast (drop_bit 8 cG)), (0x21, ucast cG)]
        else
          let gray = gray16 (ucast cR) (ucast cG) (ucast cB)
          in [(0x00, ucast (drop_bit 8 gray)), (0x01, ucast gray)])"
| "stores11 (ImageOther rect pix) twoChannel X Y =
     (case pix X Y of (r0, g0, b0, a) \<Rightarrow>
        let unmul = (a \<noteq> 0x0000 \<and> a \<noteq> 0xFFFF);
            r = (if unmul then (r0 * 0xFFFF) div a else r0);
            g = (if unmul then (g0 * 0xFFFF) div a else g0);
            b = (if unmul then (b0 * 0xFFFF) div a else b0)
        in
        if twoChannel
        then [(0x00, ucast (drop_bit 8 r)), (0x01, ucast r),
              (0x20, ucast (drop_bit 8 g)), (0x21, ucast g)]
        else
          let gray = gray16 (ucast r) (ucast g) (ucast b)
          in [(0x00, ucast (drop_bit 8 gray)), (0x01, ucast gray)])"

fun storesColor :: "Image \<Rightarrow> int \<Rightarrow> int \<Rightarrow> (nat \<times> byte) list" where
  "storesColor (ImageNRGBA rect pix) X Y =
     (case NRGBAAt rect pix X Y of (cR, cG, cB, cA) \<Rightarrow>
        [(0, cR), (1, cG), (2, cB), (3, cA)])"
| "storesColor (ImageNRGBA64 rect pix) X Y =
     (case NRGBA64At rect pix X Y of (cR, cG, cB, cA) \<Rightarrow>
        [(0, ucast (drop_bit 8 cR)), (1, ucast (drop_bit 8 cG)),
         (2, ucast (drop_bit 8 cB)), (3, ucast (drop_bit 8 cA))])"
| "storesColor (ImageRGBA64 rect pix) X Y =
     (case pix X Y of (cR0, cG0, cB0, cA) \<Rightarrow>
        let unmul = (cA \<noteq> 0x0000 \<and> cA \<noteq> 0xFFFF);
            cR = (if unmul then ucast (((ucast cR0 :: 32 word) * 0xFFFF) div ucast cA) else cR0);
            cG = (if unmul then ucast (((ucast cG0 :: 32 word) * 0xFFFF) div ucast cA) else cG0);
            cB = (if unmul then ucast (((ucast cB0 :: 32 word) * 0xFFFF) div ucast cA) else cB0)
        in [(0, ucast (drop_bit 8 cR)), (1, ucast (drop_bit 8 cG)),
            (2, ucast (drop_bit 8 cB)), (3, ucast (drop_bit 8 cA))])"
| "storesColor (ImageOther rect pix) X Y =
     (case pix X Y of (r0, g0, b0, a) \<Rightarrow>
        let unmul = (a \<noteq> 0x0000 \<and> a \<noteq> 0xFFFF);
            r = (if unmul then (r0 * 0xFFFF) div a else r0);
            g = (if unmul then (g0 * 0xFFFF) div a else g0);
            b = (if unmul then (b0 * 0xFFFF) div a else b0)
        in [(0, ucast (drop_bit 8 r)), (1, ucast (drop_bit 8 g)),
            (2, ucast (drop_bit 8 b)), (3, ucast (drop_bit 8 a))])"

text \<open>
  The three channel values of one pixel as they enter the gray computation of the
  single-channel branch: \<^verbatim>\<open>uint64(c.R) * 0x101\<close> for an 8-bit source,
  \<^verbatim>\<open>uint64(c.R)\<close> for a 16-bit one, after the division by alpha where the source
  is premultiplied.
\<close>

fun channels16 :: "Image \<Rightarrow> int \<Rightarrow> int \<Rightarrow> 64 word \<times> 64 word \<times> 64 word" where
  "channels16 (ImageNRGBA rect pix) X Y =
     (case NRGBAAt rect pix X Y of (cR, cG, cB, cA) \<Rightarrow>
        (ucast cR * 0x101, ucast cG * 0x101, ucast cB * 0x101))"
| "channels16 (ImageNRGBA64 rect pix) X Y =
     (case NRGBA64At rect pix X Y of (cR, cG, cB, cA) \<Rightarrow> (ucast cR, ucast cG, ucast cB))"
| "channels16 (ImageRGBA64 rect pix) X Y =
     (case pix X Y of (cR0, cG0, cB0, cA) \<Rightarrow>
        let unmul = (cA \<noteq> 0x0000 \<and> cA \<noteq> 0xFFFF);
            cR = (if unmul then ucast (((ucast cR0 :: 32 word) * 0xFFFF) div ucast cA) else cR0);
            cG = (if unmul then ucast (((ucast cG0 :: 32 word) * 0xFFFF) div ucast cA) else cG0);
            cB = (if unmul then ucast (((ucast cB0 :: 32 word) * 0xFFFF) div ucast cA) else cB0)
        in (ucast cR, ucast cG, ucast cB))"
| "channels16 (ImageOther rect pix) X Y =
     (case pix X Y of (r0, g0, b0, a) \<Rightarrow>
        let unmul = (a \<noteq> 0x0000 \<and> a \<noteq> 0xFFFF);
            r = (if unmul then (r0 * 0xFFFF) div a else r0);
            g = (if unmul then (g0 * 0xFFFF) div a else g0);
            b = (if unmul then (b0 * 0xFFFF) div a else b0)
        in (ucast r, ucast g, ucast b))"

text \<open>
  The sixteen iterations \<^verbatim>\<open>for y := range 4 { for x := range 4 {\<close>, in order.
\<close>

definition window :: "(nat \<times> nat) list" where
  "window = concat (map (\<lambda>y. map (\<lambda>x. (y, x)) [0..<4]) [0..<4])"

text \<open>
  The point of the source that the extractor reads for the window's pixel \<open>(x, y)\<close> of
  the block at \<open>(blockX, blockY)\<close>:
  \<^verbatim>\<open>(min(mX1, blockX+x), min(mY1, blockY+y))\<close> with \<^verbatim>\<open>mX1 = Max.X - 1\<close> and
  \<^verbatim>\<open>mY1 = Max.Y - 1\<close>.
\<close>

definition readPoint :: "Image \<Rightarrow> int \<Rightarrow> int \<Rightarrow> nat \<times> nat \<Rightarrow> int \<times> int" where
  "readPoint src blockX blockY yx =
     (let mX1 = MaxX (Bounds src) - 1;
          mY1 = MaxY (Bounds src) - 1
      in (min mX1 (blockX + int (snd yx)), min mY1 (blockY + int (fst yx))))"

definition store :: "nat \<Rightarrow> byte list \<Rightarrow> (nat \<times> byte) \<Rightarrow> byte list" where
  "store i pixels ov = pixels[i + fst ov := snd ov]"

text \<open>
  \<^verbatim>\<open>makeExtract\<close> applied to a block position: the closure's effect on the encoder's
  64-byte array \<^verbatim>\<open>pixels\<close>. Every index stored to is below 64.
\<close>

definition "extract" :: "Format \<Rightarrow> Image \<Rightarrow> byte list \<Rightarrow> int \<Rightarrow> int \<Rightarrow> byte list" where
  "extract f src pixels blockX blockY =
     (if (f AND formatBitDepth11) \<noteq> 0 then
        let twoChannel = ((f AND formatBitDepth11TwoChannel) \<noteq> 0) in
        foldl (\<lambda>pixels yx.
                 let i = (8 * fst yx) + (2 * snd yx);
                     p = readPoint src blockX blockY yx
                 in foldl (store i) pixels (stores11 src twoChannel (fst p) (snd p)))
              pixels window
      else
        foldl (\<lambda>pixels yx.
                 let i = (16 * fst yx) + (4 * snd yx);
                     p = readPoint src blockX blockY yx
                 in foldl (store i) pixels (storesColor src (fst p) (snd p)))
              pixels window)"

text \<open>
  The block positions \<^verbatim>\<open>Encode\<close> visits, in its order:
  \<^verbatim>\<open>for blockY := 0; blockY < bH; blockY += 4 { for blockX := 0; blockX < bW; blockX += 4 {\<close>
  with \<^verbatim>\<open>bW, bH := b.Dx(), b.Dy()\<close>.
\<close>

definition steps4 :: "int \<Rightarrow> int list" where
  "steps4 n = map (\<lambda>k. 4 * int k) [0..<nat ((n + 3) div 4)]"

definition blockPositions :: "int \<Rightarrow> int \<Rightarrow> (int \<times> int) list" where
  "blockPositions bW bH =
     concat (map (\<lambda>blockY. map (\<lambda>blockX. (blockX, blockY)) (steps4 bW)) (steps4 bH))"

text \<open>The points of the source read while the blocks of one image are extracted.\<close>

definition readsOfEncode :: "Image \<Rightarrow> (int \<times> int) list" where
  "readsOfEncode src =
     concat (map (\<lambda>(blockX, blockY). map (readPoint src blockX blockY) window)
                 (blockPositions (Dx (Bounds src)) (Dy (Bounds src))))"

section \<open>Constants and tables of the encoder\<close>

definition maxInt32 :: int where "maxInt32 = 0x7FFFFFFF"
definition maxUint64 :: nat where "maxUint64 = 0xFFFFFFFFFFFFFFFF"

definition weightValuesI32 :: "int list" where
  "weightValuesI32 = [299, 587, 114]"

definition scramble :: "nat list" where
  "scramble = [3, 2, 0, 1]"

definition perOrientationPixelsOffsets :: "nat list list" where
  "perOrientationPixelsOffsets =
     [[0x00, 0x10, 0x20, 0x30, 0x04, 0x14, 0x24, 0x34],
      [0x08, 0x18, 0x28, 0x38, 0x0C, 0x1C, 0x2C, 0x3C],
      [0x00, 0x10, 0x04, 0x14, 0x08, 0x18, 0x0C, 0x1C],
      [0x20, 0x30, 0x24, 0x34, 0x28, 0x38, 0x2C, 0x3C]]"

definition perOrientationShifts :: "nat list list" where
  "perOrientationShifts =
     [[0x00, 0x01, 0x02, 0x03, 0x04, 0x05, 0x06, 0x07],
      [0x08, 0x09, 0x0A, 0x0B, 0x0C, 0x0D, 0x0E, 0x0F],
      [0x00, 0x01, 0x04, 0x05, 0x08, 0x09, 0x0C, 0x0D],
      [0x02, 0x03, 0x06, 0x07, 0x0A, 0x0B, 0x0E, 0x0F]]"

definition wholeBlockShifts :: "nat list" where
  "wholeBlockShifts =
     [0x00, 0x04, 0x08, 0x0C,
      0x01, 0x05, 0x09, 0x0D,
      0x02, 0x06, 0x0A, 0x0E,
      0x03, 0x07, 0x0B, 0x0F]"

text \<open>
  Modelled from the spec: the table \<^verbatim>\<open>clamp\<close>, declared in the decoder's file
  (decode.go), which is not part of this development's sources. The spec describes it as
  the 1024-entry table that maps a two's-complement-wrapped 10-bit index to its
  saturation in [0, 255]: an index below 256 to itself, one from 256 to 511 (a positive
  overflow) to 255, one from 512 to 1023 (a negative value) to 0.
\<close>

definition clamp :: "nat \<Rightarrow> nat" where
  "clamp i = (if i < 256 then i else if i < 512 then 255 else 0)"

text \<open>
  Modelled from the spec: the eight modifier tables of the Individual and Differential
  modes (\<^verbatim>\<open>modifiers\<close>, declared in decode.go), with their published values, indexed
  by the pixel index as stored in the codeword: 0 and 1 the small and the large positive
  modifier, 2 and 3 the small and the large negative one.
\<close>

definition modifiers :: "int list list" where
  "modifiers =
     [[2, 8, -2, -8],
      [5, 17, -5, -17],
      [9, 29, -9, -29],
      [13, 42, -13, -42],
      [18, 60, -18, -60],
      [24, 80, -24, -80],
      [33, 106, -33, -106],
      [47, 183, -47, -183]]"

text \<open>
  Modelled from the spec: the sixteen modifier tables of the alpha and 11-bit codewords
  (\<^verbatim>\<open>alphaModifiers\<close>, declared in decode.go), with their published values.
\<close>

definition alphaModifiers :: "int list list" where
  "alphaModifiers =
     [[-3, -6, -9, -15, 2, 5, 8, 14],
      [-3, -7, -10, -13, 2, 6, 9, 12],
      [-2, -5, -8, -13, 1, 4, 7, 12],
      [-2, -4, -6, -13, 1, 3, 5, 12],
      [-3, -6, -8, -12, 2, 5, 7, 11],
      [-3, -7, -9, -11, 2, 6, 8, 10],
      [-4, -7, -8, -11, 3, 6, 7, 10],
      [-3, -5, -8, -11, 2, 4, 7, 10],
      [-2, -6, -8, -10, 1, 5, 7, 9],
      [-2, -5, -8, -10, 1, 4, 7, 9],
      [-2, -4, -8, -10, 1, 3, 7, 9],
      [-2, -5, -7, -10, 1, 4, 6, 9],
      [-3, -4, -7, -10, 2, 3, 6, 9],
      [-1, -2, -3, -10, 0, 1, 2, 9],
      [-4, -6, -8, -9, 3, 5, 7, 8],
      [-3, -5, -7, -9, 2, 4, 6, 8]]"

text \<open>
  Modelled from the spec: the eight distances of the T and H modes
  (\<^verbatim>\<open>thModifiers\<close>, declared in decode.go), with their published values.
\<close>

definition thModifiers :: "int list" where
  "thModifiers = [3, 6, 11, 16, 23, 32, 41, 64]"

section \<open>The EAC 11-bit sub-encoder (lib/etc2/encode.go)\<close>

text \<open>
  \<^verbatim>\<open>encode11Helper\<close> is \<^verbatim>\<open>[8]uint16\<close>: the eight reconstruction values of one
  (base, multiplier, table) combination. The \<^verbatim>\<open>int32\<close> intermediates of
  \<^verbatim>\<open>fill\<close> stay within a few thousand; the conversion to \<^verbatim>\<open>uint16\<close> at the
  end is written out.
\<close>

definition fill :: "nat \<Rightarrow> nat \<Rightarrow> nat \<Rightarrow> bool \<Rightarrow> nat list" where
  "fill rawBase rawMultiplier table signed' =
     (let multiplier = max 1 (8 * int rawMultiplier) in
      if signed' then
        let base = 8 * max (sint (word_of_nat rawBase :: 8 word)) (- 127) in
        map (\<lambda>i.
               let delta = multiplier * (alphaModifiers ! table ! i);
                   value11 = max (- 1023) (min 1023 (base + delta));
                   value16 =
                     (if value11 \<ge> 0 then (push_bit 5 value11) OR (drop_bit 5 value11)
                      else - ((push_bit 5 (- value11)) OR (drop_bit 5 (- value11))))
               in nat ((value16 + 0x8000) mod 65536))
            [0..<8]
      else
        let base = (8 * int rawBase) + 4 in
        map (\<lambda>i.
               let delta = multiplier * (alphaModifiers ! table ! i);
                   value11 = max 0 (min 2047 (base + delta));
                   value16 = (push_bit 5 value11) OR (drop_bit 6 value11)
               in nat (value16 mod 65536))
            [0..<8])"

text \<open>
  The 16-bit sample of pixel \<open>i\<close>:
  \<^verbatim>\<open>(uint32(pixels[pixOffset+(2*i)+0]) << 8) + (uint32(pixels[pixOffset+(2*i)+1]) << 0)\<close>.
\<close>

definition sample11 :: "byte list \<Rightarrow> nat \<Rightarrow> nat \<Rightarrow> nat" where
  "sample11 pixels pixOffset i =
     unat (pixels ! (pixOffset + (2 * i) + 0)) * 256 + unat (pixels ! (pixOffset + (2 * i) + 1))"

text \<open>
  The inner loop over the eight helper values: the smallest squared difference, starting
  from \<^verbatim>\<open>maxUint64\<close> and replaced only by a strictly smaller one.
\<close>

definition bestDelta2 :: "nat list \<Rightarrow> nat \<Rightarrow> nat" where
  "bestDelta2 h val =
     foldl (\<lambda>bestDelta2 helperValue.
              let delta = int val - int helperValue;
                  delta2 = nat (delta * delta)
              in if bestDelta2 > delta2 then delta2 else bestDelta2)
           maxUint64 h"

text \<open>
  \<^verbatim>\<open>calculate11BlockLoss\<close>: the loop over the sixteen pixels, which returns as soon
  as the loss so far is not below \<^verbatim>\<open>bestLossSoFar\<close>. The sum is \<^verbatim>\<open>uint64\<close>
  and stays below \<open>2\<^sup>3\<^sup>6\<close>.
\<close>

fun calculate11BlockLoss_loop :: "nat list \<Rightarrow> byte list \<Rightarrow> nat \<Rightarrow> nat \<Rightarrow> nat list \<Rightarrow> nat \<Rightarrow> nat" where
  "calculate11BlockLoss_loop h pixels pixOffset bestLossSoFar [] loss = loss"
| "calculate11BlockLoss_loop h pixels pixOffset bestLossSoFar (i # rest) loss =
     (let loss' = loss + bestDelta2 h (sample11 pixels pixOffset i)
      in if loss' \<ge> bestLossSoFar then loss'
         else calculate11BlockLoss_loop h pixels pixOffset bestLossSoFar rest loss')"

definition calculate11BlockLoss :: "nat list \<Rightarrow> byte list \<Rightarrow> nat \<Rightarrow> nat \<Rightarrow> nat" where
  "calculate11BlockLoss h pixels pixOffset bestLossSoFar =
     calculate11BlockLoss_loop h pixels pixOffset bestLossSoFar [0..<16] 0"

text \<open>
  The three nested loops of \<^verbatim>\<open>encode11\<close>, \<^verbatim>\<open>base\<close> outermost and
  \<^verbatim>\<open>table\<close> innermost, as the list of the combinations in the order tried.
\<close>

definition combinations11 :: "(nat \<times> nat \<times> nat) list" where
  "combinations11 =
     concat (map (\<lambda>base. concat (map (\<lambda>mult. map (\<lambda>table. (base, mult, table)) [0..<16]) [0..<16]))
                 [0..<256])"

text \<open>The search state is \<open>(bestBase, bestTable, bestMult, bestLoss)\<close>.\<close>

definition search11_step ::
  "byte list \<Rightarrow> nat \<Rightarrow> bool \<Rightarrow> nat \<times> nat \<times> nat \<times> nat \<Rightarrow> nat \<times> nat \<times> nat
     \<Rightarrow> nat \<times> nat \<times> nat \<times> nat" where
  "search11_step pixels pixOffset signed' best c =
     (case best of (bestBase, bestTable, bestMult, bestLoss) \<Rightarrow>
      case c of (base, mult, table) \<Rightarrow>
        let h = fill base mult table signed';
            loss = calculate11BlockLoss h pixels pixOffset bestLoss
        in if bestLoss > loss then (base, table, mult, loss)
           else (bestBase, bestTable, bestMult, bestLoss))"

definition search11 :: "byte list \<Rightarrow> nat \<Rightarrow> bool \<Rightarrow> nat \<times> nat \<times> nat \<times> nat" where
  "search11 pixels pixOffset signed' =
     foldl (search11_step pixels pixOffset signed') (0, 0, 0, maxUint64) combinations11"

text \<open>
  The index of the helper value nearest to a sample: the first index of the smallest
  squared difference.
\<close>

definition bestJ11 :: "nat list \<Rightarrow> nat \<Rightarrow> nat" where
  "bestJ11 h val =
     fst (foldl (\<lambda>(bestJ, bestDelta2) j.
                   let delta = int val - int (h ! j);
                       delta2 = nat (delta * delta)
                   in if bestDelta2 > delta2 then (j, delta2) else (bestJ, bestDelta2))
                (0, maxUint64) [0..<length h])"

text \<open>
  The position of pixel \<open>i\<close>'s 3-bit index in an alpha or 11-bit codeword:
  \<^verbatim>\<open>x := i & 3; y := i >> 2; shift := (((x ^ 3) * 4) | (y ^ 3)) * 3\<close>.
\<close>

definition shift11 :: "nat \<Rightarrow> nat" where
  "shift11 i = (let x = i AND 3; y = drop_bit 2 i in (((x XOR 3) * 4) OR (y XOR 3)) * 3)"

definition encode11 :: "byte list \<Rightarrow> nat \<Rightarrow> bool \<Rightarrow> 64 word" where
  "encode11 pixels pixOffset signed' =
     (case search11 pixels pixOffset signed' of (bestBase, bestTable, bestMult, bestLoss) \<Rightarrow>
        let h = fill bestBase bestMult bestTable signed';
            code = (push_bit (64 - 8) (word_of_nat bestBase)) OR
                   (push_bit (56 - 4) (word_of_nat bestMult)) OR
                   (push_bit (52 - 4) (word_of_nat bestTable))
        in foldl (\<lambda>code i. code OR push_bit (shift11 i) (word_of_nat (bestJ11 h (sample11 pixels pixOffset i))))
                 code [0..<16])"

section \<open>The EAC 8-bit alpha sub-encoder (lib/etc2/encode.go)\<close>

text \<open>
  The \<^verbatim>\<open>int32\<close> variables of \<^verbatim>\<open>encodeAlpha\<close> are modelled as \<open>int\<close>: alpha
  values are below 256, a squared difference is at most \<open>255\<^sup>2\<close> and a sum of sixteen
  of them is far below \<open>2\<^sup>3\<^sup>1\<close>, so nothing wraps; all the divisions are of
  non-negative numbers.
\<close>

definition adjustAlpha :: "int \<Rightarrow> int \<Rightarrow> nat \<Rightarrow> int" where
  "adjustAlpha rawAlpha table index =
     (let multiplier = drop_bit 4 table;
          delta = multiplier * (alphaModifiers ! nat (table AND 15) ! index)
      in int (clamp (nat (1023 AND (rawAlpha + delta)))))"

definition alphaAt :: "byte list \<Rightarrow> nat \<Rightarrow> int" where
  "alphaAt pixels i = uint (pixels ! ((4 * i) + 3))"

text \<open>
  The two monotone walks over the indexes, \<^verbatim>\<open>7, 6, 5, 4\<close> for a pixel above the base
  alpha and \<^verbatim>\<open>0, 1, 2, 3\<close> otherwise; each stops at the first index that does not
  improve (\<^verbatim>\<open>break\<close>). Note the two different comparisons.
\<close>

fun walkDown :: "int \<Rightarrow> int \<Rightarrow> int \<Rightarrow> nat list \<Rightarrow> int \<Rightarrow> int" where
  "walkDown alpha table a [] bestDiff = bestDiff"
| "walkDown alpha table a (index # rest) bestDiff =
     (let d1 = adjustAlpha alpha table index - a;
          d2 = d1 * d1
      in if bestDiff \<ge> d2 then walkDown alpha table a rest d2 else bestDiff)"

fun walkUp :: "int \<Rightarrow> int \<Rightarrow> int \<Rightarrow> nat list \<Rightarrow> int \<Rightarrow> int" where
  "walkUp alpha table a [] bestDiff = bestDiff"
| "walkUp alpha table a (index # rest) bestDiff =
     (let d1 = adjustAlpha alpha table index - a;
          d2 = d1 * d1
      in if bestDiff > d2 then walkUp alpha table a rest d2 else bestDiff)"

definition pixelBestDiff :: "int \<Rightarrow> int \<Rightarrow> int \<Rightarrow> int" where
  "pixelBestDiff alpha table a =
     (if a > alpha then walkDown alpha table a [7, 6, 5, 4] maxInt32
      else walkUp alpha table a [0, 1, 2, 3] maxInt32)"

text \<open>
  \<^verbatim>\<open>xLoop: for x := range 4 { for y := range 4 {\<close>: the pixels in the order visited,
  and the sum of their best differences, abandoned (\<^verbatim>\<open>break xLoop\<close>) once it is
  above \<^verbatim>\<open>bestSum\<close>.
\<close>

definition xyOrder :: "(nat \<times> nat) list" where
  "xyOrder = concat (map (\<lambda>x. map (\<lambda>y. (x, y)) [0..<4]) [0..<4])"

fun xLoop :: "byte list \<Rightarrow> int \<Rightarrow> int \<Rightarrow> int \<Rightarrow> (nat \<times> nat) list \<Rightarrow> int \<Rightarrow> int" where
  "xLoop pixels alpha table bestSum [] sum0 = sum0"
| "xLoop pixels alpha table bestSum (xy # rest) sum0 =
     (let i = (4 * snd xy) + fst xy;
          a = alphaAt pixels i;
          sum' = sum0 + pixelBestDiff alpha table a
      in if sum' > bestSum then sum' else xLoop pixels alpha table bestSum rest sum')"

text \<open>
  The state of the search inside one table is
  \<open>(tableBestSum, tableAlpha, bestSum, bestTable, bestAlpha)\<close>.
  \<^verbatim>\<open>for alpha := alphaLo; alpha <= alphaHi; alpha += alphaScale\<close> runs inside
  \<^verbatim>\<open>for alphaScale := int32(16); alphaScale > 0; alphaScale /= 4\<close>, whose condition
  is repeated in the inner function for its termination.
\<close>

function alphaLoop ::
  "byte list \<Rightarrow> int \<Rightarrow> int \<Rightarrow> int \<Rightarrow> int \<Rightarrow> int \<times> int \<times> int \<times> int \<times> int
     \<Rightarrow> int \<times> int \<times> int \<times> int \<times> int" where
  "alphaLoop pixels table alphaScale alphaHi alpha st =
     (if alpha \<le> alphaHi \<and> alphaScale > 0 then
        (case st of (tableBestSum, tableAlpha, bestSum, bestTable, bestAlpha) \<Rightarrow>
           let sum' = xLoop pixels alpha table bestSum xyOrder 0;
               st1 = (if tableBestSum > sum' then (sum', alpha) else (tableBestSum, tableAlpha));
               st2 = (if bestSum > sum' then (sum', table, alpha) else (bestSum, bestTable, bestAlpha))
           in alphaLoop pixels table alphaScale alphaHi (alpha + alphaScale)
                (fst st1, snd st1, fst st2, fst (snd st2), snd (snd st2)))
      else st)"
  by pat_completeness auto
termination
  by (relation "measure (\<lambda>(pixels, table, alphaScale, alphaHi, alpha, st). nat (alphaHi - alpha + 1))") auto

function scaleLoop ::
  "byte list \<Rightarrow> int \<Rightarrow> int \<Rightarrow> int \<times> int \<times> int \<times> int \<times> int
     \<Rightarrow> int \<times> int \<times> int \<times> int \<times> int" where
  "scaleLoop pixels table alphaScale st =
     (if alphaScale > 0 then
        (case st of (tableBestSum, tableAlpha, bestSum, bestTable, bestAlpha) \<Rightarrow>
           let alphaLo = (if alphaScale = 16 then max 0 (min 255 (tableAlpha - (alphaScale * 4)))
                          else max 0 (min 255 (tableAlpha - (alphaScale * 2))));
               alphaHi = (if alphaScale = 16 then max 0 (min 255 (tableAlpha + (alphaScale * 4)))
                          else max 0 (min 255 (tableAlpha + (alphaScale * 2))))
           in scaleLoop pixels table (alphaScale div 4)
                (alphaLoop pixels table alphaScale alphaHi alphaLo st))
      else st)"
  by pat_completeness auto
termination
  by (relation "measure (\<lambda>(pixels, table, alphaScale, st). nat alphaScale)") auto

text \<open>
  \<^verbatim>\<open>for table := tableLo; (table < tableHi) && (bestSum > 0); table++\<close>, over the
  tables from \<^verbatim>\<open>tableLo\<close> up to but excluding \<^verbatim>\<open>tableHi\<close>; the state is
  \<open>(bestSum, bestTable, bestAlpha)\<close>. \<^verbatim>\<open>prevAlpha\<close> is never assigned after its
  initialisation. Once \<^verbatim>\<open>bestSum\<close> is 0 the loop is over; here the remaining
  tables leave the state as it is.
\<close>

definition tableBody :: "byte list \<Rightarrow> int \<Rightarrow> int \<times> int \<times> int \<Rightarrow> int \<Rightarrow> int \<times> int \<times> int" where
  "tableBody pixels prevAlpha best table =
     (case best of (bestSum, bestTable, bestAlpha) \<Rightarrow>
        if bestSum > 0 then
          (case scaleLoop pixels table 16 (maxInt32, prevAlpha, bestSum, bestTable, bestAlpha) of
             (tableBestSum, tableAlpha, bestSum', bestTable', bestAlpha') \<Rightarrow>
               (bestSum', bestTable', bestAlpha'))
        else best)"

definition tableLoop :: "byte list \<Rightarrow> int \<Rightarrow> int list \<Rightarrow> int \<times> int \<times> int \<Rightarrow> int \<times> int \<times> int" where
  "tableLoop pixels prevAlpha tables best = foldl (tableBody pixels prevAlpha) best tables"

definition bestIndexAlpha :: "int \<Rightarrow> int \<Rightarrow> int \<Rightarrow> nat" where
  "bestIndexAlpha bestAlpha bestTable a =
     fst (foldl (\<lambda>(bestIndex, bestD2) index.
                   let d1 = adjustAlpha bestAlpha bestTable index - a;
                       d2 = d1 * d1
                   in if bestD2 > d2 then (index, d2) else (bestIndex, bestD2))
                (0, maxInt32) [0..<8])"

definition encodeAlpha :: "byte list \<Rightarrow> 64 word" where
  "encodeAlpha pixels =
     (let alphaSum = foldl (\<lambda>alphaSum i. alphaSum + alphaAt pixels i) 0 [0..<16];
          alpha = (alphaSum + 8) div 16;
          maxDist = foldl (\<lambda>maxDist i.
                             let a = alphaAt pixels i;
                                 d = a - alpha;
                                 d' = (if d < 0 then - d else d)
                             in max maxDist d') 0 [0..<16];
          approxPos = min 255 (((maxDist * 255) div 160) - 4);
          tableLo = max 0 (approxPos - 15);
          tableHi = max 0 (min 255 (approxPos + 15));
          prevAlpha = alpha
      in case tableLoop pixels prevAlpha [tableLo..tableHi - 1] (maxInt32, 0, 0) of
           (bestSum, bestTable, bestAlpha) \<Rightarrow>
             let code = (push_bit 56 (word_of_int bestAlpha)) OR (push_bit 48 (word_of_int bestTable))
             in foldl (\<lambda>code i.
                         code OR push_bit (shift11 i)
                                   (word_of_nat (bestIndexAlpha bestAlpha bestTable (alphaAt pixels i))))
                      code [0..<16])"

section \<open>The colour sub-encoders: Individual and Differential (lib/etc2/encode.go)\<close>

text \<open>
  \<^verbatim>\<open>float64\<close> values are modelled as rationals where every operation the code
  performs on them is exact in binary floating point or is followed by a truncation that
  rounding cannot change; that is the case throughout \<^verbatim>\<open>encodeRGBSansAlpha\<close>. The
  half-block averages are sums of eight bytes divided by 8, hence multiples of 1/8 in
  [0, 255]; their products with 31 or 15 are exact; the quotient by 255 is rounded, but
  it is a multiple of 1/2040 and so either an integer (then exact) or at least 1/2040
  away from one, while the rounding error is below \<open>2\<^sup>-\<^sup>4\<^sup>0\<close>: the truncation
  \<^verbatim>\<open>int32(...)\<close> gives the floor of the exact value. The deviations and the loss of
  \<^verbatim>\<open>reduceQuantize\<close> are sums and products of multiples of 1/8 with the integer
  weights, all exact. The \<^verbatim>\<open>int32\<close> losses are sums of at most sixteen terms of at
  most \<open>1000 * 255\<^sup>2\<close> and cannot wrap; they are modelled as \<open>int\<close>.
\<close>

type_synonym rgbf = "rat \<times> rat \<times> rat"
type_synonym rgbi = "int \<times> int \<times> int"

definition maxFloat64 :: rat where
  "maxFloat64 = 2 ^ 1023 * (1 + (1 - 1 / 2 ^ 52))"

definition weightValuesF64 :: "rat list" where
  "weightValuesF64 = [299, 587, 114]"

definition calculateRGBAverages :: "byte list \<Rightarrow> nat \<Rightarrow> rgbf" where
  "calculateRGBAverages pixels orientation =
     (let sums3 = foldl (\<lambda>(s0, s1, s2) i.
                          let offset = perOrientationPixelsOffsets ! orientation ! i
                          in (s0 + uint (pixels ! (offset + 0)),
                              s1 + uint (pixels ! (offset + 1)),
                              s2 + uint (pixels ! (offset + 2))))
                       (0, 0, 0) [0..<8]
      in case sums3 of (s0, s1, s2) \<Rightarrow> (of_int s0 / 8, of_int s1 / 8, of_int s2 / 8))"

text \<open>
  One pixel of \<^verbatim>\<open>encodeHalfBlock1\<close>: the index among \<^verbatim>\<open>scramble\<close> with the
  smallest weighted squared error, and that error.
  \<^verbatim>\<open>clamp[1023&(uint32(base[0])+modifiers[table][j])]\<close> adds in \<^verbatim>\<open>uint32\<close>, where
  a negative modifier wraps; the low ten bits are those of the integer sum.
\<close>

definition bestOne :: "rgbi \<Rightarrow> nat \<Rightarrow> int \<Rightarrow> int \<Rightarrow> int \<Rightarrow> nat \<times> int" where
  "bestOne base table orig0 orig1 orig2 =
     (case base of (base0, base1, base2) \<Rightarrow>
      foldl (\<lambda>(bestJ, bestOneLoss) j.
               let delta0 = int (clamp (nat (1023 AND (base0 + modifiers ! table ! j)))) - orig0;
                   delta1 = int (clamp (nat (1023 AND (base1 + modifiers ! table ! j)))) - orig1;
                   delta2 = int (clamp (nat (1023 AND (base2 + modifiers ! table ! j)))) - orig2;
                   oneLoss = 0 +
                     ((weightValuesI32 ! 0) * delta0 * delta0) +
                     ((weightValuesI32 ! 1) * delta1 * delta1) +
                     ((weightValuesI32 ! 2) * delta2 * delta2)
               in if bestOneLoss > oneLoss then (j, oneLoss) else (bestJ, bestOneLoss))
            (0, maxInt32) scramble)"

definition encodeHalfBlock1 :: "byte list \<Rightarrow> nat \<Rightarrow> rgbi \<Rightarrow> nat \<Rightarrow> 32 word \<times> int" where
  "encodeHalfBlock1 pixels orientation base table =
     foldl (\<lambda>(indexes, loss) i.
              let offset = perOrientationPixelsOffsets ! orientation ! i;
                  orig0 = uint (pixels ! (offset + 0));
                  orig1 = uint (pixels ! (offset + 1));
                  orig2 = uint (pixels ! (offset + 2));
                  best = bestOne base table orig0 orig1 orig2;
                  bestJ = (word_of_nat (fst best) :: 32 word);
                  shift = perOrientationShifts ! orientation ! i
              in ((indexes OR (push_bit (shift + 0x0F) (bestJ AND 2))) OR
                    (push_bit (shift + 0x00) (bestJ AND 1)),
                  loss + snd best))
           (0, 0) [0..<8]"

definition encodeHalfBlock :: "byte list \<Rightarrow> nat \<Rightarrow> rgbi \<Rightarrow> nat \<times> 32 word \<times> int" where
  "encodeHalfBlock pixels orientation base =
     foldl (\<lambda>(table, indexes, loss) t.
              case encodeHalfBlock1 pixels orientation base t of (indexes0, loss0) \<Rightarrow>
                if loss > loss0 then (t, indexes0, loss0) else (table, indexes, loss))
           (0, 0, maxInt32) [0..<8]"

definition expand5 :: "int \<Rightarrow> int" where
  "expand5 r = (push_bit 3 r) OR (drop_bit 2 r)"

definition expand4 :: "int \<Rightarrow> int" where
  "expand4 r = (push_bit 4 r) OR r"

definition reduceETC1SProduce5BitColor :: "rgbf \<Rightarrow> rgbf \<Rightarrow> rgbi" where
  "reduceETC1SProduce5BitColor rgbAvgs0 rgbAvgs1 =
     (case rgbAvgs0 of (a0, a1, a2) \<Rightarrow> case rgbAvgs1 of (b0, b1, b2) \<Rightarrow>
        let m0 = (a0 + b0) / 2;
            m1 = (a1 + b1) / 2;
            m2 = (a2 + b2) / 2;
            r = \<lfloor>((m0 * 31) / 255) + 1 / 2\<rfloor>;
            g = \<lfloor>((m1 * 31) / 255) + 1 / 2\<rfloor>;
            b = \<lfloor>((m2 * 31) / 255) + 1 / 2\<rfloor>
        in (expand5 r, expand5 g, expand5 b))"

definition reduceAverage :: "rgbf \<Rightarrow> bool \<Rightarrow> rgbi" where
  "reduceAverage rgbAvgs produce5BitColor =
     (case rgbAvgs of (a0, a1, a2) \<Rightarrow>
        if produce5BitColor then
          let r = \<lfloor>((a0 * 31) / 255) + 1 / 2\<rfloor>;
              g = \<lfloor>((a1 * 31) / 255) + 1 / 2\<rfloor>;
              b = \<lfloor>((a2 * 31) / 255) + 1 / 2\<rfloor>
          in (expand5 r, expand5 g, expand5 b)
        else
          let r = \<lfloor>((a0 * 15) / 255) + 1 / 2\<rfloor>;
              g = \<lfloor>((a1 * 15) / 255) + 1 / 2\<rfloor>;
              b = \<lfloor>((a2 * 15) / 255) + 1 / 2\<rfloor>
          in (expand4 r, expand4 g, expand4 b))"

text \<open>
  \<^verbatim>\<open>reduceQuantize\<close>: the two candidate values per channel (\<^verbatim>\<open>corners\<close>), and the
  loop over the eight corners, which keeps the first one of smallest loss.
\<close>

definition corners5 :: "rat \<Rightarrow> int \<times> int" where
  "corners5 a = (let lo = \<lfloor>(a * 31) / 255\<rfloor>; hi = min 31 (lo + 1) in (expand5 lo, expand5 hi))"

definition corners4 :: "rat \<Rightarrow> int \<times> int" where
  "corners4 a = (let lo = \<lfloor>(a * 15) / 255\<rfloor>; hi = min 15 (lo + 1) in (expand4 lo, expand4 hi))"

definition pick :: "'a \<times> 'a \<Rightarrow> nat \<Rightarrow> 'a" where
  "pick p i = (if i = 0 then fst p else snd p)"

definition reduceQuantize :: "rgbf \<Rightarrow> bool \<Rightarrow> rgbi" where
  "reduceQuantize rgbAvgs produce5BitColor =
     (case rgbAvgs of (a0, a1, a2) \<Rightarrow>
        let c0 = (if produce5BitColor then corners5 a0 else corners4 a0);
            c1 = (if produce5BitColor then corners5 a1 else corners4 a1);
            c2 = (if produce5BitColor then corners5 a2 else corners4 a2);
            d0 = (of_int (fst c0) - a0, of_int (snd c0) - a0);
            d1 = (of_int (fst c1) - a1, of_int (snd c1) - a1);
            d2 = (of_int (fst c2) - a2, of_int (snd c2) - a2)
        in snd (foldl (\<lambda>(bestLoss, ret) i.
                         let ir = (drop_bit 0 i) AND 1;
                             ig = (drop_bit 1 i) AND 1;
                             ib = (drop_bit 2 i) AND 1;
                             drg = pick d0 ir - pick d1 ig;
                             dgb = pick d1 ig - pick d2 ib;
                             dbr = pick d2 ib - pick d0 ir;
                             loss = 0 +
                               ((weightValuesF64 ! 0) * (weightValuesF64 ! 1) * drg * drg) +
                               ((weightValuesF64 ! 1) * (weightValuesF64 ! 2) * dgb * dgb) +
                               ((weightValuesF64 ! 2) * (weightValuesF64 ! 0) * dbr * dbr)
                         in if bestLoss > loss then (loss, (pick c0 ir, pick c1 ig, pick c2 ib))
                            else (bestLoss, ret))
                      (maxFloat64, (0, 0, 0)) [0..<8]))"

text \<open>
  The two codewords \<^verbatim>\<open>encodeRGBSansAlpha\<close> can assemble for one orientation, from
  the bases, the tables and the index bits of the two halves.
\<close>

definition packDifferential ::
  "rgbi \<Rightarrow> int \<Rightarrow> int \<Rightarrow> int \<Rightarrow> nat \<Rightarrow> nat \<Rightarrow> nat \<Rightarrow> 32 word \<Rightarrow> 32 word \<Rightarrow> 64 word" where
  "packDifferential base0 diff0 diff1 diff2 table0 table1 flipBit indexes0 indexes1 =
     (case base0 of (b00, b01, b02) \<Rightarrow>
        0 OR
        (push_bit (64 - 5) (word_of_int (drop_bit 3 b00))) OR
        (push_bit (59 - 3) (word_of_int (diff0 AND 7))) OR
        (push_bit (56 - 5) (word_of_int (drop_bit 3 b01))) OR
        (push_bit (51 - 3) (word_of_int (diff1 AND 7))) OR
        (push_bit (48 - 5) (word_of_int (drop_bit 3 b02))) OR
        (push_bit (43 - 3) (word_of_int (diff2 AND 7))) OR
        (push_bit (40 - 3) (word_of_nat table0)) OR
        (push_bit (37 - 3) (word_of_nat table1)) OR
        (push_bit (34 - 1) 1) OR
        (push_bit (33 - 1) (word_of_nat flipBit)) OR
        ucast indexes1 OR
        ucast indexes0)"

definition packIndividual ::
  "rgbi \<Rightarrow> rgbi \<Rightarrow> nat \<Rightarrow> nat \<Rightarrow> nat \<Rightarrow> 32 word \<Rightarrow> 32 word \<Rightarrow> 64 word" where
  "packIndividual base0 base1 table0 table1 flipBit indexes0 indexes1 =
     (case base0 of (b00, b01, b02) \<Rightarrow> case base1 of (b10, b11, b12) \<Rightarrow>
        0 OR
        (push_bit (64 - 4) (word_of_int (drop_bit 4 b00))) OR
        (push_bit (60 - 4) (word_of_int (drop_bit 4 b10))) OR
        (push_bit (56 - 4) (word_of_int (drop_bit 4 b01))) OR
        (push_bit (52 - 4) (word_of_int (drop_bit 4 b11))) OR
        (push_bit (48 - 4) (word_of_int (drop_bit 4 b02))) OR
        (push_bit (44 - 4) (word_of_int (drop_bit 4 b12))) OR
        (push_bit (40 - 3) (word_of_nat table0)) OR
        (push_bit (37 - 3) (word_of_nat table1)) OR
        (push_bit (34 - 1) 0) OR
        (push_bit (33 - 1) (word_of_nat flipBit)) OR
        ucast indexes1 OR
        ucast indexes0)"

text \<open>
  The body of \<^verbatim>\<open>for flipBit := range 2\<close> once the two 5-bit bases are known; the
  state is \<open>(bestCode, bestLoss)\<close>.
\<close>

definition flipBody ::
  "(rgbf \<Rightarrow> bool \<Rightarrow> rgbi) \<Rightarrow> byte list \<Rightarrow> nat \<Rightarrow> rgbf \<Rightarrow> rgbf \<Rightarrow> rgbi \<Rightarrow> rgbi
     \<Rightarrow> 64 word \<times> int \<Rightarrow> 64 word \<times> int" where
  "flipBody reduce pixels flipBit rgbAvgs0 rgbAvgs1 base0 base1 best =
     (case best of (bestCode, bestLoss) \<Rightarrow>
      case base0 of (b00, b01, b02) \<Rightarrow> case base1 of (b10, b11, b12) \<Rightarrow>
        let diff0 = (drop_bit 3 b10) - (drop_bit 3 b00);
            diff1 = (drop_bit 3 b11) - (drop_bit 3 b01);
            diff2 = (drop_bit 3 b12) - (drop_bit 3 b02)
        in
        if (- 4 \<le> diff0) \<and> (diff0 \<le> 3) \<and>
           (- 4 \<le> diff1) \<and> (diff1 \<le> 3) \<and>
           (- 4 \<le> diff2) \<and> (diff2 \<le> 3)
        then
          (case encodeHalfBlock pixels ((2 * flipBit) + 0) base0 of (table0, indexes0, loss0) \<Rightarrow>
           case encodeHalfBlock pixels ((2 * flipBit) + 1) base1 of (table1, indexes1, loss1) \<Rightarrow>
             let loss = loss0 + loss1
             in if bestLoss > loss
                then (packDifferential base0 diff0 diff1 diff2 table0 table1 flipBit indexes0 indexes1,
                      loss)
                else (bestCode, bestLoss))
        else
          let base0' = reduce rgbAvgs0 False;
              base1' = reduce rgbAvgs1 False
          in
          (case encodeHalfBlock pixels ((2 * flipBit) + 0) base0' of (table0, indexes0, loss0) \<Rightarrow>
           case encodeHalfBlock pixels ((2 * flipBit) + 1) base1' of (table1, indexes1, loss1) \<Rightarrow>
             let loss = loss0 + loss1
             in if bestLoss > loss
                then (packIndividual base0' base1' table0 table1 flipBit indexes0 indexes1, loss)
                else (bestCode, bestLoss)))"

text \<open>
  \<^verbatim>\<open>encodeRGBSansAlpha\<close>. For ETC1S the loop body runs for \<^verbatim>\<open>flipBit = 0\<close> with
  the single base of \<^verbatim>\<open>reduceETC1SProduce5BitColor\<close> and the loop is left
  (\<^verbatim>\<open>break\<close>) at \<^verbatim>\<open>flipBit = 1\<close>.
\<close>

definition flipStep ::
  "(rgbf \<Rightarrow> bool \<Rightarrow> rgbi) \<Rightarrow> bool \<Rightarrow> byte list \<Rightarrow> 64 word \<times> int \<Rightarrow> nat \<Rightarrow> 64 word \<times> int" where
  "flipStep reduce formatIsETC1S pixels best flipBit =
     (let rgbAvgs0 = calculateRGBAverages pixels ((2 * flipBit) + 0);
          rgbAvgs1 = calculateRGBAverages pixels ((2 * flipBit) + 1)
      in
      if \<not> formatIsETC1S then
        flipBody reduce pixels flipBit rgbAvgs0 rgbAvgs1
          (reduce rgbAvgs0 True) (reduce rgbAvgs1 True) best
      else if flipBit = 0 then
        (let base0 = reduceETC1SProduce5BitColor rgbAvgs0 rgbAvgs1
         in flipBody reduce pixels flipBit rgbAvgs0 rgbAvgs1 base0 base0 best)
      else best)"

definition encodeRGBSansAlpha :: "(rgbf \<Rightarrow> bool \<Rightarrow> rgbi) \<Rightarrow> bool \<Rightarrow> byte list \<Rightarrow> 64 word" where
  "encodeRGBSansAlpha reduce formatIsETC1S pixels =
     fst (foldl (flipStep reduce formatIsETC1S pixels) (0, maxInt32) [0..<2])"

section \<open>The colour sub-encoders: Planar, T and H (lib/etc2/encode.go)\<close>

text \<open>
  The three modes share the way they force the mode tag into the codeword. The source
  writes the two patches out at each use; here each is one function of the position of
  the channel's 3-bit difference field (\<open>lo\<close> is 56 for red, 48 for green, 40 for
  blue), for example for red
  \<^verbatim>\<open>a := (code >> 60) & 1; b := (code >> 59) & 1; c := (code >> 57) & 1; d := (code >> 56) & 1;\<close>
  \<^verbatim>\<open>if 0 != ((a & c) | (^a & b & c & d) | (a & b & ^c & d)) { code |= 7 << 61 } else { code |= 1 << 58 }\<close>
  and \<^verbatim>\<open>code |= (((code >> 62) & 1) ^ 1) << 63\<close>.
\<close>

definition ensureOverflow :: "nat \<Rightarrow> 64 word \<Rightarrow> 64 word" where
  "ensureOverflow lo code =
     (let a = (drop_bit (lo + 4) code) AND 1;
          b = (drop_bit (lo + 3) code) AND 1;
          c = (drop_bit (lo + 1) code) AND 1;
          d = (drop_bit lo code) AND 1
      in if 0 \<noteq> ((a AND c) OR (NOT a AND b AND c AND d) OR (a AND b AND NOT c AND d))
         then code OR (push_bit (lo + 5) 7)
         else code OR (push_bit (lo + 2) 1))"

definition ensureNoOverflow :: "nat \<Rightarrow> 64 word \<Rightarrow> 64 word" where
  "ensureNoOverflow lo code =
     code OR (push_bit (lo + 7) (((drop_bit (lo + 6) code) AND 1) XOR 1))"

text \<open>
  \<^verbatim>\<open>encodePlanar\<close>. The least-squares products \<^verbatim>\<open>d = z * b\<close>, \<^verbatim>\<open>x = c * d\<close>
  are inexact \<^verbatim>\<open>float64\<close> arithmetic (the entries of \<^verbatim>\<open>cMatrix\<close> are not binary
  fractions); their result, the three entries of \<^verbatim>\<open>xMatrix\<close> for one channel of a
  block, is the parameter \<open>planarFit\<close>. What follows it, the clamp to [0x00, 0xFF] and
  the quantisation to 6, 7 and 6 bits, is modelled on rationals; the rounding of the
  three operations of a quantisation cannot take a value from [0, 255] out of
  [0, 63] or [0, 127].
\<close>

definition quantize :: "rat \<Rightarrow> rat \<Rightarrow> int" where
  "quantize x levels = \<lfloor>(((max 0 (min 255 x)) * levels) / 255) + 1 / 2\<rfloor>"

definition packPlanar :: "int \<Rightarrow> int \<Rightarrow> int \<Rightarrow> int \<Rightarrow> int \<Rightarrow> int \<Rightarrow> int \<Rightarrow> int \<Rightarrow> int \<Rightarrow> 64 word" where
  "packPlanar colorOR6 colorOG7 colorOB6 colorHR6 colorHG7 colorHB6 colorVR6 colorVG7 colorVB6 =
     (let code = 0 OR
            (push_bit (63 - (6 + 0)) (word_of_int colorOR6)) OR
            (push_bit (57 - (1 + 6)) (word_of_int (colorOG7 AND 0x40))) OR
            (push_bit (55 - (6 + 0)) (word_of_int (colorOG7 AND 0x3F))) OR
            (push_bit (49 - (1 + 5)) (word_of_int (colorOB6 AND 0x20))) OR
            (push_bit (45 - (2 + 3)) (word_of_int (colorOB6 AND 0x18))) OR
            (push_bit (42 - (3 + 0)) (word_of_int (colorOB6 AND 0x07))) OR
            (push_bit (39 - (5 + 1)) (word_of_int (colorHR6 AND 0x3E))) OR
            (push_bit (33 - (1 + 0)) (word_of_int (colorHR6 AND 0x01))) OR
            (push_bit (32 - 7) (word_of_int colorHG7)) OR
            (push_bit (25 - 6) (word_of_int colorHB6)) OR
            (push_bit (19 - 6) (word_of_int colorVR6)) OR
            (push_bit (13 - 7) (word_of_int colorVG7)) OR
            (word_of_int colorVB6) OR
            (push_bit 33 1);
          code = ensureNoOverflow 56 code;
          code = ensureNoOverflow 48 code
      in ensureOverflow 40 code)"

definition encodePlanar :: "(byte list \<Rightarrow> nat \<Rightarrow> rat \<times> rat \<times> rat) \<Rightarrow> byte list \<Rightarrow> 64 word" where
  "encodePlanar planarFit pixels =
     (case planarFit pixels 0 of (xOR, xHR, xVR) \<Rightarrow>
      case planarFit pixels 1 of (xOG, xHG, xVG) \<Rightarrow>
      case planarFit pixels 2 of (xOB, xHB, xVB) \<Rightarrow>
        packPlanar
          (quantize xOR 0x3F) (quantize xOG 0x7F) (quantize xOB 0x3F)
          (quantize xHR 0x3F) (quantize xHG 0x7F) (quantize xHB 0x3F)
          (quantize xVR 0x3F) (quantize xVG 0x7F) (quantize xVB 0x3F))"

text \<open>
  T and H start from \<^verbatim>\<open>clusterfy\<close>, a k-means clustering in \<^verbatim>\<open>float64\<close> whose
  result is two 8-bit colours; it is the parameter \<open>clusterfy\<close>, applied to the block
  and the intensity (0, 1/2 or 1). A \<^verbatim>\<open>[2][3]uint8\<close> is a pair of triples.
\<close>

type_synonym rgb8 = "byte \<times> byte \<times> byte"
type_synonym cluster = "rgb8 \<times> rgb8"

definition convert8 :: "byte \<Rightarrow> byte" where
  "convert8 v = ucast ((((ucast v :: 32 word) + 8) * 15) div 255)"

definition convert8BitTo4Bit :: "cluster \<Rightarrow> cluster" where
  "convert8BitTo4Bit a =
     (case a of ((a00, a01, a02), (a10, a11, a12)) \<Rightarrow>
        ((convert8 a00, convert8 a01, convert8 a02), (convert8 a10, convert8 a11, convert8 a12)))"

definition swapCluster :: "cluster \<Rightarrow> cluster" where
  "swapCluster a = (snd a, fst a)"

definition weighted :: "byte list \<Rightarrow> nat \<Rightarrow> rgb8 \<Rightarrow> int" where
  "weighted pixels i color =
     (case color of (c0, c1, c2) \<Rightarrow>
        let delta0 = uint (pixels ! ((4 * i) + 0)) - uint c0;
            delta1 = uint (pixels ! ((4 * i) + 1)) - uint c1;
            delta2 = uint (pixels ! ((4 * i) + 2)) - uint c2
        in 0 +
           ((weightValuesI32 ! 0) * delta0 * delta0) +
           ((weightValuesI32 ! 1) * delta1 * delta1) +
           ((weightValuesI32 ! 2) * delta2 * delta2))"

definition clampAdd :: "byte \<Rightarrow> int \<Rightarrow> byte" where
  "clampAdd c delta = word_of_nat (clamp (nat (1023 AND (uint c + delta))))"

definition times17 :: "rgb8 \<Rightarrow> rgb8" where
  "times17 c = (case c of (c0, c1, c2) \<Rightarrow> (c0 * 0x11, c1 * 0x11, c2 * 0x11))"

definition shiftColor :: "rgb8 \<Rightarrow> int \<Rightarrow> rgb8" where
  "shiftColor c delta = (case c of (c0, c1, c2) \<Rightarrow> (clampAdd c0 delta, clampAdd c1 delta, clampAdd c2 delta))"

definition indexBits :: "nat \<Rightarrow> nat \<Rightarrow> 32 word" where
  "indexBits i bestJ =
     (let shift = wholeBlockShifts ! i
      in (push_bit (shift + 0x0F) ((word_of_nat bestJ) AND 2)) OR
         (push_bit (shift + 0x00) ((word_of_nat bestJ) AND 1)))"

text \<open>
  \<^verbatim>\<open>calculateError59T\<close>. The result is
  \<open>(bestSwap, bestWhich, bestPixelIndexes, bestBlockLoss)\<close>. The array argument is
  the function's own copy; its rows are exchanged when \<^verbatim>\<open>swap\<close> becomes 1.
\<close>

definition pixelT :: "byte list \<Rightarrow> bool \<Rightarrow> rgb8 list \<Rightarrow> nat \<Rightarrow> nat \<times> int" where
  "pixelT pixels formatIsOneBitAlpha colors i =
     (if formatIsOneBitAlpha \<and> (pixels ! ((4 * i) + 3) < 0x80) then (2, 0)
      else foldl (\<lambda>(bestJ, bestOneLoss) j.
                    if formatIsOneBitAlpha \<and> (j = 2) then (bestJ, bestOneLoss)
                    else let oneLoss = weighted pixels i (colors ! j)
                         in if bestOneLoss > oneLoss then (j, oneLoss) else (bestJ, bestOneLoss))
                 (0, maxInt32) [0..<4])"

definition blockT :: "byte list \<Rightarrow> bool \<Rightarrow> rgb8 list \<Rightarrow> 32 word \<times> int" where
  "blockT pixels formatIsOneBitAlpha colors =
     foldl (\<lambda>(pixelIndexes, blockLoss) i.
              case pixelT pixels formatIsOneBitAlpha colors i of (bestJ, bestOneLoss) \<Rightarrow>
                (pixelIndexes OR indexBits i bestJ, blockLoss + bestOneLoss))
           (0, 0) [0..<16]"

definition calculateError59T :: "byte list \<Rightarrow> cluster \<Rightarrow> bool \<Rightarrow> nat \<times> nat \<times> 32 word \<times> int" where
  "calculateError59T pixels rgb444 formatIsOneBitAlpha =
     snd (foldl (\<lambda>(rgb444, best) swap.
                   let rgb444 = (if swap > 0 then swapCluster rgb444 else rgb444);
                       color0 = times17 (fst rgb444);
                       color2 = times17 (snd rgb444)
                   in (rgb444,
                       foldl (\<lambda>(bestSwap, bestWhich, bestPixelIndexes, bestBlockLoss) which.
                                let delta = thModifiers ! which;
                                    colors = [color0, shiftColor color2 delta, color2,
                                              shiftColor color2 (- delta)]
                                in case blockT pixels formatIsOneBitAlpha colors of
                                     (pixelIndexes, blockLoss) \<Rightarrow>
                                       if bestBlockLoss > blockLoss
                                       then (swap, which, pixelIndexes, blockLoss)
                                       else (bestSwap, bestWhich, bestPixelIndexes, bestBlockLoss))
                             best [0..<8]))
                (rgb444, (0, 0, 0, maxInt32)) [0..<2])"

definition packT :: "cluster \<Rightarrow> nat \<Rightarrow> 32 word \<Rightarrow> bool \<Rightarrow> 64 word" where
  "packT bestCluster bestWhich bestPixelIndexes formatIsOneBitAlpha =
     (case bestCluster of ((c00, c01, c02), (c10, c11, c12)) \<Rightarrow>
        let code = 0 OR
              (push_bit 57 (ucast (c00 AND 0x0C))) OR
              (push_bit 56 (ucast (c00 AND 0x03))) OR
              (push_bit 52 (ucast c01)) OR
              (push_bit 48 (ucast c02)) OR
              (push_bit 44 (ucast c10)) OR
              (push_bit 40 (ucast c11)) OR
              (push_bit 36 (ucast c12)) OR
              (push_bit 33 (word_of_nat (bestWhich AND 0x06))) OR
              (push_bit 32 (word_of_nat (bestWhich AND 0x01))) OR
              ucast bestPixelIndexes;
            code = (if \<not> formatIsOneBitAlpha then code OR (push_bit 33 1) else code)
        in ensureOverflow 56 code)"

text \<open>
  The choice among one or three clusterings, shared by \<^verbatim>\<open>encodeT\<close> and
  \<^verbatim>\<open>encodeH\<close>: \<open>prepare\<close> is what is done to a clustering before it is scored
  (\<^verbatim>\<open>convert8BitTo4Bit\<close>, and for H \<^verbatim>\<open>sort4BitColors\<close> too) and \<open>score\<close> is
  \<^verbatim>\<open>calculateError59T\<close> or \<^verbatim>\<open>calculateError58H\<close>. Without \<^verbatim>\<open>goHarder\<close> the
  block loss is discarded and \<^verbatim>\<open>bestBlockLoss\<close> keeps its initial value.
\<close>

definition chooseCluster ::
  "(byte list \<Rightarrow> rat \<Rightarrow> cluster) \<Rightarrow> (cluster \<Rightarrow> cluster) \<Rightarrow>
   (cluster \<Rightarrow> nat \<times> nat \<times> 32 word \<times> int) \<Rightarrow> byte list \<Rightarrow> bool
     \<Rightarrow> (nat \<times> nat \<times> 32 word \<times> int) \<times> cluster" where
  "chooseCluster clusterfy prepare score pixels goHarder =
     (if goHarder then
        let cluster00 = prepare (clusterfy pixels 0);
            best = (score cluster00, cluster00);
            cluster05 = prepare (clusterfy pixels (1 / 2));
            r05 = score cluster05;
            best = (if snd (snd (snd (fst best))) > snd (snd (snd r05)) then (r05, cluster05) else best);
            cluster10 = prepare (clusterfy pixels 1);
            r10 = score cluster10;
            best = (if snd (snd (snd (fst best))) > snd (snd (snd r10)) then (r10, cluster10) else best)
        in best
      else
        let cluster05 = prepare (clusterfy pixels (1 / 2));
            r05 = score cluster05
        in ((fst r05, fst (snd r05), fst (snd (snd r05)), maxInt32), cluster05))"

definition encodeT :: "(byte list \<Rightarrow> rat \<Rightarrow> cluster) \<Rightarrow> byte list \<Rightarrow> bool \<Rightarrow> bool \<Rightarrow> 64 word" where
  "encodeT clusterfy pixels formatIsOneBitAlpha goHarder =
     (case chooseCluster clusterfy convert8BitTo4Bit
             (\<lambda>c. calculateError59T pixels c formatIsOneBitAlpha) pixels goHarder of
        ((bestSwap, bestWhich, bestPixelIndexes, bestBlockLoss), bestCluster) \<Rightarrow>
          let bestCluster = (if bestSwap > 0 then swapCluster bestCluster else bestCluster)
          in packT bestCluster bestWhich bestPixelIndexes formatIsOneBitAlpha)"

text \<open>\<^verbatim>\<open>calculateError58H\<close>; \<^verbatim>\<open>bestSwap\<close> is never assigned and stays 0.\<close>

definition packed444 :: "rgb8 \<Rightarrow> 32 word" where
  "packed444 c = (case c of (c0, c1, c2) \<Rightarrow> (push_bit 8 (ucast c0)) OR (push_bit 4 (ucast c1)) OR (ucast c2))"

definition pixelH :: "byte list \<Rightarrow> bool \<Rightarrow> int \<Rightarrow> rgb8 list \<Rightarrow> nat \<Rightarrow> nat \<times> int" where
  "pixelH pixels formatIsOneBitAlpha alphaIndex colors i =
     (let alpha = pixels ! ((4 * i) + 3)
      in foldl (\<lambda>(bestJ, bestOneLoss) j.
                  let oneLoss =
                        (if \<not> formatIsOneBitAlpha then weighted pixels i (colors ! j)
                         else if (int j = alphaIndex) \<and> (alpha \<ge> 0x80) then 0
                         else if (int j = alphaIndex) \<or> (alpha \<ge> 0x80) then maxInt32
                         else weighted pixels i (colors ! j))
                  in if bestOneLoss > oneLoss then (j, oneLoss) else (bestJ, bestOneLoss))
               (0, maxInt32) [0..<4])"

definition blockH :: "byte list \<Rightarrow> bool \<Rightarrow> int \<Rightarrow> rgb8 list \<Rightarrow> 32 word \<times> int" where
  "blockH pixels formatIsOneBitAlpha alphaIndex colors =
     foldl (\<lambda>(pixelIndexes, blockLoss) i.
              case pixelH pixels formatIsOneBitAlpha alphaIndex colors i of (bestJ, bestOneLoss) \<Rightarrow>
                (pixelIndexes OR indexBits i bestJ, blockLoss + bestOneLoss))
           (0, 0) [0..<16]"

definition calculateError58H :: "byte list \<Rightarrow> cluster \<Rightarrow> bool \<Rightarrow> nat \<times> nat \<times> 32 word \<times> int" where
  "calculateError58H pixels rgb444 formatIsOneBitAlpha =
     (let rgb444Packed0 = packed444 (fst rgb444);
          rgb444Packed1 = packed444 (snd rgb444);
          baseColors0 = times17 (fst rgb444);
          baseColors1 = times17 (snd rgb444)
      in foldl (\<lambda>(bestSwap, bestWhich, bestPixelIndexes, bestBlockLoss) which.
                  let alphaIndex =
                        (if formatIsOneBitAlpha
                         then (if (rgb444Packed0 \<ge> rgb444Packed1) \<noteq> ((which AND 1) = 1) then 0 else 2)
                         else - 1);
                      delta = thModifiers ! which;
                      colors = [shiftColor baseColors0 delta, shiftColor baseColors0 (- delta),
                                shiftColor baseColors1 delta, shiftColor baseColors1 (- delta)]
                  in case blockH pixels formatIsOneBitAlpha alphaIndex colors of
                       (pixelIndexes, blockLoss) \<Rightarrow>
                         if bestBlockLoss > blockLoss
                         then (bestSwap, which, pixelIndexes, blockLoss)
                         else (bestSwap, bestWhich, bestPixelIndexes, bestBlockLoss))
               (0, 0, 0, maxInt32) [0..<8])"

definition value444 :: "rgb8 \<Rightarrow> 32 word" where
  "value444 c = (case c of (c0, c1, c2) \<Rightarrow> (256 * ucast c0) + (16 * ucast c1) + ucast c2)"

definition unpack444 :: "32 word \<Rightarrow> rgb8" where
  "unpack444 c = (ucast (15 AND (drop_bit 8 c)), ucast (15 AND (drop_bit 4 c)), ucast (15 AND (drop_bit 0 c)))"

definition sort4BitColors :: "cluster \<Rightarrow> cluster" where
  "sort4BitColors a =
     (let c0 = value444 (fst a);
          c1 = value444 (snd a)
      in if c0 < c1 then a
         else if c0 > c1 then (unpack444 c1, unpack444 c0)
         else if c0 = 0 then (unpack444 c0, unpack444 (c0 + 1))
         else (unpack444 (c1 - 1), unpack444 c1))"

definition sort4BitColorsWithPixelIndexes :: "cluster \<Rightarrow> nat \<Rightarrow> 32 word \<Rightarrow> cluster \<times> 32 word" where
  "sort4BitColorsWithPixelIndexes a which pixelIndexes =
     (let c0 = value444 (fst a);
          c1 = value444 (snd a)
      in if (c0 \<ge> c1) = ((which AND 1) = 1) then (a, pixelIndexes)
         else ((unpack444 c1, unpack444 c0), 0xFFFF0000 XOR pixelIndexes))"

definition packH :: "cluster \<Rightarrow> nat \<Rightarrow> 32 word \<Rightarrow> bool \<Rightarrow> 64 word" where
  "packH bestCluster bestWhich bestPixelIndexes formatIsOneBitAlpha =
     (case bestCluster of ((c00, c01, c02), (c10, c11, c12)) \<Rightarrow>
        let code = 0 OR
              (push_bit 59 (ucast c00)) OR
              (push_bit 55 (ucast (c01 AND 0x0E))) OR
              (push_bit 52 (ucast (c01 AND 0x01))) OR
              (push_bit 48 (ucast (c02 AND 0x08))) OR
              (push_bit 47 (ucast (c02 AND 0x07))) OR
              (push_bit 43 (ucast c10)) OR
              (push_bit 39 (ucast c11)) OR
              (push_bit 35 (ucast c12)) OR
              (push_bit 32 (word_of_nat (bestWhich AND 0x04))) OR
              (push_bit 31 (word_of_nat (bestWhich AND 0x02))) OR
              ucast bestPixelIndexes;
            code = (if \<not> formatIsOneBitAlpha then code OR (push_bit 33 1) else code);
            code = ensureNoOverflow 56 code
        in ensureOverflow 48 code)"

definition encodeH :: "(byte list \<Rightarrow> rat \<Rightarrow> cluster) \<Rightarrow> byte list \<Rightarrow> bool \<Rightarrow> bool \<Rightarrow> 64 word" where
  "encodeH clusterfy pixels formatIsOneBitAlpha goHarder =
     (case chooseCluster clusterfy (\<lambda>c. sort4BitColors (convert8BitTo4Bit c))
             (\<lambda>c. calculateError58H pixels c formatIsOneBitAlpha) pixels goHarder of
        ((bestSwap, bestWhich, bestPixelIndexes, bestBlockLoss), bestCluster) \<Rightarrow>
          let bestCluster = (if bestSwap > 0 then swapCluster bestCluster else bestCluster)
          in case sort4BitColorsWithPixelIndexes bestCluster bestWhich bestPixelIndexes of
               (bestCluster, bestPixelIndexes) \<Rightarrow>
                 packH bestCluster bestWhich bestPixelIndexes formatIsOneBitAlpha)"

section \<open>The block encoder driver (lib/etc2/encode.go)\<close>

text \<open>
  The parts of the encoder that are not modelled, as parameters: the block decoder
  \<^verbatim>\<open>decodeColor\<close> (declared in decode.go), taken as the function from a codeword and
  the one-bit-alpha flag to the 64 bytes it writes to \<^verbatim>\<open>e.work\<close> (so it is assumed
  to write all of them, whatever was there); and the three pieces of \<^verbatim>\<open>float64\<close>
  code: \<^verbatim>\<open>clusterfy\<close>, the least-squares fit of \<^verbatim>\<open>encodePlanar\<close>, and
  \<^verbatim>\<open>encodeRGBWithAlpha\<close>, whose half-block means are weighted by 1 and 0.0001.
\<close>

record parts =
  decodeColor :: "64 word \<Rightarrow> bool \<Rightarrow> byte list"
  clusterfy :: "byte list \<Rightarrow> rat \<Rightarrow> cluster"
  planarFit :: "byte list \<Rightarrow> nat \<Rightarrow> rat \<times> rat \<times> rat"
  encodeRGBWithAlpha :: "byte list \<Rightarrow> bool \<Rightarrow> 64 word"

definition hasTransparentPixelsWhenUsingOneBitAlpha :: "byte list \<Rightarrow> bool" where
  "hasTransparentPixelsWhenUsingOneBitAlpha pixels =
     list_ex (\<lambda>i. pixels ! ((4 * i) + 3) < 0x80) [0..<16]"

definition calculateBlockLoss :: "byte list \<Rightarrow> byte list \<Rightarrow> bool \<Rightarrow> int" where
  "calculateBlockLoss pixels work formatIsOneBitAlpha =
     foldl (\<lambda>loss xy.
              let i = (16 * snd xy) + (4 * fst xy)
              in if formatIsOneBitAlpha \<and> (pixels ! (i + 3) < 0x80) then loss
                 else
                   let d0 = uint (pixels ! (i + 0)) - uint (work ! (i + 0));
                       d1 = uint (pixels ! (i + 1)) - uint (work ! (i + 1));
                       d2 = uint (pixels ! (i + 2)) - uint (work ! (i + 2))
                   in loss + (0 +
                        ((weightValuesI32 ! 0) * d0 * d0) +
                        ((weightValuesI32 ! 1) * d1 * d1) +
                        ((weightValuesI32 ! 2) * d2 * d2)))
           0 xyOrder"

text \<open>
  The loss of a codeword as the driver computes it:
  \<^verbatim>\<open>decodeColor(&e.work, code, flag); loss := e.calculateBlockLoss(formatIsOneBitAlpha)\<close>.
\<close>

definition decodedLoss :: "parts \<Rightarrow> byte list \<Rightarrow> bool \<Rightarrow> 64 word \<times> bool \<Rightarrow> int" where
  "decodedLoss P pixels formatIsOneBitAlpha cf =
     calculateBlockLoss pixels (decodeColor P (fst cf) (snd cf)) formatIsOneBitAlpha"

text \<open>
  The state of the driver is \<open>(bestCode, bestLoss, tried)\<close>; \<open>tried\<close> is not a
  variable of the source: it records, in order, every codeword the driver has decoded
  and scored, with the flag it passed to the decoder. \<open>first\<close> is the unconditional
  assignment \<^verbatim>\<open>bestCode, bestLoss = codeA, lossA\<close>, \<open>consider\<close> the pattern
  \<^verbatim>\<open>if bestLoss > lossX { bestCode, bestLoss = codeX, lossX }\<close>.
\<close>

type_synonym search = "64 word \<times> int \<times> (64 word \<times> bool) list"

definition first :: "parts \<Rightarrow> byte list \<Rightarrow> bool \<Rightarrow> 64 word \<times> bool \<Rightarrow> search" where
  "first P pixels formatIsOneBitAlpha cf =
     (fst cf, decodedLoss P pixels formatIsOneBitAlpha cf, [cf])"

definition consider' :: "parts \<Rightarrow> byte list \<Rightarrow> bool \<Rightarrow> 64 word \<times> bool \<Rightarrow> search \<Rightarrow> search" where
  "consider' P pixels formatIsOneBitAlpha cf st =
     (case st of (bestCode, bestLoss, tried) \<Rightarrow>
        let lossX = decodedLoss P pixels formatIsOneBitAlpha cf
        in if bestLoss > lossX then (fst cf, lossX, tried @ [cf])
           else (bestCode, bestLoss, tried @ [cf]))"

text \<open>
  The part of \<^verbatim>\<open>encodeColor\<close> after the format-specific candidates: Planar, T, H,
  and a second, harder run of whichever of T and H has just become the best.
\<close>

definition encodeColorTail :: "parts \<Rightarrow> byte list \<Rightarrow> bool \<Rightarrow> search \<Rightarrow> search" where
  "encodeColorTail P pixels formatIsOneBitAlpha st =
     (let st = consider' P pixels formatIsOneBitAlpha (encodePlanar (planarFit P) pixels, False) st;
          codeT = encodeT (clusterfy P) pixels False False;
          goHarderT = (fst (snd st) > decodedLoss P pixels formatIsOneBitAlpha (codeT, False));
          st = consider' P pixels formatIsOneBitAlpha (codeT, False) st;
          codeH = encodeH (clusterfy P) pixels False False;
          goHarderH = (fst (snd st) > decodedLoss P pixels formatIsOneBitAlpha (codeH, False));
          st = consider' P pixels formatIsOneBitAlpha (codeH, False) st
      in if goHarderH
         then consider' P pixels formatIsOneBitAlpha (encodeH (clusterfy P) pixels False True, False) st
         else if goHarderT
         then consider' P pixels formatIsOneBitAlpha (encodeT (clusterfy P) pixels False True, False) st
         else st)"

definition encodeColorSearch :: "parts \<Rightarrow> byte list \<Rightarrow> Format \<Rightarrow> search" where
  "encodeColorSearch P pixels f =
     (let formatIsOneBitAlpha = (f = FormatETC2RGBA1)
      in
      if formatIsOneBitAlpha then
        let st = first P pixels formatIsOneBitAlpha (encodeRGBWithAlpha P pixels True, True);
            st = consider' P pixels formatIsOneBitAlpha (encodeT (clusterfy P) pixels True False, True) st;
            st = consider' P pixels formatIsOneBitAlpha (encodeH (clusterfy P) pixels True False, True) st
        in if hasTransparentPixelsWhenUsingOneBitAlpha pixels then st
           else
             let st = consider' P pixels formatIsOneBitAlpha (encodeRGBWithAlpha P pixels False, True) st
             in encodeColorTail P pixels formatIsOneBitAlpha st
      else
        let st = first P pixels formatIsOneBitAlpha
                   (encodeRGBSansAlpha reduceAverage (f = FormatETC1S) pixels, False)
        in if f = FormatETC1S then st
           else
             let st = consider' P pixels formatIsOneBitAlpha
                        (encodeRGBSansAlpha reduceQuantize False pixels, False) st
             in if (f AND formatBitsETC2) \<noteq> formatBitsETC2 then st
                else encodeColorTail P pixels formatIsOneBitAlpha st)"

definition encodeColor :: "parts \<Rightarrow> byte list \<Rightarrow> Format \<Rightarrow> 64 word" where
  "encodeColor P pixels f = fst (encodeColorSearch P pixels f)"

section \<open>Encode (lib/etc2/encode.go)\<close>

definition encoderBufferSize :: nat where
  "encoderBufferSize = 4096 - 64 - 64"

text \<open>
  \<^verbatim>\<open>writeU64BE(e.buf[bufJ:], x)\<close>: eight bytes, big-endian, at offset \<open>bufJ\<close> of the
  buffer. Slicing eight bytes that the buffer does not have panics: \<open>None\<close>.
\<close>

definition writeU64BE :: "byte list \<Rightarrow> nat \<Rightarrow> 64 word \<Rightarrow> byte list option" where
  "writeU64BE buf bufJ x =
     (if bufJ + 8 \<le> length buf then
        Some (buf[bufJ + 0 := ucast (drop_bit 56 x),
                  bufJ + 1 := ucast (drop_bit 48 x),
                  bufJ + 2 := ucast (drop_bit 40 x),
                  bufJ + 3 := ucast (drop_bit 32 x),
                  bufJ + 4 := ucast (drop_bit 24 x),
                  bufJ + 5 := ucast (drop_bit 16 x),
                  bufJ + 6 := ucast (drop_bit 8 x),
                  bufJ + 7 := ucast (drop_bit 0 x)])
      else None)"

text \<open>
  The encoding of one extracted block into the buffer: the new buffer and the new
  \<^verbatim>\<open>bufJ\<close>.
\<close>

definition encodeBlock :: "parts \<Rightarrow> Format \<Rightarrow> byte list \<Rightarrow> byte list \<Rightarrow> nat \<Rightarrow> (byte list \<times> nat) option" where
  "encodeBlock P f pixels buf bufJ =
     (if (f AND formatBitDepth11) \<noteq> 0 then
        let signed' = ((f AND formatBitDepth11Signed) \<noteq> 0)
        in if (f AND formatBitDepth11TwoChannel) \<noteq> 0 then
             (case writeU64BE buf (bufJ + 0) (encode11 pixels 0x00 signed') of
                None \<Rightarrow> None
              | Some buf \<Rightarrow>
                  (case writeU64BE buf (bufJ + 8) (encode11 pixels 0x20 signed') of
                     None \<Rightarrow> None
                   | Some buf \<Rightarrow> Some (buf, bufJ + 16)))
           else
             (case writeU64BE buf (bufJ + 0) (encode11 pixels 0x00 signed') of
                None \<Rightarrow> None
              | Some buf \<Rightarrow> Some (buf, bufJ + 8))
      else if f = FormatETC2RGBA8 then
        (case writeU64BE buf (bufJ + 0) (encodeAlpha pixels) of
           None \<Rightarrow> None
         | Some buf \<Rightarrow>
             (case writeU64BE buf (bufJ + 8) (encodeColor P pixels f) of
                None \<Rightarrow> None
              | Some buf \<Rightarrow> Some (buf, bufJ + 16)))
      else
        (case writeU64BE buf bufJ (encodeColor P pixels f) of
           None \<Rightarrow> None
         | Some buf \<Rightarrow> Some (buf, bufJ + 8)))"

text \<open>
  The destination is an \<^verbatim>\<open>io.Writer\<close>: a state \<open>'s\<close> and its \<^verbatim>\<open>Write\<close>
  method, which takes a chunk and answers the new state and possibly an error of its
  own (a number; \<^verbatim>\<open>Encode\<close> returns it unchanged, here as \<open>SinkError\<close>).
  The encoder's state is \<^verbatim>\<open>e.pixels\<close>, \<^verbatim>\<open>e.buf\<close> and \<^verbatim>\<open>bufJ\<close>.
  The two nested loops over the block positions; the result is \<open>None\<close> for a panic,
  otherwise the error (if any), the encoder's state and the sink's.
\<close>

type_synonym 's Writer = "'s \<Rightarrow> byte list \<Rightarrow> nat option \<times> 's"

fun blocksLoop ::
  "parts \<Rightarrow> 's Writer \<Rightarrow> Image \<Rightarrow> Format \<Rightarrow> (int \<times> int) list \<Rightarrow> byte list \<Rightarrow> byte list \<Rightarrow> nat \<Rightarrow> 's
     \<Rightarrow> (error option \<times> (byte list \<times> byte list \<times> nat) \<times> 's) option" where
  "blocksLoop P wr src f [] pixels buf bufJ s = Some (None, (pixels, buf, bufJ), s)"
| "blocksLoop P wr src f (b # rest) pixels buf bufJ s =
     (let pixels = extract f src pixels (fst b) (snd b)
      in case encodeBlock P f pixels buf bufJ of
           None \<Rightarrow> None
         | Some (buf, bufJ) \<Rightarrow>
             if bufJ \<ge> encoderBufferSize then
               (case wr s buf of
                  (Some err, s) \<Rightarrow> Some (Some (SinkError err), (pixels, buf, bufJ), s)
                | (None, s) \<Rightarrow> blocksLoop P wr src f rest pixels buf 0 s)
             else blocksLoop P wr src f rest pixels buf bufJ s)"

text \<open>
  \<^verbatim>\<open>Encode(dst, src, f, options)\<close>; \<^verbatim>\<open>options\<close> is not used by the source. A
  \<^verbatim>\<open>nil\<close> destination or source is \<open>None\<close>. The result is \<open>None\<close> for a panic,
  otherwise the error returned (\<open>None\<close> for \<^verbatim>\<open>nil\<close>) and the destination as it is
  left.
\<close>

definition Encode ::
  "parts \<Rightarrow> 's Writer \<Rightarrow> 's option \<Rightarrow> Image option \<Rightarrow> Format \<Rightarrow> (error option \<times> 's option) option" where
  "Encode P wr dst src f =
     (if dst = None \<or> src = None \<or> ETCVersion f = 0 then Some (Some ErrBadArgument, dst)
      else
        let f = f AND NOT formatBitSRGBColorSpace;
            b = Bounds (the src);
            bW = Dx b;
            bH = Dy b
        in if bW > 65532 \<or> bH > 65532 then Some (Some ErrImageIsTooLarge, dst)
           else
             (case blocksLoop P wr (the src) f (blockPositions bW bH)
                     (replicate 64 0) (replicate encoderBufferSize 0) 0 (the dst) of
                None \<Rightarrow> None
              | Some (Some err, e, s) \<Rightarrow> Some (Some err, Some s)
              | Some (None, (pixels, buf, bufJ), s) \<Rightarrow>
                  if bufJ > 0 then
                    (case wr s (take bufJ buf) of
                       (Some err, s) \<Rightarrow> Some (Some (SinkError err), Some s)
                     | (None, s) \<Rightarrow> Some (None, Some s))
                  else Some (None, Some s)))"

text \<open>
  A sink that keeps, besides its own state, the list of the chunks passed to its
  \<^verbatim>\<open>Write\<close>, in order: for statements about the writes that \<^verbatim>\<open>Encode\<close> issues.
\<close>

definition logged :: "'s Writer \<Rightarrow> ('s \<times> byte list list) Writer" where
  "logged wr = (\<lambda>(s, log) chunk. case wr s chunk of (err, s') \<Rightarrow> (err, (s', log @ [chunk])))"

section \<open>pkm.Encode (package pkm)\<close>

definition PKMFormat :: "Format \<Rightarrow> byte" where
  "PKMFormat f =
     (if f = FormatETC1S \<or> f = FormatETC1 then 0x00
      else if f = FormatETC2RGB then 0x01
      else if f = FormatETC2RGBA1 then 0x04
      else if f = FormatETC2RGBA8 then 0x03
      else if f = FormatETC2SRGB then 0x09
      else if f = FormatETC2SRGBA1 then 0x0B
      else if f = FormatETC2SRGBA8 then 0x0A
      else if f = FormatETC2R11Unsigned then 0x05
      else if f = FormatETC2R11Signed then 0x07
      else if f = FormatETC2RG11Unsigned then 0x06
      else if f = FormatETC2RG11Signed then 0x08
      else 0)"

text \<open>
  \<^verbatim>\<open>pkm.Encode(w, src, options)\<close>, with \<open>optFormat\<close> the format of the options
  (\<open>None\<close> for \<^verbatim>\<open>nil\<close> options). It calls \<^verbatim>\<open>src.Bounds()\<close> and \<^verbatim>\<open>w.Write\<close>
  without a \<^verbatim>\<open>nil\<close> check, so a \<^verbatim>\<open>nil\<close> source or writer is a panic. Its two
  sentinel errors are the package's own, not those of package etc2.
\<close>

definition pkmEncode ::
  "parts \<Rightarrow> 's Writer \<Rightarrow> 's option \<Rightarrow> Image option \<Rightarrow> Format option \<Rightarrow> (error option \<times> 's option) option" where
  "pkmEncode P wr w src optFormat =
     (case src of
        None \<Rightarrow> None
      | Some img \<Rightarrow>
          let b = Bounds img;
              bW = Dx b;
              bH = Dy b
          in if bW > 65532 \<or> bH > 65532 then Some (Some PkmErrImageIsTooLarge, w)
             else
               let f = (case optFormat of
                          None \<Rightarrow> FormatETC2RGB
                        | Some g \<Rightarrow> if g \<noteq> 0 then g else FormatETC2RGB);
                   version = ETCVersion f
               in if version = 0 then Some (Some PkmErrBadArgument, w)
                  else
                    let roundedUpW = (bW + 3) AND NOT 3;
                        roundedUpH = (bH + 3) AND NOT 3;
                        buf = Magic @
                              [0x30 OR word_of_int version, 0x30, 0x00, PKMFormat f,
                               word_of_int (drop_bit 8 roundedUpW), word_of_int (drop_bit 0 roundedUpW),
                               word_of_int (drop_bit 8 roundedUpH), word_of_int (drop_bit 0 roundedUpH),
                               word_of_int (drop_bit 8 bW), word_of_int (drop_bit 0 bW),
                               word_of_int (drop_bit 8 bH), word_of_int (drop_bit 0 bH)]
                    in case w of
                         None \<Rightarrow> None
                       | Some s \<Rightarrow>
                           (case wr s buf of
                              (Some err, s) \<Rightarrow> Some (Some (SinkError err), Some s)
                            | (None, s) \<Rightarrow> Encode P wr (Some s) src f))"

section \<open>The byte stream of an image\<close>

text \<open>
  For the statements about what \<^verbatim>\<open>Encode\<close> writes: the number of bytes by which
  one block advances \<^verbatim>\<open>bufJ\<close>, the eight bytes of a codeword (most significant
  first), the bytes of one block, and the bytes of the blocks at the positions \<open>bs\<close>, one
  after the other, with \<^verbatim>\<open>e.pixels\<close> carried from each block to the next as the
  extractor leaves it.
\<close>

definition blockSize :: "Format \<Rightarrow> nat" where
  "blockSize f =
     (if (f AND formatBitDepth11) \<noteq> 0 then (if (f AND formatBitDepth11TwoChannel) \<noteq> 0 then 16 else 8)
      else if f = FormatETC2RGBA8 then 16 else 8)"

definition be64 :: "64 word \<Rightarrow> byte list" where
  "be64 x = [ucast (drop_bit 56 x), ucast (drop_bit 48 x), ucast (drop_bit 40 x), ucast (drop_bit 32 x),
             ucast (drop_bit 24 x), ucast (drop_bit 16 x), ucast (drop_bit 8 x), ucast (drop_bit 0 x)]"

definition blockCode :: "parts \<Rightarrow> Format \<Rightarrow> byte list \<Rightarrow> byte list" where
  "blockCode P f pixels =
     (if (f AND formatBitDepth11) \<noteq> 0 then
        (if (f AND formatBitDepth11TwoChannel) \<noteq> 0
         then be64 (encode11 pixels 0x00 ((f AND formatBitDepth11Signed) \<noteq> 0)) @
              be64 (encode11 pixels 0x20 ((f AND formatBitDepth11Signed) \<noteq> 0))
         else be64 (encode11 pixels 0x00 ((f AND formatBitDepth11Signed) \<noteq> 0)))
      else if f = FormatETC2RGBA8 then be64 (encodeAlpha pixels) @ be64 (encodeColor P pixels f)
      else be64 (encodeColor P pixels f))"

fun stream :: "parts \<Rightarrow> Image \<Rightarrow> Format \<Rightarrow> (int \<times> int) list \<Rightarrow> byte list \<Rightarrow> byte list" where
  "stream P src f [] pixels = []"
| "stream P src f (b # rest) pixels =
     (let pixels = extract f src pixels (fst b) (snd b)
      in blockCode P f pixels @ stream P src f rest pixels)"




text \<open>
  What the driver's search has established: the best code is the first of the tried
  candidates whose decoded loss is the least.
\<close>

definition inv1 :: "parts \<Rightarrow> byte list \<Rightarrow> bool \<Rightarrow> search \<Rightarrow> bool" where
  "inv1 P pixels ob st =
     (case st of (bestCode, bestLoss, tried) \<Rightarrow>
        (\<exists>k<length tried. fst (tried ! k) = bestCode \<and>
            decodedLoss P pixels ob (tried ! k) = bestLoss \<and>
            (\<forall>j<k. bestLoss < decodedLoss P pixels ob (tried ! j))) \<and>
        (\<forall>cf \<in> set tried. bestLoss \<le> decodedLoss P pixels ob cf))"

section \<open>PKM header: which streams are refused as not a PKM file\<close>

lemma u16be_plus: "u16be hi lo = push_bit 8 (ucast hi) + ucast lo"
  unfolding u16be_def
  by (rule disjunctive_add_eq_or [symmetric]) (auto simp add: bit_eq_iff bit_simps dest: bit_imp_le_length)

lemma unat_u16be: "unat (u16be hi lo) = unat hi * 256 + unat lo"
proof -
  have "unat hi < 256" "unat lo < 256" using unsigned_less[of hi] unsigned_less[of lo] by simp_all
  then show ?thesis
    unfolding u16be_plus
    by (simp add: unat_word_ariths push_bit_eq_mult unsigned_ucast_eq take_bit_eq_mod)
qed

lemma unat_u16be_less: "unat (u16be hi lo) < 65536"
proof -
  have "unat hi < 256" "unat lo < 256" using unsigned_less[of hi] unsigned_less[of lo] by simp_all
  then show ?thesis by (simp add: unat_u16be)
qed

lemma and_not_3: "(x :: 32 word) AND NOT 3 = push_bit 2 (drop_bit 2 x)"
proof -
  have m: "NOT (3 :: 32 word) = NOT (mask 2)" by (simp add: mask_eq_exp_minus_1)
  have "x AND NOT (mask 2) = push_bit 2 (drop_bit 2 x)"
  proof (rule bit_word_eqI)
    fix n assume "n < LENGTH(32)"
    show "bit (x AND NOT (mask 2)) n = bit (push_bit 2 (drop_bit 2 x)) n"
    proof (cases "2 \<le> n")
      case True
      then have "Suc (Suc (n - 2)) = n" by simp
      with True \<open>n < LENGTH(32)\<close> show ?thesis by (simp add: bit_simps)
    next
      case False
      then show ?thesis by (simp add: bit_simps)
    qed
  qed
  then show ?thesis unfolding m .
qed

lemma roundup4: 
  assumes "unat (w :: 32 word) < 65536" 
  shows "unat ((w + 3) AND NOT 3) = ((unat w + 3) div 4) * 4"
proof -
  have a: "unat (w + 3) = unat w + 3" using assms by (simp add: unat_word_ariths)
  have "unat (push_bit 2 (drop_bit 2 (w + 3))) = take_bit 32 (push_bit 2 (drop_bit 2 (unat (w + 3))))"
    by (simp only: unsigned_push_bit_eq unat_drop_bit_eq) simp
  also have "\<dots> = 4 * ((unat w + 3) div 4)"
    using assms by (simp add: a drop_bit_eq_div take_bit_eq_mod push_bit_eq_mult)
  finally show ?thesis unfolding and_not_3 by simp
qed

lemma roundup_check:
  "(((u16be a b + 3) AND NOT 3) \<noteq> u16be c d) =
   (unat c * 256 + unat d \<noteq> ((unat a * 256 + unat b + 3) div 4) * 4)"
proof -
  have "(((u16be a b + 3) AND NOT 3) = u16be c d) =
        (unat ((u16be a b + 3) AND NOT 3) = unat (u16be c d))"
    by (simp only: word_unat_eq_iff)
  also have "\<dots> = (((unat a * 256 + unat b + 3) div 4) * 4 = unat c * 256 + unat d)"
    by (simp only: roundup4 [OF unat_u16be_less] unat_u16be)
  finally show ?thesis by auto
qed

lemma roundup_check':
  "(((u16be a b + 3) AND - 4) = u16be c d) =
   (unat c * 256 + unat d = ((unat a * 256 + unat b + 3) div 4) * 4)"
  using roundup_check [of a b c d] by simp

lemma version_byte: "b = 0x31 \<or> b = 0x32 \<Longrightarrow> uint ((b :: byte) AND 0x03) = (if b = 0x31 then 1 else 2)"
  by auto

lemma format_lookup:
  "ETCVersion (if unat (b :: byte) < length pkmToETC2Formats then pkmToETC2Formats ! unat b else 0) =
     (if b = 0 then 1 else if b \<in> {1,3,4,5,6,7,8,9,10,11} then 2 else 0)"
proof (cases "unat b < 12")
  case True
  then consider "unat b = 0" | "unat b = 1" | "unat b = 2" | "unat b = 3" | "unat b = 4"
    | "unat b = 5" | "unat b = 6" | "unat b = 7" | "unat b = 8" | "unat b = 9"
    | "unat b = 10" | "unat b = 11" by atomize_elim arith
  then show ?thesis
    by cases (simp_all add: word_unat_eq_iff pkmToETC2Formats_def ETCVersion_def Format_defs formatBit_defs)
next
  case False
  then show ?thesis
    by (auto simp add: word_unat_eq_iff pkmToETC2Formats_def ETCVersion_def Format_defs formatBit_defs)
qed

lemma take4: "4 \<le> length r \<Longrightarrow> take 4 r = [r ! 0, r ! 1, r ! 2, r ! 3]"
proof -
  assume a: "4 \<le> length r"
  then obtain a r1 where r: "r = a # r1" by (cases r) auto
  with a obtain b r2 where r1: "r1 = b # r2" by (cases r1) auto
  with a r obtain c r3 where r2: "r2 = c # r3" by (cases r2) auto
  with a r r1 obtain d r4 where r3: "r3 = d # r4" by (cases r3) auto
  show ?thesis by (simp add: r r1 r2 r3)
qed

lemma decodeConfig_refuses:
  "(decodeConfig r = Inl ErrNotAPKMFile) =
     (16 \<le> length r \<and>
      (take 4 r \<noteq> [0x50, 0x4B, 0x4D, 0x20] \<or>
       r ! 5 \<noteq> 0x30 \<or>
       r ! 6 \<noteq> 0x00 \<or>
       (r ! 4 \<noteq> 0x31 \<and> r ! 4 \<noteq> 0x32) \<or>
       \<not> ((r ! 4 = 0x31 \<and> r ! 7 = 0x00) \<or>
           (r ! 4 = 0x32 \<and> r ! 7 \<in> {0x01, 0x03, 0x04, 0x05, 0x06, 0x07, 0x08, 0x09, 0x0A, 0x0B})) \<or>
       unat (r ! 8) * 256 + unat (r ! 9) \<noteq> ((unat (r ! 12) * 256 + unat (r ! 13) + 3) div 4) * 4 \<or>
       unat (r ! 10) * 256 + unat (r ! 11) \<noteq> ((unat (r ! 14) * 256 + unat (r ! 15) + 3) div 4) * 4))"
proof (cases "16 \<le> length r")
  case False
  then show ?thesis by (simp add: decodeConfig_def ReadFull16_def)
next
  case True
  then have t4: "take 4 r = [r ! 0, r ! 1, r ! 2, r ! 3]"
    by (simp add: take4)
  have n: "\<And>i. i < 16 \<Longrightarrow> take 16 r ! i = r ! i" by simp
  from True have ne: "r \<noteq> []" by auto
  show ?thesis
    using True ne
    by (auto simp add: decodeConfig_def ReadFull16_def Let_def Magic_def t4 n format_lookup
        version_byte roundup_check')
qed

text \<open>
  Claim C8. Once the sixteen header bytes have been read, \<^verbatim>\<open>decodeConfig\<close> returns
  \<^verbatim>\<open>ErrNotAPKMFile\<close> exactly when one of the six checks fails: the magic
  \<^verbatim>\<open>"PKM "\<close>, the byte \<^verbatim>\<open>0x30\<close> at offset 5, the zero byte at offset 6, a version
  byte \<^verbatim>\<open>0x31\<close> or \<^verbatim>\<open>0x32\<close> at offset 4, a format byte at offset 7 that names a
  format of the declared ETC version (format 0 for version 1; formats 1 and 3 to 11 for
  version 2), and padded dimensions equal to the original ones rounded up to a multiple
  of 4. A stream shorter than a header is answered with the reader's error instead.
  \<^verbatim>\<open>DecodeConfig\<close> returns that error in exactly the same cases, and so does
  \<^verbatim>\<open>Decode\<close>, whose only other errors are those of the block decoder (an error of
  package etc2 or of the reader, never \<^verbatim>\<open>ErrNotAPKMFile\<close>).
\<close>

theorem decodeConfig_ErrNotAPKMFile_iff:
  assumes "\<forall>f c rest. decodeBlocks f c rest \<noteq> Inl ErrNotAPKMFile"
  shows "((decodeConfig r = Inl ErrNotAPKMFile) =
     (16 \<le> length r \<and>
      (take 4 r \<noteq> [0x50, 0x4B, 0x4D, 0x20] \<or>
       r ! 5 \<noteq> 0x30 \<or>
       r ! 6 \<noteq> 0x00 \<or>
       (r ! 4 \<noteq> 0x31 \<and> r ! 4 \<noteq> 0x32) \<or>
       \<not> ((r ! 4 = 0x31 \<and> r ! 7 = 0x00) \<or>
           (r ! 4 = 0x32 \<and> r ! 7 \<in> {0x01, 0x03, 0x04, 0x05, 0x06, 0x07, 0x08, 0x09, 0x0A, 0x0B})) \<or>
       unat (r ! 8) * 256 + unat (r ! 9) \<noteq> ((unat (r ! 12) * 256 + unat (r ! 13) + 3) div 4) * 4 \<or>
       unat (r ! 10) * 256 + unat (r ! 11) \<noteq> ((unat (r ! 14) * 256 + unat (r ! 15) + 3) div 4) * 4))) \<and>
    ((DecodeConfig r = Inl ErrNotAPKMFile) = (decodeConfig r = Inl ErrNotAPKMFile)) \<and>
    ((Decode decodeBlocks r = Inl ErrNotAPKMFile) = (decodeConfig r = Inl ErrNotAPKMFile))"
proof (intro conjI)
  show "(DecodeConfig r = Inl ErrNotAPKMFile) = (decodeConfig r = Inl ErrNotAPKMFile)"
    unfolding DecodeConfig_def by (auto split: sum.splits)
  show "(Decode decodeBlocks r = Inl ErrNotAPKMFile) = (decodeConfig r = Inl ErrNotAPKMFile)"
    unfolding Decode_def using assms by (auto split: sum.splits)
qed (rule decodeConfig_refuses)

theorem decodeConfig_ErrNotAPKMFile_iff_witness:
  "decodeConfig [0x50, 0x4B, 0x4D, 0x20, 0x32, 0x30, 0x00, 0x01,
                 0x00, 0x18, 0x00, 0x20, 0x00, 0x15, 0x00, 0x20] \<noteq> Inl ErrNotAPKMFile \<and>
   decodeConfig [0x50, 0x4B, 0x4D, 0x20, 0x31, 0x30, 0x00, 0x01,
                 0x00, 0x18, 0x00, 0x20, 0x00, 0x15, 0x00, 0x20] = Inl ErrNotAPKMFile \<and>
   Decode (\<lambda>f c rest. Inr (cfgWidth c, cfgHeight c))
          [0x50, 0x4B, 0x4D, 0x20, 0x31, 0x30, 0x00, 0x01,
           0x00, 0x18, 0x00, 0x20, 0x00, 0x15, 0x00, 0x20] = Inl ErrNotAPKMFile"
  using
    decodeConfig_ErrNotAPKMFile_iff [of "\<lambda>f c rest. Inr (cfgWidth c, cfgHeight c)"
      "[0x50, 0x4B, 0x4D, 0x20, 0x32, 0x30, 0x00, 0x01,
        0x00, 0x18, 0x00, 0x20, 0x00, 0x15, 0x00, 0x20]"]
    decodeConfig_ErrNotAPKMFile_iff [of "\<lambda>f c rest. Inr (cfgWidth c, cfgHeight c)"
      "[0x50, 0x4B, 0x4D, 0x20, 0x31, 0x30, 0x00, 0x01,
        0x00, 0x18, 0x00, 0x20, 0x00, 0x15, 0x00, 0x20]"]
    decodeConfig_ErrNotAPKMFile_iff [of "\<lambda>f c rest. Inr (cfgWidth c, cfgHeight c)"
      "[0x50, 0x4B, 0x4D, 0x20, 0x31, 0x30, 0x00, 0x01,
        0x00, 0x18, 0x00, 0x20, 0x00, 0x15, 0x00, 0x20]"]
  by simp

section \<open>The extractor: luma of the single-channel formats\<close>

lemma unat_gray16:
  assumes "unat r < 2 ^ 32" "unat g < 2 ^ 32" "unat b < 2 ^ 32"
  shows "unat (gray16 r g b) =
           (500000 + 212656 * unat r + 715158 * unat g + 72186 * unat b) div 1000000"
proof -
  have r: "unat (r * grayR) = unat r * 212656"
    using assms(1) by (simp add: unat_word_ariths grayR_def)
  have g: "unat (g * grayG) = unat g * 715158"
    using assms(2) by (simp add: unat_word_ariths grayG_def)
  have b: "unat (b * grayB) = unat b * 72186"
    using assms(3) by (simp add: unat_word_ariths grayB_def)
  have h: "unat (graySum div 2) = 500000" by (simp add: graySum_def)
  have s1: "unat ((graySum div 2) + (r * grayR)) = 500000 + unat r * 212656"
    using assms(1) by (subst unat_word_ariths(1)) (simp add: r h)
  have s2: "unat ((graySum div 2) + (r * grayR) + (g * grayG)) = 500000 + unat r * 212656 + unat g * 715158"
    using assms by (subst unat_word_ariths(1)) (simp add: s1 g)
  have s3: "unat ((graySum div 2) + (r * grayR) + (g * grayG) + (b * grayB)) =
     500000 + unat r * 212656 + unat g * 715158 + unat b * 72186"
    using assms by (subst unat_word_ariths(1)) (simp add: s2 b)
  have "unat graySum = 1000000" by (simp add: graySum_def)
  then have "unat (gray16 r g b) =
      (500000 + unat r * 212656 + unat g * 715158 + unat b * 72186) div 1000000"
    unfolding gray16_def by (simp only: unat_div s3)
  then show ?thesis by (simp add: mult.commute)
qed

lemma be16_bytes:
  "unat (ucast (drop_bit 8 (w :: 64 word)) :: byte) * 256 + unat (ucast w :: byte) = unat w mod 65536"
proof -
  have a: "unat (ucast w :: byte) = unat w mod 256"
    by (simp add: unsigned_ucast_eq take_bit_eq_mod)
  have "unat (ucast (drop_bit 8 w) :: byte) = take_bit 8 (drop_bit 8 (unat w))"
    by (simp only: unsigned_ucast_eq unat_drop_bit_eq) simp
  then have b: "unat (ucast (drop_bit 8 w) :: byte) = (unat w div 256) mod 256"
    by (simp add: take_bit_eq_mod drop_bit_eq_div)
  have "unat w mod (256 * 256) = 256 * (unat w div 256 mod 256) + unat w mod 256"
    by (rule mod_mult2_eq)
  then show ?thesis unfolding a b by simp
qed

lemma window_explicit:
  "window = [(0,0),(0,1),(0,2),(0,3),(1,0),(1,1),(1,2),(1,3),
             (2,0),(2,1),(2,2),(2,3),(3,0),(3,1),(3,2),(3,3)]"
  by (simp add: window_def upt_rec)

lemma less4_cases: "(n :: nat) < 4 \<Longrightarrow> n = 0 \<or> n = 1 \<or> n = 2 \<or> n = 3"
  by arith

lemma fold_window11:
  assumes len: "length pixels = 64" and x: "x < 4" and y: "y < 4"
    and v: "\<And>yx. v yx = [(0, h yx), (1, l yx)]"
  shows "foldl (\<lambda>pixels yx. foldl (store ((8 * fst yx) + (2 * snd yx))) pixels (v yx)) pixels window
            ! (8 * y + 2 * x) = h (y, x) \<and>
         foldl (\<lambda>pixels yx. foldl (store ((8 * fst yx) + (2 * snd yx))) pixels (v yx)) pixels window
            ! (8 * y + 2 * x + 1) = l (y, x)"
  using less4_cases [OF x] less4_cases [OF y] len
  by (elim disjE) (simp_all add: window_explicit v store_def)

lemma stores11_single:
  "stores11 src False X Y =
     (case channels16 src X Y of (r, g, b) \<Rightarrow>
        [(0, ucast (drop_bit 8 (gray16 r g b))), (1, ucast (gray16 r g b))])"
  by (cases src) (simp_all add: Let_def split: prod.splits)

lemma unat_ucast_8_64: "unat (ucast (c :: byte) * 0x101 :: 64 word) = unat c * 257"
proof -
  have "unat c < 256" using unsigned_less [of c] by simp
  then show ?thesis
    by (simp add: unat_word_ariths unsigned_ucast_eq take_bit_eq_mod)
qed

lemma unat_ucast_16_64: "unat (ucast (c :: 16 word) :: 64 word) < 65536"
proof -
  have "unat c < 65536" using unsigned_less [of c] by simp
  then show ?thesis by (simp add: unsigned_ucast_eq take_bit_eq_mod)
qed

lemma unat_ucast_32_64: "unat (ucast (c :: 32 word) :: 64 word) < 2 ^ 32"
proof -
  have "unat c < 2 ^ 32" using unsigned_less [of c] by simp
  then show ?thesis by (simp add: unsigned_ucast_eq take_bit_eq_mod)
qed

lemma channels16_bound:
  "channels16 src X Y = (r, g, b) \<Longrightarrow> unat r < 2 ^ 32 \<and> unat g < 2 ^ 32 \<and> unat b < 2 ^ 32"
proof (cases src)
  case (ImageNRGBA rect pix)
  assume "channels16 src X Y = (r, g, b)"
  with ImageNRGBA obtain cR cG cB :: byte where
    "r = ucast cR * 0x101" "g = ucast cG * 0x101" "b = ucast cB * 0x101"
    by (auto split: prod.splits)
  moreover have "\<And>c :: byte. unat c * 257 < 2 ^ 32"
  proof -
    fix c :: byte
    have "unat c < 256" using unsigned_less [of c] by simp
    then show "unat c * 257 < 2 ^ 32" by simp
  qed
  ultimately show ?thesis by (simp only: unat_ucast_8_64) 
next
  case (ImageNRGBA64 rect pix)
  assume "channels16 src X Y = (r, g, b)"
  with ImageNRGBA64 obtain cR cG cB :: "16 word" where
    "r = ucast cR" "g = ucast cG" "b = ucast cB"
    by (auto split: prod.splits)
  then show ?thesis
    using unat_ucast_16_64 [of cR] unat_ucast_16_64 [of cG] unat_ucast_16_64 [of cB] by simp
next
  case (ImageRGBA64 rect pix)
  assume "channels16 src X Y = (r, g, b)"
  with ImageRGBA64 obtain cR cG cB :: "16 word" where
    "r = ucast cR" "g = ucast cG" "b = ucast cB"
    by (auto simp add: Let_def split: prod.splits if_splits)
  then show ?thesis
    using unat_ucast_16_64 [of cR] unat_ucast_16_64 [of cG] unat_ucast_16_64 [of cB] by simp
next
  case (ImageOther rect pix)
  assume "channels16 src X Y = (r, g, b)"
  with ImageOther obtain cR cG cB :: "32 word" where
    "r = ucast cR" "g = ucast cG" "b = ucast cB"
    by (auto simp add: Let_def split: prod.splits if_splits)
  then show ?thesis
    using unat_ucast_32_64 [of cR] unat_ucast_32_64 [of cG] unat_ucast_32_64 [of cB] by simp
qed

lemma channels16_16bit:
  assumes "channels16 src X Y = (r, g, b)" and "\<forall>rect pix. src \<noteq> ImageOther rect pix"
  shows "unat r \<le> 65535 \<and> unat g \<le> 65535 \<and> unat b \<le> 65535"
proof (cases src)
  case (ImageNRGBA rect pix)
  with assms(1) obtain cR cG cB :: byte where
    "r = ucast cR * 0x101" "g = ucast cG * 0x101" "b = ucast cB * 0x101"
    by (auto split: prod.splits)
  moreover have "\<And>c :: byte. unat c * 257 \<le> 65535"
  proof -
    fix c :: byte
    have "unat c < 256" using unsigned_less [of c] by simp
    then show "unat c * 257 \<le> 65535" by simp
  qed
  ultimately show ?thesis by (simp only: unat_ucast_8_64)
next
  case (ImageNRGBA64 rect pix)
  with assms(1) obtain cR cG cB :: "16 word" where
    "r = ucast cR" "g = ucast cG" "b = ucast cB"
    by (auto split: prod.splits)
  then show ?thesis
    using unat_ucast_16_64 [of cR] unat_ucast_16_64 [of cG] unat_ucast_16_64 [of cB] by simp
next
  case (ImageRGBA64 rect pix)
  with assms(1) obtain cR cG cB :: "16 word" where
    "r = ucast cR" "g = ucast cG" "b = ucast cB"
    by (auto simp add: Let_def split: prod.splits if_splits)
  then show ?thesis
    using unat_ucast_16_64 [of cR] unat_ucast_16_64 [of cG] unat_ucast_16_64 [of cB] by simp
next
  case (ImageOther rect pix)
  with assms(2) show ?thesis by simp
qed

text \<open>
  Claim C6. For a single-channel 11-bit format, the two bytes that the extractor stores
  at offsets \<open>8y + 2x\<close> and \<open>8y + 2x + 1\<close> of the block are, big-endian, the 16-bit
  value \<open>(500000 + 212656 R + 715158 G + 72186 B) div 1000000\<close>, where \<open>R\<close>, \<open>G\<close>,
  \<open>B\<close> are the 16-bit channel values of the source pixel read for \<open>(x, y)\<close>. The
  value is below 65536 whenever the channels are, and they are by their type for the
  three typed sources; a source of the fourth kind that answers a channel above its alpha
  has the low 16 bits stored.
\<close>

theorem extract_gray_BT709:
  assumes f: "(f AND formatBitDepth11) \<noteq> 0" "(f AND formatBitDepth11TwoChannel) = 0"
    and len: "length pixels = 64" and x: "x < 4" and y: "y < 4"
    and p: "readPoint src blockX blockY (y, x) = (X, Y)"
    and c: "channels16 src X Y = (R, G, B)"
  shows "unat (extract f src pixels blockX blockY ! (8 * y + 2 * x)) * 256 +
         unat (extract f src pixels blockX blockY ! (8 * y + 2 * x + 1)) =
           ((500000 + 212656 * unat R + 715158 * unat G + 72186 * unat B) div 1000000) mod 65536
         \<and> (unat R \<le> 65535 \<and> unat G \<le> 65535 \<and> unat B \<le> 65535 \<longrightarrow>
             (500000 + 212656 * unat R + 715158 * unat G + 72186 * unat B) div 1000000 \<le> 65535)
         \<and> ((\<forall>rect pix. src \<noteq> ImageOther rect pix) \<longrightarrow>
             unat R \<le> 65535 \<and> unat G \<le> 65535 \<and> unat B \<le> 65535)"
proof (intro conjI)
  let ?v = "\<lambda>yx. stores11 src False (fst (readPoint src blockX blockY yx)) (snd (readPoint src blockX blockY yx))"
  let ?g = "\<lambda>yx. case channels16 src (fst (readPoint src blockX blockY yx)) (snd (readPoint src blockX blockY yx))
                   of (r, g, b) \<Rightarrow> gray16 r g b"
  have v: "\<And>yx. ?v yx = [(0, ucast (drop_bit 8 (?g yx))), (1, ucast (?g yx))]"
    by (simp add: stores11_single split: prod.splits)
  have e: "extract f src pixels blockX blockY =
      foldl (\<lambda>pixels yx. foldl (store ((8 * fst yx) + (2 * snd yx))) pixels (?v yx)) pixels window"
    using f by (simp add: extract_def Let_def)
  have g: "?g (y, x) = gray16 R G B" by (simp add: p c)
  from fold_window11 [of pixels x y ?v "\<lambda>yx. ucast (drop_bit 8 (?g yx))" "\<lambda>yx. ucast (?g yx)", OF len x y v]
  have "extract f src pixels blockX blockY ! (8 * y + 2 * x) = ucast (drop_bit 8 (gray16 R G B))"
    and "extract f src pixels blockX blockY ! (8 * y + 2 * x + 1) = ucast (gray16 R G B)"
    unfolding e g by simp_all
  then show "unat (extract f src pixels blockX blockY ! (8 * y + 2 * x)) * 256 +
         unat (extract f src pixels blockX blockY ! (8 * y + 2 * x + 1)) =
           ((500000 + 212656 * unat R + 715158 * unat G + 72186 * unat B) div 1000000) mod 65536"
    using channels16_bound [OF c] by (simp only: be16_bytes unat_gray16)
  show "unat R \<le> 65535 \<and> unat G \<le> 65535 \<and> unat B \<le> 65535 \<longrightarrow>
             (500000 + 212656 * unat R + 715158 * unat G + 72186 * unat B) div 1000000 \<le> 65535"
    by auto
  show "(\<forall>rect pix. src \<noteq> ImageOther rect pix) \<longrightarrow>
             unat R \<le> 65535 \<and> unat G \<le> 65535 \<and> unat B \<le> 65535"
    using channels16_16bit [OF c] by simp
qed

theorem extract_gray_BT709_witness:
  "unat (extract FormatETC2R11Unsigned
           (ImageNRGBA \<lparr>MinX = 0, MinY = 0, MaxX = 4, MaxY = 4\<rparr> (\<lambda>x y. (0xFF, 0x80, 0x00, 0xFF)))
           (replicate 64 0) 0 0 ! 20) * 256 +
   unat (extract FormatETC2R11Unsigned
           (ImageNRGBA \<lparr>MinX = 0, MinY = 0, MaxX = 4, MaxY = 4\<rparr> (\<lambda>x y. (0xFF, 0x80, 0x00, 0xFF)))
           (replicate 64 0) 0 0 ! 21) = 37462"
  using extract_gray_BT709 [of FormatETC2R11Unsigned "replicate 64 0" 2 2
      "ImageNRGBA \<lparr>MinX = 0, MinY = 0, MaxX = 4, MaxY = 4\<rparr> (\<lambda>x y. (0xFF, 0x80, 0x00, 0xFF))"
      0 0 2 2 "0xFF * 0x101" "0x80 * 0x101" "0x00 * 0x101"]
  by (simp add: FormatETC2R11Unsigned_def formatBit_defs readPoint_def NRGBAAt_def In_def)

section \<open>The extractor: which points of the source are read\<close>

lemma steps4_iff: "b \<in> set (steps4 n) \<longleftrightarrow> (\<exists>k. b = 4 * int k \<and> 4 * int k < n)"
proof -
  have "\<And>k. (k < nat ((n + 3) div 4)) = (4 * int k < n)" by auto
  then show ?thesis by (auto simp add: steps4_def image_iff)
qed

lemma window_set: "yx \<in> set window \<longleftrightarrow> fst yx < 4 \<and> snd yx < 4"
  by (cases yx) (auto simp add: window_def image_iff)

lemma readsOfEncode_origin:
  assumes "MinX (Bounds src) = 0" "MinY (Bounds src) = 0"
    and "p \<in> set (readsOfEncode src)"
  shows "In p (Bounds src)"
proof -
  from assms(3) obtain blockX blockY yx where
    b: "(blockX, blockY) \<in> set (blockPositions (Dx (Bounds src)) (Dy (Bounds src)))"
    and w: "yx \<in> set window" and p: "p = readPoint src blockX blockY yx"
    by (auto simp add: readsOfEncode_def)
  from b have "blockX \<in> set (steps4 (Dx (Bounds src)))" "blockY \<in> set (steps4 (Dy (Bounds src)))"
    by (auto simp add: blockPositions_def)
  then have "0 \<le> blockX" "blockX < MaxX (Bounds src)" "0 \<le> blockY" "blockY < MaxY (Bounds src)"
    using assms(1,2) by (auto simp add: steps4_iff Dx_def Dy_def)
  then show ?thesis
    using assms(1,2) by (auto simp add: p readPoint_def In_def Let_def)
qed

text \<open>
  Claim C4 says that no read falls outside the source's rectangle, also when the rectangle
  does not start at the origin. \<^verbatim>\<open>Encode\<close> counts its block positions from 0 up to
  the rectangle's width and height and never adds the rectangle's \<^verbatim>\<open>Min\<close>, so for
  the 4x4 image with bounds (4,4)-(8,8) all sixteen reads are at the points (0,0) to (3,3),
  outside the rectangle; \<^verbatim>\<open>NRGBAAt\<close> answers the zero colour there and the block
  extracted from an all-0xFF image is all zero. For a rectangle that starts at the origin
  every read is inside (lemma \<open>readsOfEncode_origin\<close>).
\<close>

theorem readsOfEncode_outside_bounds:
  "readsOfEncode (ImageNRGBA \<lparr>MinX = 4, MinY = 4, MaxX = 8, MaxY = 8\<rparr> (\<lambda>x y. (0xFF, 0xFF, 0xFF, 0xFF))) =
     [(0, 0), (1, 0), (2, 0), (3, 0), (0, 1), (1, 1), (2, 1), (3, 1),
      (0, 2), (1, 2), (2, 2), (3, 2), (0, 3), (1, 3), (2, 3), (3, 3)] \<and>
   \<not> In (0, 0) \<lparr>MinX = 4, MinY = 4, MaxX = 8, MaxY = 8\<rparr> \<and>
   extract FormatETC2RGB
     (ImageNRGBA \<lparr>MinX = 4, MinY = 4, MaxX = 8, MaxY = 8\<rparr> (\<lambda>x y. (0xFF, 0xFF, 0xFF, 0xFF)))
     (replicate 64 0xAA) 0 0 = replicate 64 0x00"
  by (simp add: readsOfEncode_def blockPositions_def steps4_def Dx_def Dy_def window_explicit
      readPoint_def In_def extract_def FormatETC2RGB_def formatBit_defs NRGBAAt_def store_def
      numeral_eq_Suc)

section \<open>The EAC 11-bit search finds a combination of minimal loss\<close>



lemma sum_list_upt: "sum_list (map f [0..<n]) = (\<Sum>i<n. f i)"
  by (induction n) simp_all


















lemma upt_0_16: "[0..<16] = [0, 1, 2, 3, 4, 5, 6, 7, 8, 9, 10, 11, 12, 13, 14, 15 :: nat]"
  by (simp add: upt_rec)




























section \<open>The alpha codeword of a block whose sixteen alphas are 255\<close>

lemma xyOrder_list:
  "xyOrder = [(0,0),(0,1),(0,2),(0,3),(1,0),(1,1),(1,2),(1,3),(2,0),(2,1),(2,2),(2,3),(3,0),(3,1),(3,2),(3,3)]"
  by (simp add: xyOrder_def upt_rec)

lemma adjustAlpha_table0:
  "0 \<le> r \<Longrightarrow> r \<le> 255 \<Longrightarrow> adjustAlpha r 0 index = r"
proof -
  assume a: "0 \<le> r" "r \<le> 255"
  have "1023 AND r = r"
  proof -
    have "r = take_bit 10 r" using a by (simp add: take_bit_int_eq_self)
    moreover have "(1023::int) = mask 10" by (simp add: mask_eq_exp_minus_1)
    ultimately show ?thesis by (metis and.commute take_bit_eq_mask)
  qed
  moreover have "nat r < 256" using a by simp
  ultimately show ?thesis using a by (simp add: adjustAlpha_def Let_def clamp_def)
qed

lemma pixelBestDiff_table0:
  assumes "0 \<le> alpha" "alpha \<le> 255"
  shows "pixelBestDiff alpha 0 255 = (alpha - 255) * (alpha - 255)"
proof -
  have b: "(alpha - 255) * (alpha - 255) \<le> 65025"
  proof -
    have "(255 - alpha) * (255 - alpha) \<le> 255 * 255" using assms by (intro mult_mono) auto
    thus ?thesis by (simp add: algebra_simps)
  qed
  show ?thesis using assms b
    by (simp add: pixelBestDiff_def adjustAlpha_table0 maxInt32_def Let_def)
qed

lemma upto_0_10: "[0..10::int] = [0, 1, 2, 3, 4, 5, 6, 7, 8, 9, 10]"
  by (simp add: upto_rec1)


lemma alphaLoop_16:
  assumes A: "\<And>i. i < 16 \<Longrightarrow> alphaAt pixels i = 255"
  shows "alphaLoop pixels 0 16 255 191 (maxInt32, 255, maxInt32, 0, 0) = (0, 255, 0, 0, 255)"
  by (simp add: alphaLoop.simps xyOrder_list pixelBestDiff_table0 A maxInt32_def Let_def)

lemma alphaLoop_4:
  assumes A: "\<And>i. i < 16 \<Longrightarrow> alphaAt pixels i = 255"
  shows "alphaLoop pixels 0 4 255 247 (0, 255, 0, 0, 255) = (0, 255, 0, 0, 255)"
  by (simp add: alphaLoop.simps xyOrder_list pixelBestDiff_table0 A Let_def)

lemma alphaLoop_1:
  assumes A: "\<And>i. i < 16 \<Longrightarrow> alphaAt pixels i = 255"
  shows "alphaLoop pixels 0 1 255 253 (0, 255, 0, 0, 255) = (0, 255, 0, 0, 255)"
  by (simp add: alphaLoop.simps xyOrder_list pixelBestDiff_table0 A Let_def)

lemma scaleLoop_opaque:
  assumes A: "\<And>i. i < 16 \<Longrightarrow> alphaAt pixels i = 255"
  shows "scaleLoop pixels 0 16 (maxInt32, 255, maxInt32, 0, 0) = (0, 255, 0, 0, 255)"
proof -
  have s0: "scaleLoop pixels 0 0 (0, 255, 0, 0, 255) = (0, 255, 0, 0, 255)"
    by (subst scaleLoop.simps) simp
  have s1: "scaleLoop pixels 0 1 (0, 255, 0, 0, 255) = (0, 255, 0, 0, 255)"
    by (subst scaleLoop.simps) (simp add: alphaLoop_1[OF A] s0 del: alphaLoop.simps scaleLoop.simps)
  have s4: "scaleLoop pixels 0 4 (0, 255, 0, 0, 255) = (0, 255, 0, 0, 255)"
    by (subst scaleLoop.simps) (simp add: alphaLoop_4[OF A] s1 del: alphaLoop.simps scaleLoop.simps)
  show ?thesis
    by (subst scaleLoop.simps) (simp add: alphaLoop_16[OF A] s4 del: alphaLoop.simps scaleLoop.simps)
qed

lemma maxInt32_pos: "maxInt32 > 0"
  by (simp add: maxInt32_def)

lemma tableLoop_opaque:
  assumes A: "\<And>i. i < 16 \<Longrightarrow> alphaAt pixels i = 255"
  shows "tableLoop pixels 255 [0, 1, 2, 3, 4, 5, 6, 7, 8, 9, 10] (maxInt32, 0, 0) = (0, 0, 255)"
  by (simp add: tableLoop_def tableBody_def scaleLoop_opaque[OF A] maxInt32_pos del: alphaLoop.simps scaleLoop.simps)

lemma bestIndexAlpha_opaque: "bestIndexAlpha 255 0 255 = 0"
  by (simp add: bestIndexAlpha_def upt_rec adjustAlpha_table0 maxInt32_def Let_def)

lemma sums_opaque:
  assumes A: "\<And>i. i < 16 \<Longrightarrow> alphaAt pixels i = 255"
  shows "foldl (\<lambda>alphaSum i. alphaSum + alphaAt pixels i) 0 [0..<16] = 4080"
  by (simp add: upt_0_16 A)


lemma encodeAlpha_opaque:
  assumes A: "\<And>i. i < 16 \<Longrightarrow> alphaAt pixels i = 255"
  shows "encodeAlpha pixels = 0xFF00000000000000"
proof -
  have tl: "tableLoop pixels 255 [0..10] (maxInt32, 0, 0) = (0, 0, 255)"
    using tableLoop_opaque[OF A] by (simp only: upto_0_10)
  have d: "(4080 + 8) div 16 = (255::int)" by simp
  have md: "foldl (\<lambda>maxDist i. max maxDist (if alphaAt pixels i - 255 < 0 then - (alphaAt pixels i - 255) else alphaAt pixels i - 255)) 0 [0..<16] = 0"
    by (simp add: upt_0_16 A)
  have ix: "foldl (\<lambda>code i. code OR push_bit (shift11 i) (word_of_nat (bestIndexAlpha 255 0 (alphaAt pixels i))))
              c [0..<16] = c" for c :: "64 word"
    by (simp add: upt_0_16 A bestIndexAlpha_opaque)
  have e: "min 255 (((0 * 255) div 160) - 4) = (-4::int)" "max 0 (-4 - 15) = (0::int)" "max 0 (min 255 (-4 + 15)) - 1 = (10::int)"
    by simp_all
  show ?thesis
    apply (simp only: encodeAlpha_def Let_def sums_opaque[OF A] d md e tl prod.case ix)
    apply simp
    done
qed

section \<open>What Encode writes\<close>

lemma blockSize_cases: "blockSize f = 8 \<or> blockSize f = 16"
  by (simp add: blockSize_def)

lemma take_update8:
  assumes "j + 8 \<le> length buf"
  shows "take (j + 8) (buf[j + 0 := a0, j + 1 := a1, j + 2 := a2, j + 3 := a3,
                           j + 4 := a4, j + 5 := a5, j + 6 := a6, j + 7 := a7])
           = take j buf @ [a0, a1, a2, a3, a4, a5, a6, a7]"
proof (rule nth_equalityI)
  show "length (take (j + 8) (buf[j + 0 := a0, j + 1 := a1, j + 2 := a2, j + 3 := a3,
                           j + 4 := a4, j + 5 := a5, j + 6 := a6, j + 7 := a7]))
          = length (take j buf @ [a0, a1, a2, a3, a4, a5, a6, a7])"
    using assms by simp
next
  fix i
  assume "i < length (take (j + 8) (buf[j + 0 := a0, j + 1 := a1, j + 2 := a2, j + 3 := a3,
                           j + 4 := a4, j + 5 := a5, j + 6 := a6, j + 7 := a7]))"
  hence i: "i < j + 8" by simp
  consider "i < j" | "i = j" | "i = j + 1" | "i = j + 2" | "i = j + 3" | "i = j + 4"
    | "i = j + 5" | "i = j + 6" | "i = j + 7"
    using i by atomize_elim arith
  then show "take (j + 8) (buf[j + 0 := a0, j + 1 := a1, j + 2 := a2, j + 3 := a3,
                           j + 4 := a4, j + 5 := a5, j + 6 := a6, j + 7 := a7]) ! i
          = (take j buf @ [a0, a1, a2, a3, a4, a5, a6, a7]) ! i"
    using assms by cases (simp_all add: nth_append)
qed

lemma writeU64BE_Some:
  assumes "bufJ + 8 \<le> length buf"
  shows "\<exists>buf'. writeU64BE buf bufJ x = Some buf' \<and> length buf' = length buf \<and>
               take (bufJ + 8) buf' = take bufJ buf @ be64 x"
  using assms take_update8[OF assms] by (simp add: writeU64BE_def be64_def)

lemma encodeBlock_Some:
  assumes "bufJ + blockSize f \<le> length buf"
  shows "\<exists>buf'. encodeBlock P f pixels buf bufJ = Some (buf', bufJ + blockSize f) \<and>
               length buf' = length buf \<and>
               take (bufJ + blockSize f) buf' = take bufJ buf @ blockCode P f pixels"
proof -
  have two: "\<exists>b2. writeU64BE buf (bufJ + 0) x1 = Some b1 \<and> writeU64BE b1 (bufJ + 8) x2 = Some b2 \<and>
                 length b2 = length buf \<and> take (bufJ + 16) b2 = take bufJ buf @ be64 x1 @ be64 x2"
    if le: "bufJ + 16 \<le> length buf" and b1: "writeU64BE buf bufJ x1 = Some b1" "length b1 = length buf"
       "take (bufJ + 8) b1 = take bufJ buf @ be64 x1" for x1 x2 b1
  proof -
    from le b1(2) have "(bufJ + 8) + 8 \<le> length b1" by simp
    from writeU64BE_Some[OF this, of x2] obtain b2 where
      b2: "writeU64BE b1 (bufJ + 8) x2 = Some b2" "length b2 = length b1"
          "take (bufJ + 8 + 8) b2 = take (bufJ + 8) b1 @ be64 x2" by blast
    have "take (bufJ + 16) b2 = take bufJ buf @ be64 x1 @ be64 x2"
      using b2(3) b1(3) by (simp add: add.assoc)
    thus ?thesis using b1 b2 by simp
  qed
  show ?thesis
  proof (cases "(f AND formatBitDepth11) \<noteq> 0")
    case True
    show ?thesis
    proof (cases "(f AND formatBitDepth11TwoChannel) \<noteq> 0")
      case t: True
      with True assms have le: "bufJ + 16 \<le> length buf" by (simp add: blockSize_def)
      hence "bufJ + 8 \<le> length buf" by simp
      from writeU64BE_Some[OF this, of "encode11 pixels 0x00 ((f AND formatBitDepth11Signed) \<noteq> 0)"]
      obtain b1 where b1: "writeU64BE buf bufJ (encode11 pixels 0x00 ((f AND formatBitDepth11Signed) \<noteq> 0)) = Some b1"
        "length b1 = length buf"
        "take (bufJ + 8) b1 = take bufJ buf @ be64 (encode11 pixels 0x00 ((f AND formatBitDepth11Signed) \<noteq> 0))"
        by blast
      from two[OF le b1, of "encode11 pixels 0x20 ((f AND formatBitDepth11Signed) \<noteq> 0)"]
      show ?thesis using True t by (auto simp add: encodeBlock_def blockSize_def blockCode_def Let_def)
    next
      case o: False
      with True assms have le: "bufJ + 8 \<le> length buf" by (simp add: blockSize_def)
      from writeU64BE_Some[OF this, of "encode11 pixels 0x00 ((f AND formatBitDepth11Signed) \<noteq> 0)"]
      show ?thesis using True o by (auto simp add: encodeBlock_def blockSize_def blockCode_def Let_def)
    qed
  next
    case False
    show ?thesis
    proof (cases "f = FormatETC2RGBA8")
      case t: True
      with False assms have le: "bufJ + 16 \<le> length buf" by (simp add: blockSize_def)
      hence "bufJ + 8 \<le> length buf" by simp
      from writeU64BE_Some[OF this, of "encodeAlpha pixels"]
      obtain b1 where b1: "writeU64BE buf bufJ (encodeAlpha pixels) = Some b1"
        "length b1 = length buf"
        "take (bufJ + 8) b1 = take bufJ buf @ be64 (encodeAlpha pixels)"
        by blast
      from two[OF le b1, of "encodeColor P pixels f"]
      show ?thesis using False t by (auto simp add: encodeBlock_def blockSize_def blockCode_def Let_def)
    next
      case o: False
      with False assms have le: "bufJ + 8 \<le> length buf" by (simp add: blockSize_def)
      from writeU64BE_Some[OF this, of "encodeColor P pixels f"]
      show ?thesis using False o by (auto simp add: encodeBlock_def blockSize_def blockCode_def Let_def)
    qed
  qed
qed

lemma room:
  assumes "blockSize f dvd bufJ" "bufJ < 3968"
  shows "bufJ + blockSize f \<le> 3968" "blockSize f dvd (bufJ + blockSize f)"
proof -
  consider "blockSize f = 8" | "blockSize f = 16" using blockSize_cases[of f] by blast
  then show "bufJ + blockSize f \<le> 3968"
  proof cases
    case 1
    with assms(1) obtain j where "bufJ = 8 * j" by (auto simp: dvd_def)
    with assms(2) 1 show ?thesis by arith
  next
    case 2
    with assms(1) obtain j where "bufJ = 16 * j" by (auto simp: dvd_def)
    with assms(2) 2 show ?thesis by arith
  qed
  show "blockSize f dvd (bufJ + blockSize f)" using assms(1) by simp
qed


lemma blocksLoop_trace:
  assumes "length buf = 3968" "blockSize f dvd bufJ" "bufJ < 3968"
  shows "\<exists>err pixels' buf' bufJ' s' chunks.
           blocksLoop P (logged wr) src f bs pixels buf bufJ (s, lg)
             = Some (err, (pixels', buf', bufJ'), (s', lg @ chunks)) \<and>
           (\<forall>c \<in> set chunks. length c = 3968) \<and>
           length buf' = 3968 \<and>
           (err = None \<longrightarrow> bufJ' < 3968 \<and>
              concat chunks @ take bufJ' buf' = take bufJ buf @ stream P src f bs pixels) \<and>
           (\<forall>e. err = Some e \<longrightarrow> (\<exists>n. e = SinkError n) \<and> chunks \<noteq> []) \<and>
           ((\<forall>t c. fst (wr t c) = None) \<longrightarrow> err = None)"
  using assms
proof (induction bs arbitrary: pixels buf bufJ s lg)
  case Nil
  then show ?case by simp
next
  case (Cons b rest)
  let ?px = "extract f src pixels (fst b) (snd b)"
  from room[OF Cons.prems(2,3)] have le: "bufJ + blockSize f \<le> 3968" and dv: "blockSize f dvd (bufJ + blockSize f)" by auto
  from encodeBlock_Some[of bufJ f buf P ?px] le Cons.prems(1)
  obtain buf1 where eb: "encodeBlock P f ?px buf bufJ = Some (buf1, bufJ + blockSize f)" and l1: "length buf1 = 3968"
    and c1: "take (bufJ + blockSize f) buf1 = take bufJ buf @ blockCode P f ?px"
    by auto
  have st: "stream P src f (b # rest) pixels = blockCode P f ?px @ stream P src f rest ?px"
    by (simp add: Let_def)
  show ?case
  proof (cases "bufJ + blockSize f \<ge> encoderBufferSize")
    case False
    hence lt: "bufJ + blockSize f < 3968" by (simp add: encoderBufferSize_def)
    from Cons.IH[OF l1 dv lt, of ?px s lg]
    obtain err pixels' buf' bufJ' s' chunks where
      r: "blocksLoop P (logged wr) src f rest ?px buf1 (bufJ + blockSize f) (s, lg)
             = Some (err, (pixels', buf', bufJ'), (s', lg @ chunks))"
         "(\<forall>c \<in> set chunks. length c = 3968)" "length buf' = 3968"
         "(err = None \<longrightarrow> bufJ' < 3968 \<and>
              concat chunks @ take bufJ' buf' = take (bufJ + blockSize f) buf1 @ stream P src f rest ?px)"
         "(\<forall>e. err = Some e \<longrightarrow> (\<exists>n. e = SinkError n) \<and> chunks \<noteq> [])"
         "((\<forall>t c. fst (wr t c) = None) \<longrightarrow> err = None)"
      by blast
    have "blocksLoop P (logged wr) src f (b # rest) pixels buf bufJ (s, lg)
             = Some (err, (pixels', buf', bufJ'), (s', lg @ chunks))"
      using eb False r(1) by (simp add: Let_def)
    moreover have "err = None \<longrightarrow> bufJ' < 3968 \<and>
              concat chunks @ take bufJ' buf' = take bufJ buf @ stream P src f (b # rest) pixels"
      using r(4) c1 st by simp
    ultimately show ?thesis using r(2,3,5,6) by blast
  next
    case True
    hence eq: "bufJ + blockSize f = 3968" using le by (simp add: encoderBufferSize_def)
    have full: "buf1 = take bufJ buf @ blockCode P f ?px" using c1 eq l1 by simp
    obtain werr s1 where w: "wr s buf1 = (werr, s1)" by (cases "wr s buf1")
    show ?thesis
    proof (cases werr)
      case (Some n)
      have "blocksLoop P (logged wr) src f (b # rest) pixels buf bufJ (s, lg)
             = Some (Some (SinkError n), (?px, buf1, bufJ + blockSize f), (s1, lg @ [buf1]))"
        using eb True w Some by (simp add: Let_def logged_def)
      moreover have "\<not> (\<forall>t c. fst (wr t c) = None)" using w Some by (metis fst_conv option.distinct(1))
      ultimately show ?thesis using l1 by fastforce
    next
      case None
      have z: "blockSize f dvd 0" "(0::nat) < 3968" by simp_all
      from Cons.IH[OF l1 z, of ?px s1 "lg @ [buf1]"]
      obtain err pixels' buf' bufJ' s' chunks where
        r: "blocksLoop P (logged wr) src f rest ?px buf1 0 (s1, lg @ [buf1])
               = Some (err, (pixels', buf', bufJ'), (s', (lg @ [buf1]) @ chunks))"
           "(\<forall>c \<in> set chunks. length c = 3968)" "length buf' = 3968"
           "(err = None \<longrightarrow> bufJ' < 3968 \<and>
              concat chunks @ take bufJ' buf' = take 0 buf1 @ stream P src f rest ?px)"
           "(\<forall>e. err = Some e \<longrightarrow> (\<exists>n. e = SinkError n) \<and> chunks \<noteq> [])"
           "((\<forall>t c. fst (wr t c) = None) \<longrightarrow> err = None)"
        by blast
      have "blocksLoop P (logged wr) src f (b # rest) pixels buf bufJ (s, lg)
               = Some (err, (pixels', buf', bufJ'), (s', lg @ (buf1 # chunks)))"
        using eb True w None r(1) by (simp add: Let_def logged_def)
      moreover have "\<forall>c \<in> set (buf1 # chunks). length c = 3968" using r(2) l1 by simp
      moreover have "err = None \<longrightarrow> bufJ' < 3968 \<and>
              concat (buf1 # chunks) @ take bufJ' buf' = take bufJ buf @ stream P src f (b # rest) pixels"
        using r(4) full st by simp
      moreover have "\<forall>e. err = Some e \<longrightarrow> (\<exists>n. e = SinkError n) \<and> buf1 # chunks \<noteq> []"
        using r(5) by simp
      ultimately show ?thesis using r(3,6) by blast
    qed
  qed
qed

lemma Encode_trace:
  assumes v: "ETCVersion f \<noteq> 0" "\<not> (Dx (Bounds img) > 65532 \<or> Dy (Bounds img) > 65532)"
  shows "\<exists>err s' chunks.
           Encode P (logged wr) (Some (s, lg)) (Some img) f = Some (err, Some (s', lg @ chunks)) \<and>
           (\<forall>c \<in> set (butlast chunks). length c = 3968) \<and>
           (chunks \<noteq> [] \<longrightarrow> 0 < length (last chunks) \<and> length (last chunks) \<le> 3968) \<and>
           (err = None \<longrightarrow>
              concat chunks = stream P img (f AND NOT formatBitSRGBColorSpace)
                                (blockPositions (Dx (Bounds img)) (Dy (Bounds img))) (replicate 64 0)) \<and>
           (\<forall>e. err = Some e \<longrightarrow> (\<exists>n. e = SinkError n) \<and> chunks \<noteq> []) \<and>
           ((\<forall>t c. fst (wr t c) = None) \<longrightarrow> err = None)"
proof -
  let ?f = "f AND NOT formatBitSRGBColorSpace"
  let ?bs = "blockPositions (Dx (Bounds img)) (Dy (Bounds img))"
  have i: "length (replicate encoderBufferSize (0::byte)) = 3968" "blockSize ?f dvd 0" "(0::nat) < 3968"
    by (simp_all add: encoderBufferSize_def)
  from blocksLoop_trace[OF i, of P wr img ?bs "replicate 64 0" s lg]
  obtain err pixels' buf' bufJ' s' chunks where
    r: "blocksLoop P (logged wr) img ?f ?bs (replicate 64 0) (replicate encoderBufferSize 0) 0 (s, lg)
             = Some (err, (pixels', buf', bufJ'), (s', lg @ chunks))"
       "(\<forall>c \<in> set chunks. length c = 3968)" "length buf' = 3968"
       "(err = None \<longrightarrow> bufJ' < 3968 \<and>
              concat chunks @ take bufJ' buf' = take 0 (replicate encoderBufferSize 0) @ stream P img ?f ?bs (replicate 64 0))"
       "(\<forall>e. err = Some e \<longrightarrow> (\<exists>n. e = SinkError n) \<and> chunks \<noteq> [])"
       "((\<forall>t c. fst (wr t c) = None) \<longrightarrow> err = None)"
    by blast
  have E: "Encode P (logged wr) (Some (s, lg)) (Some img) f =
             (case blocksLoop P (logged wr) img ?f ?bs (replicate 64 0) (replicate encoderBufferSize 0) 0 (s, lg) of
                None \<Rightarrow> None
              | Some (Some err, e, s) \<Rightarrow> Some (Some err, Some s)
              | Some (None, (pixels, buf, bufJ), s) \<Rightarrow>
                  if bufJ > 0 then
                    (case logged wr s (take bufJ buf) of
                       (Some err, s) \<Rightarrow> Some (Some (SinkError err), Some s)
                     | (None, s) \<Rightarrow> Some (None, Some s))
                  else Some (None, Some s))"
    using v by (simp add: Encode_def Let_def)
  show ?thesis
  proof (cases err)
    case (Some e)
    have "Encode P (logged wr) (Some (s, lg)) (Some img) f = Some (Some e, Some (s', lg @ chunks))"
      unfolding E r(1) using Some by simp
    moreover have "\<forall>c \<in> set (butlast chunks). length c = 3968" using r(2) by (meson in_set_butlastD)
    moreover have "chunks \<noteq> [] \<longrightarrow> 0 < length (last chunks) \<and> length (last chunks) \<le> 3968"
      using r(2) by (metis last_in_set le_refl zero_less_numeral)
    ultimately show ?thesis using r(5,6) Some by blast
  next
    case None
    show ?thesis
    proof (cases "bufJ' > 0")
      case False
      have "Encode P (logged wr) (Some (s, lg)) (Some img) f = Some (None, Some (s', lg @ chunks))"
        unfolding E r(1) using None False by simp
      moreover have "\<forall>c \<in> set (butlast chunks). length c = 3968" using r(2) by (meson in_set_butlastD)
      moreover have "chunks \<noteq> [] \<longrightarrow> 0 < length (last chunks) \<and> length (last chunks) \<le> 3968"
        using r(2) by (metis last_in_set le_refl zero_less_numeral)
      moreover have "concat chunks = stream P img ?f ?bs (replicate 64 0)"
        using r(4) None False by simp
      ultimately show ?thesis by blast
    next
      case True
      from r(4) None have lt: "bufJ' < 3968"
        and c: "concat chunks @ take bufJ' buf' = stream P img ?f ?bs (replicate 64 0)" by simp_all
      obtain werr s1 where w: "wr s' (take bufJ' buf') = (werr, s1)" by (cases "wr s' (take bufJ' buf')")
      let ?ch = "chunks @ [take bufJ' buf']"
      have b: "\<forall>c \<in> set (butlast ?ch). length c = 3968" using r(2) by simp
      have l: "?ch \<noteq> [] \<longrightarrow> 0 < length (last ?ch) \<and> length (last ?ch) \<le> 3968"
        using True lt r(3) by simp
      show ?thesis
      proof (cases werr)
        case (Some n)
        have "Encode P (logged wr) (Some (s, lg)) (Some img) f = Some (Some (SinkError n), Some (s1, lg @ ?ch))"
          unfolding E r(1) using None True w Some by (simp add: logged_def)
        moreover have "\<not> (\<forall>t c. fst (wr t c) = None)" using w Some by (metis fst_conv option.distinct(1))
        ultimately show ?thesis using b l by (intro exI[of _ "Some (SinkError n)"] exI[of _ s1] exI[of _ ?ch]) simp
      next
        case N: None
        have "Encode P (logged wr) (Some (s, lg)) (Some img) f = Some (None, Some (s1, lg @ ?ch))"
          unfolding E r(1) using None True w N by (simp add: logged_def)
        moreover have "concat ?ch = stream P img ?f ?bs (replicate 64 0)" using c by simp
        ultimately show ?thesis using b l by (intro exI[of _ None] exI[of _ s1] exI[of _ ?ch]) simp
      qed
    qed
  qed
qed

lemma length_foldl_store: "length (foldl (store i) pixels ovs) = length pixels"
  by (induction ovs arbitrary: pixels) (simp_all add: store_def)

lemma length_foldl_stores:
  "length (foldl (\<lambda>pixels yx. foldl (store (g yx)) pixels (v yx)) pixels w) = length pixels"
  by (induction w arbitrary: pixels) (simp_all add: length_foldl_store)

lemma length_extract: "length (extract f src pixels blockX blockY) = length pixels"
  by (simp add: extract_def Let_def length_foldl_stores)

lemma storesColor_form:
  "storesColor src X Y = [(0, snd (storesColor src X Y ! 0)), (1, snd (storesColor src X Y ! 1)),
                          (2, snd (storesColor src X Y ! 2)), (3, snd (storesColor src X Y ! 3))]"
  by (cases src) (simp_all add: Let_def split: prod.splits)

lemma fold_windowColor:
  assumes len: "length pixels = 64" and x: "x < 4" and y: "y < 4"
    and v: "\<And>yx. v yx = [(0, a yx), (1, b yx), (2, c yx), (3, d yx)]"
  shows "foldl (\<lambda>pixels yx. foldl (store ((16 * fst yx) + (4 * snd yx))) pixels (v yx)) pixels window
            ! (16 * y + 4 * x + 3) = d (y, x)"
  using less4_cases [OF x] less4_cases [OF y] len
  by (elim disjE) (simp_all add: window_explicit v store_def)

lemma extract_alpha:
  assumes f: "(f AND formatBitDepth11) = 0" and len: "length pixels = 64" and x: "x < 4" and y: "y < 4"
  shows "extract f src pixels blockX blockY ! (16 * y + 4 * x + 3) =
           snd (storesColor src (fst (readPoint src blockX blockY (y, x)))
                                (snd (readPoint src blockX blockY (y, x))) ! 3)"
proof -
  let ?v = "\<lambda>yx. storesColor src (fst (readPoint src blockX blockY yx)) (snd (readPoint src blockX blockY yx))"
  have e: "extract f src pixels blockX blockY =
      foldl (\<lambda>pixels yx. foldl (store ((16 * fst yx) + (4 * snd yx))) pixels (?v yx)) pixels window"
    using f by (simp add: extract_def Let_def)
  have v: "\<And>yx. ?v yx = [(0, snd (?v yx ! 0)), (1, snd (?v yx ! 1)), (2, snd (?v yx ! 2)), (3, snd (?v yx ! 3))]"
    by (rule storesColor_form)
  from fold_windowColor [of pixels x y ?v "\<lambda>yx. snd (?v yx ! 0)" "\<lambda>yx. snd (?v yx ! 1)"
      "\<lambda>yx. snd (?v yx ! 2)" "\<lambda>yx. snd (?v yx ! 3)", OF len x y v]
  show ?thesis unfolding e by simp
qed

lemma length_be64: "length (be64 x) = 8"
  by (simp add: be64_def)

lemma length_blockCode: "length (blockCode P f pixels) = blockSize f"
  by (simp add: blockCode_def blockSize_def length_be64)

lemma length_stream: "length (stream P src f bs pixels) = blockSize f * length bs"
  by (induction bs arbitrary: pixels) (simp_all add: Let_def length_blockCode)

lemma length_blockPositions:
  "length (blockPositions bW bH) = nat ((bW + 3) div 4) * nat ((bH + 3) div 4)"
  by (simp add: blockPositions_def steps4_def length_concat comp_def sum_list_triv)

lemma be64_opaque: "be64 0xFF00000000000000 = [0xFF, 0, 0, 0, 0, 0, 0, 0]"
  by (simp add: be64_def)

lemma RGBA8_bits:
  "(FormatETC2RGBA8 AND formatBitDepth11) = 0"
  "FormatETC2RGBA8 AND NOT formatBitSRGBColorSpace = FormatETC2RGBA8"
  "ETCVersion FormatETC2RGBA8 \<noteq> 0"
  "blockSize FormatETC2RGBA8 = 16"
  by (simp_all add: Format_defs formatBit_defs ETCVersion_def blockSize_def)

lemma extract_opaque:
  assumes origin: "MinX (Bounds src) = 0" "MinY (Bounds src) = 0"
    and o: "\<And>X Y. In (X, Y) (Bounds src) \<Longrightarrow> snd (storesColor src X Y ! 3) = 0xFF"
    and b: "b \<in> set (blockPositions (Dx (Bounds src)) (Dy (Bounds src)))"
    and len: "length pixels = 64" and i: "i < 16"
  shows "alphaAt (extract FormatETC2RGBA8 src pixels (fst b) (snd b)) i = 255"
proof -
  let ?y = "i div 4" and ?x = "i mod 4"
  let ?p = "readPoint src (fst b) (snd b) (?y, ?x)"
  have xy: "?x < 4" "?y < 4" using i by auto
  have idx: "4 * i + 3 = 16 * ?y + 4 * ?x + 3" by presburger
  have "(?y, ?x) \<in> set window" using xy by (simp add: window_set)
  hence "?p \<in> set (readsOfEncode src)"
    using b unfolding readsOfEncode_def by (cases b) force
  hence "In ?p (Bounds src)" using readsOfEncode_origin[OF origin] by blast
  hence "snd (storesColor src (fst ?p) (snd ?p) ! 3) = 0xFF" using o[of "fst ?p" "snd ?p"] by simp
  thus ?thesis
    unfolding alphaAt_def idx extract_alpha[OF RGBA8_bits(1) len xy] by simp
qed

lemma stream_opaque:
  assumes origin: "MinX (Bounds src) = 0" "MinY (Bounds src) = 0"
    and o: "\<And>X Y. In (X, Y) (Bounds src) \<Longrightarrow> snd (storesColor src X Y ! 3) = 0xFF"
    and bs: "set bs \<subseteq> set (blockPositions (Dx (Bounds src)) (Dy (Bounds src)))"
    and len: "length pixels = 64" and k: "k < length bs"
  shows "take 8 (drop (16 * k) (stream P src FormatETC2RGBA8 bs pixels)) = [0xFF, 0, 0, 0, 0, 0, 0, 0]"
  using bs len k
proof (induction bs arbitrary: pixels k)
  case Nil
  then show ?case by simp
next
  case (Cons b rest)
  let ?px = "extract FormatETC2RGBA8 src pixels (fst b) (snd b)"
  have lpx: "length ?px = 64" using Cons.prems(2) by (simp add: length_extract)
  have bin: "b \<in> set (blockPositions (Dx (Bounds src)) (Dy (Bounds src)))" using Cons.prems(1) by simp
  have a: "encodeAlpha ?px = 0xFF00000000000000"
    by (rule encodeAlpha_opaque) (rule extract_opaque[OF origin o bin Cons.prems(2)])
  obtain pre where st: "stream P src FormatETC2RGBA8 (b # rest) pixels
              = pre @ stream P src FormatETC2RGBA8 rest ?px"
    and lp: "length pre = 16" and tp: "take 8 pre = [0xFF, 0, 0, 0, 0, 0, 0, 0]"
  proof
    show "stream P src FormatETC2RGBA8 (b # rest) pixels
              = ([0xFF, 0, 0, 0, 0, 0, 0, 0] @ be64 (encodeColor P ?px FormatETC2RGBA8)) @
                stream P src FormatETC2RGBA8 rest ?px"
      using RGBA8_bits(1) by (simp add: Let_def blockCode_def a be64_opaque)
    show "length ([0xFF, 0, 0, 0, 0, 0, 0, 0] @ be64 (encodeColor P ?px FormatETC2RGBA8)) = 16"
      by (simp add: length_be64)
    show "take 8 ([0xFF, 0, 0, 0, 0, 0, 0, 0] @ be64 (encodeColor P ?px FormatETC2RGBA8))
            = [0xFF, 0, 0, 0, 0, 0, 0, 0]"
      by simp
  qed
  show ?case
  proof (cases k)
    case 0
    show ?thesis unfolding st 0 using lp tp by simp
  next
    case (Suc k')
    have "take 8 (drop (16 * k') (stream P src FormatETC2RGBA8 rest ?px)) = [0xFF, 0, 0, 0, 0, 0, 0, 0]"
      using Cons.IH[of ?px k'] Cons.prems(1,3) lpx Suc by simp
    moreover have "drop (16 * Suc k') (pre @ stream P src FormatETC2RGBA8 rest ?px)
                     = drop (16 * k') (stream P src FormatETC2RGBA8 rest ?px)"
      using lp by simp
    ultimately show ?thesis unfolding st Suc by simp
  qed
qed

lemma Encode_opaque:
  assumes b: "Bounds src = \<lparr>MinX = 0, MinY = 0, MaxX = 16, MaxY = 16\<rparr>"
    and o: "\<And>X Y. In (X, Y) (Bounds src) \<Longrightarrow> snd (storesColor src X Y ! 3) = 0xFF"
    and e: "Encode P (logged wr) (Some (s, [])) (Some src) FormatETC2RGBA8 = Some (None, Some (s', lg))"
  shows "length lg = 1 \<and> length (concat lg) = 16 * 16 \<and>
         (\<forall>k<16. take 8 (drop (16 * k) (concat lg)) = [0xFF, 0, 0, 0, 0, 0, 0, 0])"
proof -
  let ?bs = "blockPositions (Dx (Bounds src)) (Dy (Bounds src))"
  have d: "Dx (Bounds src) = 16" "Dy (Bounds src) = 16" "MinX (Bounds src) = 0" "MinY (Bounds src) = 0"
    by (simp_all add: b Dx_def Dy_def)
  have v: "\<not> (Dx (Bounds src) > 65532 \<or> Dy (Bounds src) > 65532)" by (simp add: d)
  from Encode_trace[OF RGBA8_bits(3) v, of P wr s "[]"] e
  have bl: "\<forall>c \<in> set (butlast lg). length c = 3968"
    and la: "lg \<noteq> [] \<longrightarrow> 0 < length (last lg) \<and> length (last lg) \<le> 3968"
    and c: "concat lg = stream P src FormatETC2RGBA8 ?bs (replicate 64 0)"
    by (auto simp add: RGBA8_bits(2))
  have n: "length ?bs = 16" by (simp add: d length_blockPositions)
  have total: "length (concat lg) = 256" unfolding c by (simp add: length_stream RGBA8_bits(4) n)
  have one: "length lg = 1"
  proof (cases lg rule: rev_cases)
    case Nil
    with total show ?thesis by simp
  next
    case (snoc ini c)
    show ?thesis
    proof (cases ini)
      case Nil
      with snoc show ?thesis by simp
    next
      case (Cons c0 more)
      with snoc bl have "length c0 = 3968" by simp
      with snoc Cons total show ?thesis by simp
    qed
  qed
  have "\<forall>k<16. take 8 (drop (16 * k) (concat lg)) = [0xFF, 0, 0, 0, 0, 0, 0, 0]"
    unfolding c using stream_opaque[OF d(3,4) o subset_refl, of "replicate 64 0" _ P] n by simp
  with one total show ?thesis by simp
qed

lemma storesColor_opaque:
  "In (X, Y) (Bounds src) \<Longrightarrow> opaqueAt src X Y \<Longrightarrow> snd (storesColor src X Y ! 3) = 0xFF"
  by (cases src) (auto simp add: NRGBAAt_def NRGBA64At_def Let_def split: prod.splits)

lemma Encode_invalid:
  "dst = None \<or> src = None \<or> ETCVersion f = 0 \<Longrightarrow>
     Encode P wr dst src f = Some (Some ErrBadArgument, dst)"
  by (simp add: Encode_def)

lemma Encode_too_large:
  "\<not> (dst = None \<or> src = None \<or> ETCVersion f = 0) \<Longrightarrow>
   Dx (Bounds (the src)) > 65532 \<or> Dy (Bounds (the src)) > 65532 \<Longrightarrow>
     Encode P wr dst src f = Some (Some ErrImageIsTooLarge, dst)"
  by (auto simp add: Encode_def Let_def)

lemma Encode_valid_error:
  assumes "\<not> (dst = None \<or> src = None \<or> ETCVersion f = 0)"
    and "\<not> (Dx (Bounds (the src)) > 65532 \<or> Dy (Bounds (the src)) > 65532)"
  shows "\<exists>err d. Encode P (logged wr) dst src f = Some (err, d) \<and>
                 err \<noteq> Some ErrBadArgument \<and> err \<noteq> Some ErrImageIsTooLarge"
proof -
  from assms(1) obtain s lg img where d: "dst = Some (s, lg)" "src = Some img" and v: "ETCVersion f \<noteq> 0"
    by (cases dst; cases src) auto
  from assms(2) d have l: "\<not> (Dx (Bounds img) > 65532 \<or> Dy (Bounds img) > 65532)" by simp
  from Encode_trace[OF v l, of P wr s lg] show ?thesis unfolding d by (cases) auto
qed

lemma Encode_never_panics: "\<exists>r. Encode P (logged wr) dst src f = Some r"
proof (cases "dst = None \<or> src = None \<or> ETCVersion f = 0")
  case True
  then show ?thesis using Encode_invalid[of dst src f P "logged wr"] by simp
next
  case False
  show ?thesis
  proof (cases "Dx (Bounds (the src)) > 65532 \<or> Dy (Bounds (the src)) > 65532")
    case True
    then show ?thesis using Encode_too_large[OF False, of P "logged wr"] by simp
  next
    case l: False
    from Encode_valid_error[OF False l, of P wr] show ?thesis by auto
  qed
qed

lemma Encode_validation:
  "(Encode P (logged wr) dst src f = Some (Some ErrBadArgument, d)
      \<longleftrightarrow> (dst = None \<or> src = None \<or> ETCVersion f = 0) \<and> d = dst) \<and>
   (Encode P (logged wr) dst src f = Some (Some ErrImageIsTooLarge, d)
      \<longleftrightarrow> \<not> (dst = None \<or> src = None \<or> ETCVersion f = 0) \<and>
          (Dx (Bounds (the src)) > 65532 \<or> Dy (Bounds (the src)) > 65532) \<and> d = dst)"
proof (cases "dst = None \<or> src = None \<or> ETCVersion f = 0")
  case True
  then show ?thesis using Encode_invalid[of dst src f P "logged wr"] by auto
next
  case False
  show ?thesis
  proof (cases "Dx (Bounds (the src)) > 65532 \<or> Dy (Bounds (the src)) > 65532")
    case True
    then show ?thesis using False Encode_too_large[OF False, of P "logged wr"] by auto
  next
    case l: False
    from Encode_valid_error[OF False l, of P wr] show ?thesis using False l by auto
  qed
qed

lemma pkmEncode_validation:
  assumes "pkmEncode P (logged wr) w src optFormat = Some (Some err, d)"
    and "err = PkmErrBadArgument \<or> err = PkmErrImageIsTooLarge \<or> err = ErrBadArgument \<or> err = ErrImageIsTooLarge"
  shows "d = w"
proof (cases src)
  case None
  with assms(1) show ?thesis by (simp add: pkmEncode_def)
next
  case (Some img)
  let ?f = "case optFormat of None \<Rightarrow> FormatETC2RGB | Some g \<Rightarrow> if g \<noteq> 0 then g else FormatETC2RGB"
  show ?thesis
  proof (cases "Dx (Bounds img) > 65532 \<or> Dy (Bounds img) > 65532")
    case True
    with assms(1) Some show ?thesis by (auto simp add: pkmEncode_def Let_def)
  next
    case l: False
    show ?thesis
    proof (cases "ETCVersion ?f = 0")
      case True
      with assms(1) Some l show ?thesis by (simp add: pkmEncode_def Let_def)
    next
      case v: False
      show ?thesis
      proof (cases w)
        case None
        with assms(1) Some l v show ?thesis by (simp add: pkmEncode_def Let_def)
      next
        case w: (Some sl)
        obtain s lg where sl: "sl = (s, lg)" by (cases sl)
        let ?buf = "Magic @
              [0x30 OR word_of_int (ETCVersion ?f), 0x30, 0x00, PKMFormat ?f,
               word_of_int (drop_bit 8 ((Dx (Bounds img) + 3) AND NOT 3)), word_of_int (drop_bit 0 ((Dx (Bounds img) + 3) AND NOT 3)),
               word_of_int (drop_bit 8 ((Dy (Bounds img) + 3) AND NOT 3)), word_of_int (drop_bit 0 ((Dy (Bounds img) + 3) AND NOT 3)),
               word_of_int (drop_bit 8 (Dx (Bounds img))), word_of_int (drop_bit 0 (Dx (Bounds img))),
               word_of_int (drop_bit 8 (Dy (Bounds img))), word_of_int (drop_bit 0 (Dy (Bounds img)))]"
        have E: "pkmEncode P (logged wr) w src optFormat =
                   (case logged wr (s, lg) ?buf of
                      (Some err, s) \<Rightarrow> Some (Some (SinkError err), Some s)
                    | (None, s) \<Rightarrow> Encode P (logged wr) (Some s) (Some img) ?f)"
          using Some l v w sl by (simp add: pkmEncode_def Let_def)
        obtain werr s1 where wr: "wr s ?buf = (werr, s1)" by (cases "wr s ?buf")
        show ?thesis
        proof (cases werr)
          case (Some n)
          with assms E wr show ?thesis by (auto simp add: logged_def)
        next
          case None
          have E2: "pkmEncode P (logged wr) w src optFormat =
                      Encode P (logged wr) (Some (s1, lg @ [?buf])) (Some img) ?f"
            unfolding E using wr None by (simp add: logged_def)
          from Encode_trace[OF v l, of P wr s1 "lg @ [?buf]"] assms show ?thesis
            unfolding E2 by auto
        qed
      qed
    qed
  qed
qed

lemma R11_bits:
  "FormatETC2R11Unsigned AND NOT formatBitSRGBColorSpace = FormatETC2R11Unsigned"
  "ETCVersion FormatETC2R11Unsigned \<noteq> 0"
  "blockSize FormatETC2R11Unsigned = 8"
  by (simp_all add: Format_defs formatBit_defs ETCVersion_def blockSize_def)

lemma Encode_chunks:
  assumes e: "Encode P (logged wr) (Some (s, [])) src f = Some (None, Some (s', lg))"
  shows "(\<forall>i. Suc i < length lg \<longrightarrow> length (lg ! i) = 3968) \<and>
         (lg \<noteq> [] \<longrightarrow> 0 < length (last lg) \<and> length (last lg) \<le> 3968)"
proof -
  have nb: "\<not> (Some (s, [] :: byte list list) = None \<or> src = None \<or> ETCVersion f = 0)"
  proof
    assume "Some (s, [] :: byte list list) = None \<or> src = None \<or> ETCVersion f = 0"
    from Encode_invalid[OF this, of P "logged wr"] e show False by simp
  qed
  then obtain img where src: "src = Some img" and v: "ETCVersion f \<noteq> 0" by (cases src) auto
  have l: "\<not> (Dx (Bounds img) > 65532 \<or> Dy (Bounds img) > 65532)"
    using e src Encode_too_large[OF nb, of P "logged wr"] by auto
  from Encode_trace[OF v l, of P wr s "[]"] e
  have bl: "\<forall>c \<in> set (butlast lg). length c = 3968"
    and la: "lg \<noteq> [] \<longrightarrow> 0 < length (last lg) \<and> length (last lg) \<le> 3968"
    unfolding src by auto
  have "length (lg ! i) = 3968" if "Suc i < length lg" for i
  proof -
    from that have "i < length (butlast lg)" by simp
    hence "butlast lg ! i \<in> set (butlast lg)" by (rule nth_mem)
    moreover have "butlast lg ! i = lg ! i" using \<open>i < length (butlast lg)\<close> by (simp add: nth_butlast)
    ultimately show ?thesis using bl by auto
  qed
  with la show ?thesis by blast
qed

lemma Encode_two_writes:
  "\<exists>s' lg. Encode P (logged (\<lambda>t c. (None, t))) (Some (s, []))
               (Some (ImageNRGBA \<lparr>MinX = 0, MinY = 0, MaxX = 1988, MaxY = 4\<rparr> pix))
               FormatETC2R11Unsigned = Some (None, Some (s', lg)) \<and>
            Suc 0 < length lg \<and> length (lg ! 0) = 3968"
proof -
  let ?img = "ImageNRGBA \<lparr>MinX = 0, MinY = 0, MaxX = 1988, MaxY = 4\<rparr> pix"
  let ?bs = "blockPositions (Dx (Bounds ?img)) (Dy (Bounds ?img))"
  have d: "Dx (Bounds ?img) = 1988" "Dy (Bounds ?img) = 4" by (simp_all add: Dx_def Dy_def)
  have l: "\<not> (Dx (Bounds ?img) > 65532 \<or> Dy (Bounds ?img) > 65532)" unfolding d by simp
  have ok: "\<forall>t c. fst ((\<lambda>t c. (None, t)) t c) = None" by simp
  from Encode_trace[OF R11_bits(2) l, of P "\<lambda>t c. (None, t)" s "[]"] ok
  obtain s' lg where
    e: "Encode P (logged (\<lambda>t c. (None, t))) (Some (s, [])) (Some ?img) FormatETC2R11Unsigned
          = Some (None, Some (s', lg))"
    and bl: "\<forall>c \<in> set (butlast lg). length c = 3968"
    and la: "lg \<noteq> [] \<longrightarrow> 0 < length (last lg) \<and> length (last lg) \<le> 3968"
    and c: "concat lg = stream P ?img FormatETC2R11Unsigned ?bs (replicate 64 0)"
    unfolding R11_bits(1) by auto
  have "nat ((1988 + 3) div 4) * nat ((4 + 3) div 4) = (497::nat)" by simp
  hence n: "length ?bs = 497" using length_blockPositions[of 1988 4] by (simp add: Dx_def Dy_def)
  have total: "length (concat lg) = 3976" unfolding c length_stream R11_bits(3) n by simp
  have "Suc 0 < length lg \<and> length (lg ! 0) = 3968"
  proof (cases lg)
    case Nil
    with total show ?thesis by simp
  next
    case (Cons c0 more)
    show ?thesis
    proof (cases more)
      case Nil
      with Cons la total show ?thesis by simp
    next
      case (Cons c1 more')
      with \<open>lg = c0 # more\<close> bl show ?thesis by simp
    qed
  qed
  with e show ?thesis by blast
qed

lemma Encode_opaque_exists:
  assumes b: "Bounds src = \<lparr>MinX = 0, MinY = 0, MaxX = 16, MaxY = 16\<rparr>"
  shows "\<exists>s' lg. Encode P (logged (\<lambda>t c. (None, t))) (Some (s, [])) (Some src) FormatETC2RGBA8
                    = Some (None, Some (s', lg))"
proof -
  have l: "\<not> (Dx (Bounds src) > 65532 \<or> Dy (Bounds src) > 65532)" by (simp add: b Dx_def Dy_def)
  have ok: "\<forall>t c. fst ((\<lambda>t c. (None, t)) t c) = None" by simp
  from Encode_trace[OF RGBA8_bits(3) l, of P "\<lambda>t c. (None, t)" s "[]"] ok
  show ?thesis by auto
qed


text \<open>
  Claim C10. The sink keeps the chunks written to it. If \<^verbatim>\<open>Encode\<close> returns
  \<^verbatim>\<open>ErrBadArgument\<close> or \<^verbatim>\<open>ErrImageIsTooLarge\<close>, the sink is as it was, with
  no chunk added. It returns \<^verbatim>\<open>ErrBadArgument\<close> exactly when the destination or the
  source is \<^verbatim>\<open>nil\<close> or the format's \<^verbatim>\<open>ETCVersion\<close> is 0, and
  \<^verbatim>\<open>ErrImageIsTooLarge\<close> exactly when those three checks pass and the width or the
  height exceeds 65532. \<^verbatim>\<open>pkm.Encode\<close> makes its own two checks before it writes
  the header, and once it has written the header \<^verbatim>\<open>etc2.Encode\<close> cannot return
  either error. An error of the sink's \<^verbatim>\<open>Write\<close> is taken to be none of these
  sentinel values.
\<close>

theorem Encode_validation_precedes_writes:
  "(Encode P (logged wr) dst src f = Some (Some err, d) \<and>
      (err = ErrBadArgument \<or> err = ErrImageIsTooLarge) \<longrightarrow> d = dst) \<and>
   (Encode P (logged wr) dst src f = Some (Some ErrBadArgument, dst)
      \<longleftrightarrow> dst = None \<or> src = None \<or> ETCVersion f = 0) \<and>
   (Encode P (logged wr) dst src f = Some (Some ErrImageIsTooLarge, dst)
      \<longleftrightarrow> \<not> (dst = None \<or> src = None \<or> ETCVersion f = 0) \<and>
          (Dx (Bounds (the src)) > 65532 \<or> Dy (Bounds (the src)) > 65532)) \<and>
   (pkmEncode P (logged wr) dst src optFormat = Some (Some err, d) \<and>
      (err = PkmErrBadArgument \<or> err = PkmErrImageIsTooLarge \<or>
       err = ErrBadArgument \<or> err = ErrImageIsTooLarge) \<longrightarrow> d = dst)"
  using Encode_validation[of P wr dst src f d] Encode_validation[of P wr dst src f dst]
        pkmEncode_validation[of P wr dst src optFormat err d]
  by blast

theorem Encode_validation_precedes_writes_witness:
  "Encode \<lparr>decodeColor = (\<lambda>c a. []), clusterfy = (\<lambda>p w. ((0, 0, 0), (0, 0, 0))),
           planarFit = (\<lambda>p k. (0, 0, 0)), encodeRGBWithAlpha = (\<lambda>p t. 0)\<rparr>
          (logged (\<lambda>s c. (None, s))) (Some ((), []))
          (Some (ImageNRGBA \<lparr>MinX = 0, MinY = 0, MaxX = 65533, MaxY = 1\<rparr> (\<lambda>x y. (0, 0, 0, 0xFF))))
          FormatETC2RGB
     = Some (Some ErrImageIsTooLarge, Some ((), [])) \<and>
   Encode \<lparr>decodeColor = (\<lambda>c a. []), clusterfy = (\<lambda>p w. ((0, 0, 0), (0, 0, 0))),
           planarFit = (\<lambda>p k. (0, 0, 0)), encodeRGBWithAlpha = (\<lambda>p t. 0)\<rparr>
          (logged (\<lambda>s c. (None, s))) (Some ((), []))
          (Some (ImageNRGBA \<lparr>MinX = 0, MinY = 0, MaxX = 4, MaxY = 4\<rparr> (\<lambda>x y. (0, 0, 0, 0xFF))))
          FormatInvalid
     = Some (Some ErrBadArgument, Some ((), [])) \<and>
   pkmEncode \<lparr>decodeColor = (\<lambda>c a. []), clusterfy = (\<lambda>p w. ((0, 0, 0), (0, 0, 0))),
           planarFit = (\<lambda>p k. (0, 0, 0)), encodeRGBWithAlpha = (\<lambda>p t. 0)\<rparr>
          (logged (\<lambda>s c. (None, s))) (Some ((), []))
          (Some (ImageNRGBA \<lparr>MinX = 0, MinY = 0, MaxX = 4, MaxY = 65533\<rparr> (\<lambda>x y. (0, 0, 0, 0xFF))))
          None
     = Some (Some PkmErrImageIsTooLarge, Some ((), []))"
  using Encode_validation_precedes_writes
    [of "\<lparr>decodeColor = (\<lambda>c a. []), clusterfy = (\<lambda>p w. ((0, 0, 0), (0, 0, 0))),
           planarFit = (\<lambda>p k. (0, 0, 0)), encodeRGBWithAlpha = (\<lambda>p t. 0)\<rparr>"
        "\<lambda>s c. (None, s)" "Some ((), [])"
        "Some (ImageNRGBA \<lparr>MinX = 0, MinY = 0, MaxX = 65533, MaxY = 1\<rparr> (\<lambda>x y. (0, 0, 0, 0xFF)))"
        FormatETC2RGB ErrImageIsTooLarge "Some ((), [])" None]
  by (simp add: Encode_def pkmEncode_def ETCVersion_def Format_defs formatBit_defs Dx_def Dy_def Let_def)

text \<open>
  Claim C9 says that every write but the last passes exactly 4096 bytes. The buffer
  \<^verbatim>\<open>e.buf\<close> has \<^verbatim>\<open>encoderBufferSize = 4096 - 64 - 64 = 3968\<close> bytes and is
  written whole (\<^verbatim>\<open>dst.Write(e.buf[:])\<close>) each time it is full. So: \<^verbatim>\<open>Encode\<close>
  never panics; in a successful encode every write but the last passes exactly 3968
  bytes, and the last passes at least 1 and at most 3968.
\<close>

theorem Encode_write_sizes:
  "(\<exists>r. Encode P (logged wr) dst src f = Some r) \<and>
   (Encode P (logged wr) (Some (s, [])) src f = Some (None, Some (s', lg)) \<longrightarrow>
      (\<forall>i. Suc i < length lg \<longrightarrow> length (lg ! i) = encoderBufferSize) \<and>
      (lg \<noteq> [] \<longrightarrow> 0 < length (last lg) \<and> length (last lg) \<le> encoderBufferSize)) \<and>
   encoderBufferSize = 3968"
proof (intro conjI impI)
  show "\<exists>r. Encode P (logged wr) dst src f = Some r" by (rule Encode_never_panics)
  show b: "encoderBufferSize = 3968" by (simp add: encoderBufferSize_def)
  assume e: "Encode P (logged wr) (Some (s, [])) src f = Some (None, Some (s', lg))"
  from Encode_chunks[OF e]
  show "\<forall>i. Suc i < length lg \<longrightarrow> length (lg ! i) = encoderBufferSize"
    and "lg \<noteq> [] \<Longrightarrow> 0 < length (last lg)" and "lg \<noteq> [] \<Longrightarrow> length (last lg) \<le> encoderBufferSize"
    unfolding b by simp_all
qed

theorem Encode_write_sizes_witness:
  "\<exists>s' lg. Encode \<lparr>decodeColor = (\<lambda>c a. []), clusterfy = (\<lambda>p w. ((0, 0, 0), (0, 0, 0))),
                   planarFit = (\<lambda>p k. (0, 0, 0)), encodeRGBWithAlpha = (\<lambda>p t. 0)\<rparr>
              (logged (\<lambda>t c. (None, t))) (Some ((), []))
              (Some (ImageNRGBA \<lparr>MinX = 0, MinY = 0, MaxX = 1988, MaxY = 4\<rparr> (\<lambda>x y. (0x80, 0x80, 0x80, 0xFF))))
              FormatETC2R11Unsigned = Some (None, Some (s', lg)) \<and>
            Suc 0 < length lg \<and> length (lg ! 0) = encoderBufferSize \<and>
            0 < length (last lg) \<and> length (last lg) \<le> encoderBufferSize"
proof -
  let ?P = "\<lparr>decodeColor = (\<lambda>c a. []), clusterfy = (\<lambda>p w. ((0, 0, 0), (0, 0, 0))),
             planarFit = (\<lambda>p k. (0, 0, 0)), encodeRGBWithAlpha = (\<lambda>p t. 0)\<rparr>"
  let ?src = "Some (ImageNRGBA \<lparr>MinX = 0, MinY = 0, MaxX = 1988, MaxY = 4\<rparr> (\<lambda>x y. (0x80, 0x80, 0x80, 0xFF)))"
  from Encode_two_writes[of ?P "()" "\<lambda>x y. (0x80, 0x80, 0x80, 0xFF)"]
  obtain s' lg where
    e: "Encode ?P (logged (\<lambda>t c. (None, t))) (Some ((), [])) ?src FormatETC2R11Unsigned
          = Some (None, Some (s', lg))"
    and n: "Suc 0 < length lg" by blast
  from n have ne: "lg \<noteq> []" by auto
  from Encode_write_sizes[of ?P "\<lambda>t c. (None, t)" "Some ((), [])" ?src FormatETC2R11Unsigned "()" s' lg] e n ne
  have "length (lg ! 0) = encoderBufferSize \<and> 0 < length (last lg) \<and> length (last lg) \<le> encoderBufferSize"
    by blast
  with e n show ?thesis by blast
qed


text \<open>
  The claim as stated fails on a 1988x4 image in the format R11: 497 blocks of 8 bytes
  are 3976 bytes, written as 3968 bytes and then 8, so the first write is not the last
  and does not pass 4096 bytes.
\<close>

theorem Encode_write_not_4096:
  "\<exists>s' lg. Encode \<lparr>decodeColor = (\<lambda>c a. []), clusterfy = (\<lambda>p w. ((0, 0, 0), (0, 0, 0))),
                   planarFit = (\<lambda>p k. (0, 0, 0)), encodeRGBWithAlpha = (\<lambda>p t. 0)\<rparr>
              (logged (\<lambda>t c. (None, t))) (Some ((), []))
              (Some (ImageNRGBA \<lparr>MinX = 0, MinY = 0, MaxX = 1988, MaxY = 4\<rparr> (\<lambda>x y. (0, 0, 0, 0xFF))))
              FormatETC2R11Unsigned = Some (None, Some (s', lg)) \<and>
            Suc 0 < length lg \<and> length (lg ! 0) = 3968 \<and> length (lg ! 0) \<noteq> 4096"
  using Encode_two_writes[of "\<lparr>decodeColor = (\<lambda>c a. []), clusterfy = (\<lambda>p w. ((0, 0, 0), (0, 0, 0))),
                   planarFit = (\<lambda>p k. (0, 0, 0)), encodeRGBWithAlpha = (\<lambda>p t. 0)\<rparr>" "()"
                   "\<lambda>x y. (0, 0, 0, 0xFF)"]
  by auto


text \<open>
  Claim C3 says that every alpha codeword of an opaque 16x16 image encoded as ETC2-RGBA8
  is \<^verbatim>\<open>FF FF 00 00 00 00 00 00\<close>. \<^verbatim>\<open>encodeAlpha\<close> finds base 255 with table
  byte 0 (multiplier 0, table 0) first, at loss 0, and stops there; all indexes are 0.
  So: for a source whose rectangle is (0,0)-(16,16) and whose pixels are all opaque, a
  successful encode makes one write of 16 blocks of 16 bytes, and the first eight bytes
  of every block are \<^verbatim>\<open>FF 00 00 00 00 00 00 00\<close>.
\<close>

theorem Encode_opaque_alpha_codeword:
  assumes "Bounds src = \<lparr>MinX = 0, MinY = 0, MaxX = 16, MaxY = 16\<rparr>"
    and "\<forall>X Y. In (X, Y) (Bounds src) \<longrightarrow> opaqueAt src X Y"
    and "Encode P (logged wr) (Some (s, [])) (Some src) FormatETC2RGBA8 = Some (None, Some (s', lg))"
  shows "length lg = 1 \<and> length (concat lg) = 16 * 16 \<and>
         (\<forall>k<16. take 8 (drop (16 * k) (concat lg)) = [0xFF, 0x00, 0x00, 0x00, 0x00, 0x00, 0x00, 0x00])"
  using Encode_opaque [OF assms(1) _ assms(3)] storesColor_opaque [of _ _ src] assms(2) by simp

theorem Encode_opaque_alpha_codeword_witness:
  "\<exists>s' lg. Encode \<lparr>decodeColor = (\<lambda>c a. []), clusterfy = (\<lambda>p w. ((0, 0, 0), (0, 0, 0))),
                   planarFit = (\<lambda>p k. (0, 0, 0)), encodeRGBWithAlpha = (\<lambda>p t. 0)\<rparr>
              (logged (\<lambda>t c. (None, t))) (Some ((), []))
              (Some (ImageRGBA64 \<lparr>MinX = 0, MinY = 0, MaxX = 16, MaxY = 16\<rparr>
                       (\<lambda>x y. (0x1234, 0x5678, 0x9ABC, 0xFFFF))))
              FormatETC2RGBA8 = Some (None, Some (s', lg)) \<and>
            length lg = 1 \<and> length (concat lg) = 256 \<and>
            take 8 (drop (16 * 5) (concat lg)) = [0xFF, 0x00, 0x00, 0x00, 0x00, 0x00, 0x00, 0x00]"
proof -
  let ?P = "\<lparr>decodeColor = (\<lambda>c a. []), clusterfy = (\<lambda>p w. ((0, 0, 0), (0, 0, 0))),
             planarFit = (\<lambda>p k. (0, 0, 0)), encodeRGBWithAlpha = (\<lambda>p t. 0)\<rparr>"
  let ?img = "ImageRGBA64 \<lparr>MinX = 0, MinY = 0, MaxX = 16, MaxY = 16\<rparr> (\<lambda>x y. (0x1234, 0x5678, 0x9ABC, 0xFFFF))"
  have b: "Bounds ?img = \<lparr>MinX = 0, MinY = 0, MaxX = 16, MaxY = 16\<rparr>" by simp
  have o: "\<forall>X Y. In (X, Y) (Bounds ?img) \<longrightarrow> opaqueAt ?img X Y" by simp
  from Encode_opaque_exists[OF b, of ?P "()"]
  obtain s' lg where
    e: "Encode ?P (logged (\<lambda>t c. (None, t))) (Some ((), [])) (Some ?img) FormatETC2RGBA8
          = Some (None, Some (s', lg))" by blast
  from Encode_opaque_alpha_codeword[OF b o e]
  have n: "length lg = 1" "length (concat lg) = 256"
    and k: "\<forall>k<16. take 8 (drop (16 * k) (concat lg)) = [0xFF, 0x00, 0x00, 0x00, 0x00, 0x00, 0x00, 0x00]"
    by simp_all
  from k have "take 8 (drop (16 * 5) (concat lg)) = [0xFF, 0x00, 0x00, 0x00, 0x00, 0x00, 0x00, 0x00]"
    by (rule allE[of _ 5]) simp
  with e n show ?thesis by blast
qed


text \<open>
  The claim as stated fails on the opaque white 16x16 image: the first alpha codeword
  is \<^verbatim>\<open>FF 00 00 00 00 00 00 00\<close>, not \<^verbatim>\<open>FF FF 00 00 00 00 00 00\<close>.
\<close>

theorem Encode_opaque_alpha_not_FFFF:
  "\<exists>s' lg. Encode \<lparr>decodeColor = (\<lambda>c a. []), clusterfy = (\<lambda>p w. ((0, 0, 0), (0, 0, 0))),
                   planarFit = (\<lambda>p k. (0, 0, 0)), encodeRGBWithAlpha = (\<lambda>p t. 0)\<rparr>
              (logged (\<lambda>t c. (None, t))) (Some ((), []))
              (Some (ImageRGBA64 \<lparr>MinX = 0, MinY = 0, MaxX = 16, MaxY = 16\<rparr>
                       (\<lambda>x y. (0xFFFF, 0xFFFF, 0xFFFF, 0xFFFF))))
              FormatETC2RGBA8 = Some (None, Some (s', lg)) \<and>
            take 8 (concat lg) = [0xFF, 0x00, 0x00, 0x00, 0x00, 0x00, 0x00, 0x00] \<and>
            take 8 (concat lg) \<noteq> [0xFF, 0xFF, 0x00, 0x00, 0x00, 0x00, 0x00, 0x00]"
proof -
  let ?P = "\<lparr>decodeColor = (\<lambda>c a. []), clusterfy = (\<lambda>p w. ((0, 0, 0), (0, 0, 0))),
             planarFit = (\<lambda>p k. (0, 0, 0)), encodeRGBWithAlpha = (\<lambda>p t. 0)\<rparr>"
  let ?img = "ImageRGBA64 \<lparr>MinX = 0, MinY = 0, MaxX = 16, MaxY = 16\<rparr> (\<lambda>x y. (0xFFFF, 0xFFFF, 0xFFFF, 0xFFFF))"
  have b: "Bounds ?img = \<lparr>MinX = 0, MinY = 0, MaxX = 16, MaxY = 16\<rparr>" by simp
  have o: "\<And>X Y. In (X, Y) (Bounds ?img) \<Longrightarrow> snd (storesColor ?img X Y ! 3) = 0xFF"
    by simp
  from Encode_opaque_exists[OF b, of ?P "()"]
  obtain s' lg where
    e: "Encode ?P (logged (\<lambda>t c. (None, t))) (Some ((), [])) (Some ?img) FormatETC2RGBA8
          = Some (None, Some (s', lg))" by blast
  have k: "\<forall>k<16. take 8 (drop (16 * k) (concat lg)) = [0xFF, 0x00, 0x00, 0x00, 0x00, 0x00, 0x00, 0x00]"
    using Encode_opaque[OF b _ e] o by simp
  from k have "take 8 (drop (16 * 0) (concat lg)) = [0xFF, 0x00, 0x00, 0x00, 0x00, 0x00, 0x00, 0x00]"
    by (rule allE[of _ 0]) simp
  hence "take 8 (concat lg) = [0xFF, 0x00, 0x00, 0x00, 0x00, 0x00, 0x00, 0x00]" by simp
  with e show ?thesis by auto
qed

section \<open>The driver returns the candidate of least decoded loss\<close>

lemma tried_first [simp]: "snd (snd (first P pixels ob cf)) = [cf]"
  by (simp add: first_def)

lemma tried_consider [simp]:
  "snd (snd (consider' P pixels ob cf st)) = snd (snd st) @ [cf]"
  by (cases st) (simp add: consider'_def Let_def)

lemma inv1_first: "inv1 P pixels ob (first P pixels ob cf)"
  by (simp add: inv1_def first_def)

lemma inv1_consider:
  assumes "inv1 P pixels ob st"
  shows "inv1 P pixels ob (consider' P pixels ob cf st)"
proof -
  obtain bc bl tr where st: "st = (bc, bl, tr)" by (cases st) auto
  let ?L = "decodedLoss P pixels ob"
  from assms obtain k where k: "k < length tr" "fst (tr ! k) = bc" "?L (tr ! k) = bl"
    "\<forall>j<k. bl < ?L (tr ! j)" and le: "\<forall>c \<in> set tr. bl \<le> ?L c"
    unfolding inv1_def st by auto
  show ?thesis
  proof (cases "bl > ?L cf")
    case True
    have c: "consider' P pixels ob cf st = (fst cf, ?L cf, tr @ [cf])"
      using True by (simp add: consider'_def st Let_def)
    have "\<forall>j<length tr. ?L cf < ?L ((tr @ [cf]) ! j)"
    proof (intro allI impI)
      fix j assume j: "j < length tr"
      hence "tr ! j \<in> set tr" by simp
      with le have "bl \<le> ?L (tr ! j)" by blast
      with True show "?L cf < ?L ((tr @ [cf]) ! j)" using j by (simp add: nth_append)
    qed
    moreover have "\<forall>c \<in> set (tr @ [cf]). ?L cf \<le> ?L c" using le True by auto
    ultimately show ?thesis unfolding c inv1_def prod.case
      by (intro conjI exI [of _ "length tr"]) simp_all
  next
    case False
    have c: "consider' P pixels ob cf st = (bc, bl, tr @ [cf])"
      using False by (simp add: consider'_def st Let_def)
    have "\<forall>c \<in> set (tr @ [cf]). bl \<le> ?L c" using le False by auto
    moreover have "k < length (tr @ [cf])" "fst ((tr @ [cf]) ! k) = bc" "?L ((tr @ [cf]) ! k) = bl"
      "\<forall>j<k. bl < ?L ((tr @ [cf]) ! j)"
      using k by (simp_all add: nth_append)
    ultimately show ?thesis unfolding c inv1_def prod.case by blast
  qed
qed

lemma inv1_tail:
  "inv1 P pixels ob st \<Longrightarrow> inv1 P pixels ob (encodeColorTail P pixels ob st)"
  by (simp add: encodeColorTail_def Let_def inv1_consider)

lemma inv1_search:
  "inv1 P pixels (f = FormatETC2RGBA1) (encodeColorSearch P pixels f)"
  by (simp add: encodeColorSearch_def Let_def inv1_first inv1_consider inv1_tail)

lemma foldl_xyOrder_sum:
  fixes g :: "nat \<Rightarrow> int"
  shows "foldl (\<lambda>loss xy. loss + g (4 * snd xy + fst xy)) 0 xyOrder = (\<Sum>i<16. g i)"
  unfolding sum_list_upt [symmetric] upt_0_16 xyOrder_list by (simp add: numeral_2_eq_2 [symmetric])

lemma calculateBlockLoss_sum:
  "calculateBlockLoss pixels work ob =
     (\<Sum>i<16. if ob \<and> pixels ! (4 * i + 3) < 0x80 then 0
              else 299 * (uint (pixels ! (4 * i + 0)) - uint (work ! (4 * i + 0)))\<^sup>2 +
                   587 * (uint (pixels ! (4 * i + 1)) - uint (work ! (4 * i + 1)))\<^sup>2 +
                   114 * (uint (pixels ! (4 * i + 2)) - uint (work ! (4 * i + 2)))\<^sup>2)"
proof -
  let ?g = "\<lambda>i. if ob \<and> pixels ! (4 * i + 3) < 0x80 then 0
              else 299 * (uint (pixels ! (4 * i + 0)) - uint (work ! (4 * i + 0)))\<^sup>2 +
                   587 * (uint (pixels ! (4 * i + 1)) - uint (work ! (4 * i + 1)))\<^sup>2 +
                   114 * (uint (pixels ! (4 * i + 2)) - uint (work ! (4 * i + 2)))\<^sup>2"
  have i: "16 * y + 4 * x = 4 * (4 * y + x)" for x y :: nat by simp
  have "calculateBlockLoss pixels work ob = foldl (\<lambda>loss xy. loss + ?g (4 * snd xy + fst xy)) 0 xyOrder"
    unfolding calculateBlockLoss_def i
    by (rule arg_cong [where f = "\<lambda>f. foldl f 0 xyOrder"])
       (auto simp add: fun_eq_iff Let_def weightValuesI32_def power2_eq_square algebra_simps)
  then show ?thesis unfolding foldl_xyOrder_sum [of ?g] .
qed

lemma inv1_Min:
  assumes "inv1 P pixels ob st"
  shows "fst (snd st) = Min (decodedLoss P pixels ob ` set (snd (snd st)))"
proof -
  obtain bc bl tr where st: "st = (bc, bl, tr)" by (cases st) auto
  from assms obtain k where k: "k < length tr" "decodedLoss P pixels ob (tr ! k) = bl"
    and le: "\<forall>c \<in> set tr. bl \<le> decodedLoss P pixels ob c"
    unfolding inv1_def st by auto
  have "Min (decodedLoss P pixels ob ` set tr) = bl"
  proof (rule Min_eqI)
    show "finite (decodedLoss P pixels ob ` set tr)" by simp
    show "bl \<in> decodedLoss P pixels ob ` set tr" using k by (metis image_eqI nth_mem)
    fix y assume "y \<in> decodedLoss P pixels ob ` set tr"
    with le show "bl \<le> y" by auto
  qed
  then show ?thesis by (simp add: st)
qed

lemma tried_tail:
  assumes i: "inv1 P pixels ob st"
  shows "snd (snd (encodeColorTail P pixels ob st)) =
     snd (snd st) @
     [(encodePlanar (planarFit P) pixels, False),
      (encodeT (clusterfy P) pixels False False, False),
      (encodeH (clusterfy P) pixels False False, False)] @
     (if decodedLoss P pixels ob (encodeH (clusterfy P) pixels False False, False)
           < Min (decodedLoss P pixels ob ` set (snd (snd st) @
                    [(encodePlanar (planarFit P) pixels, False),
                     (encodeT (clusterfy P) pixels False False, False)]))
      then [(encodeH (clusterfy P) pixels False True, False)]
      else if decodedLoss P pixels ob (encodeT (clusterfy P) pixels False False, False)
           < Min (decodedLoss P pixels ob ` set (snd (snd st) @
                    [(encodePlanar (planarFit P) pixels, False)]))
      then [(encodeT (clusterfy P) pixels False True, False)]
      else [])"
proof -
  let ?Pl = "(encodePlanar (planarFit P) pixels, False)"
  let ?T = "(encodeT (clusterfy P) pixels False False, False)"
  let ?H = "(encodeH (clusterfy P) pixels False False, False)"
  let ?s1 = "consider' P pixels ob ?Pl st"
  let ?s2 = "consider' P pixels ob ?T ?s1"
  let ?s3 = "consider' P pixels ob ?H ?s2"
  have i1: "inv1 P pixels ob ?s1" by (rule inv1_consider [OF i])
  have i2: "inv1 P pixels ob ?s2" by (rule inv1_consider [OF i1])
  have m1: "fst (snd ?s1) = Min (decodedLoss P pixels ob ` set (snd (snd st) @ [?Pl]))"
    using inv1_Min [OF i1] by simp
  have m2: "fst (snd ?s2) = Min (decodedLoss P pixels ob ` set (snd (snd st) @ [?Pl, ?T]))"
    using inv1_Min [OF i2] by simp
  show ?thesis
    unfolding encodeColorTail_def Let_def m1 m2 by simp
qed

lemma tried_search:
  "snd (snd (encodeColorSearch P pixels f)) =
     (if f = FormatETC2RGBA1 then
        (if hasTransparentPixelsWhenUsingOneBitAlpha pixels
         then [(encodeRGBWithAlpha P pixels True, True),
               (encodeT (clusterfy P) pixels True False, True),
               (encodeH (clusterfy P) pixels True False, True)]
         else snd (snd (encodeColorTail P pixels True
                (consider' P pixels True (encodeRGBWithAlpha P pixels False, True)
                  (consider' P pixels True (encodeH (clusterfy P) pixels True False, True)
                    (consider' P pixels True (encodeT (clusterfy P) pixels True False, True)
                      (first P pixels True (encodeRGBWithAlpha P pixels True, True))))))))
      else if f = FormatETC1S then [(encodeRGBSansAlpha reduceAverage True pixels, False)]
      else if (f AND formatBitsETC2) \<noteq> formatBitsETC2
      then [(encodeRGBSansAlpha reduceAverage False pixels, False),
            (encodeRGBSansAlpha reduceQuantize False pixels, False)]
      else snd (snd (encodeColorTail P pixels False
                (consider' P pixels False (encodeRGBSansAlpha reduceQuantize False pixels, False)
                   (first P pixels False (encodeRGBSansAlpha reduceAverage False pixels, False))))))"
  by (simp add: encodeColorSearch_def Let_def)

lemma hasTransparent_iff:
  "hasTransparentPixelsWhenUsingOneBitAlpha pixels \<longleftrightarrow> (\<exists>i<16. pixels ! (4 * i + 3) < 0x80)"
  unfolding hasTransparentPixelsWhenUsingOneBitAlpha_def list_ex_iff
  by (auto simp del: upt_rec_numeral)

lemma decodedLoss_sum:
  "decodedLoss P pixels ob =
     (\<lambda>cf. \<Sum>i<16. if ob \<and> pixels ! (4 * i + 3) < 0x80 then 0
              else 299 * (uint (pixels ! (4 * i + 0)) - uint (decodeColor P (fst cf) (snd cf) ! (4 * i + 0)))\<^sup>2 +
                   587 * (uint (pixels ! (4 * i + 1)) - uint (decodeColor P (fst cf) (snd cf) ! (4 * i + 1)))\<^sup>2 +
                   114 * (uint (pixels ! (4 * i + 2)) - uint (decodeColor P (fst cf) (snd cf) ! (4 * i + 2)))\<^sup>2)"
  unfolding decodedLoss_def calculateBlockLoss_sum ..

lemma tried_cands:
  "snd (snd (encodeColorSearch P pixels f)) =
     (if f = FormatETC2RGBA1 then
        (if \<exists>i<16. pixels ! (4 * i + 3) < 0x80
         then [(encodeRGBWithAlpha P pixels True, True),
               (encodeT (clusterfy P) pixels True False, True),
               (encodeH (clusterfy P) pixels True False, True)]
         else [(encodeRGBWithAlpha P pixels True, True),
               (encodeT (clusterfy P) pixels True False, True),
               (encodeH (clusterfy P) pixels True False, True),
               (encodeRGBWithAlpha P pixels False, True)] @
              [(encodePlanar (planarFit P) pixels, False),
               (encodeT (clusterfy P) pixels False False, False),
               (encodeH (clusterfy P) pixels False False, False)] @
              (if decodedLoss P pixels (f = FormatETC2RGBA1) (encodeH (clusterfy P) pixels False False, False)
                    < Min (decodedLoss P pixels (f = FormatETC2RGBA1) `
                           set ([(encodeRGBWithAlpha P pixels True, True),
                                 (encodeT (clusterfy P) pixels True False, True),
                                 (encodeH (clusterfy P) pixels True False, True),
                                 (encodeRGBWithAlpha P pixels False, True)] @
                                [(encodePlanar (planarFit P) pixels, False),
                                 (encodeT (clusterfy P) pixels False False, False)]))
               then [(encodeH (clusterfy P) pixels False True, False)]
               else if decodedLoss P pixels (f = FormatETC2RGBA1) (encodeT (clusterfy P) pixels False False, False)
                    < Min (decodedLoss P pixels (f = FormatETC2RGBA1) `
                           set ([(encodeRGBWithAlpha P pixels True, True),
                                 (encodeT (clusterfy P) pixels True False, True),
                                 (encodeH (clusterfy P) pixels True False, True),
                                 (encodeRGBWithAlpha P pixels False, True)] @
                                [(encodePlanar (planarFit P) pixels, False)]))
               then [(encodeT (clusterfy P) pixels False True, False)]
               else []))
      else if f = FormatETC1S then [(encodeRGBSansAlpha reduceAverage True pixels, False)]
      else if (f AND formatBitsETC2) \<noteq> formatBitsETC2
      then [(encodeRGBSansAlpha reduceAverage False pixels, False),
            (encodeRGBSansAlpha reduceQuantize False pixels, False)]
      else [(encodeRGBSansAlpha reduceAverage False pixels, False),
            (encodeRGBSansAlpha reduceQuantize False pixels, False)] @
           [(encodePlanar (planarFit P) pixels, False),
            (encodeT (clusterfy P) pixels False False, False),
            (encodeH (clusterfy P) pixels False False, False)] @
           (if decodedLoss P pixels (f = FormatETC2RGBA1) (encodeH (clusterfy P) pixels False False, False)
                 < Min (decodedLoss P pixels (f = FormatETC2RGBA1) `
                        set ([(encodeRGBSansAlpha reduceAverage False pixels, False),
                              (encodeRGBSansAlpha reduceQuantize False pixels, False)] @
                             [(encodePlanar (planarFit P) pixels, False),
                              (encodeT (clusterfy P) pixels False False, False)]))
            then [(encodeH (clusterfy P) pixels False True, False)]
            else if decodedLoss P pixels (f = FormatETC2RGBA1) (encodeT (clusterfy P) pixels False False, False)
                 < Min (decodedLoss P pixels (f = FormatETC2RGBA1) `
                        set ([(encodeRGBSansAlpha reduceAverage False pixels, False),
                              (encodeRGBSansAlpha reduceQuantize False pixels, False)] @
                             [(encodePlanar (planarFit P) pixels, False)]))
            then [(encodeT (clusterfy P) pixels False True, False)]
            else []))"
proof -
  let ?a1 = "(encodeRGBWithAlpha P pixels True, True)"
  let ?t1 = "(encodeT (clusterfy P) pixels True False, True)"
  let ?h1 = "(encodeH (clusterfy P) pixels True False, True)"
  let ?b1 = "(encodeRGBWithAlpha P pixels False, True)"
  let ?a = "(encodeRGBSansAlpha reduceAverage False pixels, False)"
  let ?q = "(encodeRGBSansAlpha reduceQuantize False pixels, False)"
  let ?s1 = "consider' P pixels True ?b1 (consider' P pixels True ?h1
               (consider' P pixels True ?t1 (first P pixels True ?a1)))"
  let ?s0 = "consider' P pixels False ?q (first P pixels False ?a)"
  have i1: "inv1 P pixels True ?s1" by (intro inv1_consider inv1_first)
  have i0: "inv1 P pixels False ?s0" by (intro inv1_consider inv1_first)
  have t1: "snd (snd ?s1) = [?a1, ?t1, ?h1, ?b1]" by simp
  have t0: "snd (snd ?s0) = [?a, ?q]" by simp
  show ?thesis
  proof (cases "f = FormatETC2RGBA1")
    case True
    show ?thesis
      unfolding tried_search hasTransparent_iff tried_tail [OF i1] t1 using True by simp
  next
    case False
    show ?thesis
      unfolding tried_search tried_tail [OF i0] t0 using False by simp
  qed
qed

lemma search_first_min:
  "\<exists>k<length (snd (snd (encodeColorSearch P pixels f))).
      encodeColor P pixels f = fst (snd (snd (encodeColorSearch P pixels f)) ! k) \<and>
      (\<forall>cf \<in> set (snd (snd (encodeColorSearch P pixels f))).
          decodedLoss P pixels (f = FormatETC2RGBA1) (snd (snd (encodeColorSearch P pixels f)) ! k)
            \<le> decodedLoss P pixels (f = FormatETC2RGBA1) cf) \<and>
      (\<forall>j<k. decodedLoss P pixels (f = FormatETC2RGBA1) (snd (snd (encodeColorSearch P pixels f)) ! k)
            < decodedLoss P pixels (f = FormatETC2RGBA1) (snd (snd (encodeColorSearch P pixels f)) ! j))"
proof -
  obtain bc bl tr where st: "encodeColorSearch P pixels f = (bc, bl, tr)"
    by (cases "encodeColorSearch P pixels f") auto
  from inv1_search [of P pixels f] show ?thesis
    unfolding inv1_def st prod.case encodeColor_def by auto
qed

text \<open>
  Claim C1. The candidates of \<^verbatim>\<open>encodeColor\<close> are, in the order tried and each with
  the flag the driver passes to the decoder: for RGBA1, the codes of
  \<^verbatim>\<open>encodeRGBWithAlpha(true)\<close>, \<^verbatim>\<open>encodeT(true, false)\<close> and
  \<^verbatim>\<open>encodeH(true, false)\<close>, and for a block with no transparent pixel also
  \<^verbatim>\<open>encodeRGBWithAlpha(false)\<close> and the tail; for ETC1S the one code of
  \<^verbatim>\<open>encodeRGBSansAlpha(reduceAverage, true)\<close>; otherwise the codes of
  \<^verbatim>\<open>encodeRGBSansAlpha\<close> with \<^verbatim>\<open>reduceAverage\<close> and with
  \<^verbatim>\<open>reduceQuantize\<close>, and for an ETC2 format the tail. The tail is Planar, T and H
  and, when H (else when T) was strictly better than everything before it, its harder
  run. The loss \<open>L\<close> of a candidate is the sum, over the sixteen pixels, of
  \<open>299 dR\<^sup>2 + 587 dG\<^sup>2 + 114 dB\<^sup>2\<close> between the block and the decoder's output for
  the candidate; for RGBA1 a pixel with alpha below \<^verbatim>\<open>0x80\<close> counts 0. The code
  returned is the first candidate whose \<open>L\<close> is the least: nothing but the decoded
  losses decides between the candidates.
\<close>

theorem encodeColor_least_decoded_loss:
  "let ob = (f = FormatETC2RGBA1);
       L = (\<lambda>cf. \<Sum>i<16. if ob \<and> pixels ! (4 * i + 3) < 0x80 then 0
              else 299 * (uint (pixels ! (4 * i + 0)) - uint (decodeColor P (fst cf) (snd cf) ! (4 * i + 0)))\<^sup>2 +
                   587 * (uint (pixels ! (4 * i + 1)) - uint (decodeColor P (fst cf) (snd cf) ! (4 * i + 1)))\<^sup>2 +
                   114 * (uint (pixels ! (4 * i + 2)) - uint (decodeColor P (fst cf) (snd cf) ! (4 * i + 2)))\<^sup>2);
       pl = (encodePlanar (planarFit P) pixels, False);
       t0 = (encodeT (clusterfy P) pixels False False, False);
       h0 = (encodeH (clusterfy P) pixels False False, False);
       tail = (\<lambda>pre. pre @ [pl, t0, h0] @
                 (if L h0 < Min (L ` set (pre @ [pl, t0]))
                  then [(encodeH (clusterfy P) pixels False True, False)]
                  else if L t0 < Min (L ` set (pre @ [pl]))
                  then [(encodeT (clusterfy P) pixels False True, False)]
                  else []));
       cands =
         (if ob then
            (if \<exists>i<16. pixels ! (4 * i + 3) < 0x80
             then [(encodeRGBWithAlpha P pixels True, True),
                   (encodeT (clusterfy P) pixels True False, True),
                   (encodeH (clusterfy P) pixels True False, True)]
             else tail [(encodeRGBWithAlpha P pixels True, True),
                        (encodeT (clusterfy P) pixels True False, True),
                        (encodeH (clusterfy P) pixels True False, True),
                        (encodeRGBWithAlpha P pixels False, True)])
          else if f = FormatETC1S then [(encodeRGBSansAlpha reduceAverage True pixels, False)]
          else if (f AND formatBitsETC2) \<noteq> formatBitsETC2
          then [(encodeRGBSansAlpha reduceAverage False pixels, False),
                (encodeRGBSansAlpha reduceQuantize False pixels, False)]
          else tail [(encodeRGBSansAlpha reduceAverage False pixels, False),
                     (encodeRGBSansAlpha reduceQuantize False pixels, False)])
   in \<exists>k<length cands.
        encodeColor P pixels f = fst (cands ! k) \<and>
        (\<forall>cf \<in> set cands. L (cands ! k) \<le> L cf) \<and>
        (\<forall>j<k. L (cands ! k) < L (cands ! j))"
proof -
  have "snd (snd (encodeColorSearch P pixels f)) =
    (let ob = (f = FormatETC2RGBA1);
       L = decodedLoss P pixels ob;
       pl = (encodePlanar (planarFit P) pixels, False);
       t0 = (encodeT (clusterfy P) pixels False False, False);
       h0 = (encodeH (clusterfy P) pixels False False, False);
       tail = (\<lambda>pre. pre @ [pl, t0, h0] @
                 (if L h0 < Min (L ` set (pre @ [pl, t0]))
                  then [(encodeH (clusterfy P) pixels False True, False)]
                  else if L t0 < Min (L ` set (pre @ [pl]))
                  then [(encodeT (clusterfy P) pixels False True, False)]
                  else []))
     in
         (if ob then
            (if \<exists>i<16. pixels ! (4 * i + 3) < 0x80
             then [(encodeRGBWithAlpha P pixels True, True),
                   (encodeT (clusterfy P) pixels True False, True),
                   (encodeH (clusterfy P) pixels True False, True)]
             else tail [(encodeRGBWithAlpha P pixels True, True),
                        (encodeT (clusterfy P) pixels True False, True),
                        (encodeH (clusterfy P) pixels True False, True),
                        (encodeRGBWithAlpha P pixels False, True)])
          else if f = FormatETC1S then [(encodeRGBSansAlpha reduceAverage True pixels, False)]
          else if (f AND formatBitsETC2) \<noteq> formatBitsETC2
          then [(encodeRGBSansAlpha reduceAverage False pixels, False),
                (encodeRGBSansAlpha reduceQuantize False pixels, False)]
          else tail [(encodeRGBSansAlpha reduceAverage False pixels, False),
                     (encodeRGBSansAlpha reduceQuantize False pixels, False)]))"
    unfolding Let_def by (rule tried_cands)
  from search_first_min [of P pixels f, unfolded this]
  show ?thesis unfolding Let_def decodedLoss_sum .
qed

theorem encodeColor_least_decoded_loss_witness:
  "encodeColor \<lparr>decodeColor = (\<lambda>c a. replicate 64 0), clusterfy = (\<lambda>p w. ((0, 0, 0), (0, 0, 0))),
                planarFit = (\<lambda>p k. (0, 0, 0)), encodeRGBWithAlpha = (\<lambda>p t. 0)\<rparr>
               (replicate 64 0x80) FormatETC1
     = encodeRGBSansAlpha reduceAverage False (replicate 64 0x80)"
proof -
  let ?P = "\<lparr>decodeColor = (\<lambda>c a. replicate 64 0), clusterfy = (\<lambda>p w. ((0, 0, 0), (0, 0, 0))),
             planarFit = (\<lambda>p k. (0, 0, 0)), encodeRGBWithAlpha = (\<lambda>p t. 0)\<rparr>"
  have f: "FormatETC1 \<noteq> FormatETC2RGBA1" "FormatETC1 \<noteq> FormatETC1S"
    "(FormatETC1 AND formatBitsETC2) \<noteq> formatBitsETC2"
    by (simp_all add: Format_defs formatBit_defs)
  have z: "(\<forall>j. \<not> j < k) = (k = 0)" for k :: nat by auto
  from encodeColor_least_decoded_loss [of FormatETC1 "replicate 64 0x80" ?P]
  show ?thesis
    unfolding Let_def using f by (auto simp add: nth_Cons' z)
qed

end
